(* ===== verification/Wallet_Prelude.thy ===== *)
theory Wallet_Prelude
  imports Main "HOL-Library.Word" "HOL-Library.AList"
begin

text \<open>
  Shared vocabulary of the development: the errors the Go code returns, actions that read and
  write a state and may fail (Go's \<open>(value, error)\<close> results), Hoare-style triples for them, SQL
  table updates as list functions, and Go's fixed-width conversions.
\<close>

section \<open>Collections of facts\<close>

named_theorems action_defs \<open>unfolding an action to the state transformer it denotes\<close>
named_theorems safe \<open>introduction rules for Hoare triples over actions\<close>

section \<open>Errors\<close>

text \<open>\<open>tasks/sync_task_fee_logs.go\<close>: the \<open>TaskFeeError\<close> values.\<close>

datatype task_fee_error =
    ErrTaskFeeAmountTooLarge
  | ErrTaskFeeAmountInvalid
  | ErrTaskFeeAddressCountTooLarge
  | ErrTaskFeeNewAddressCountTooLarge
  | ErrTaskFeeDepositPayloadInvalid
  | ErrTaskFeeDepositTxMismatch
  | ErrTaskFeeDepositTxHashDuplicate
  | ErrTaskFeeDepositTxTooOld
  | ErrTaskFeeUnknownEventType
  | ErrTaskFeeVestingPayloadInvalid
  | ErrTaskFeeVestingSignerMismatch
  | ErrTaskFeeVestingSignatureInvalid
  | ErrTaskFeeVestingRecordNotFound
  | ErrTaskFeeVestingReleaseInvalid
  | ErrTaskFeeWithdrawalFeeAddressMismatch

text \<open>\<open>tasks/process_withdrawal_requests.go\<close>: the \<open>WithdrawalRequestError\<close> values.\<close>

datatype withdrawal_request_error =
    ErrWithdrawalRequestStatusInvalid
  | ErrWithdrawalRequestAmountInvalid
  | ErrWithdrawalRequestAddressNotExists
  | ErrWithdrawalRequestAmountTooLarge
  | ErrWithdrawalRequestTaskFeeNotEnough
  | ErrWithdrawalRequestBeneficialAddressInvalid
  | ErrWithdrawalRequestAmountTooSmall
  | ErrWithdrawalRequestTransactionUnconfirmedTimeout
  | ErrWithdrawalRequestDailyLimitExceeded
  | ErrWithdrawalRequestNetworkInvalid

text \<open>\<open>tasks/process_withdrawal_requests.go\<close>: the authorization errors (plain \<open>errors.New\<close>).\<close>

datatype withdrawal_authorization_error =
    ErrWithdrawalAuthorizationMissing
  | ErrWithdrawalAuthorizationInvalid
  | ErrWithdrawalAuthorizationAddressMismatch
  | ErrWithdrawalAuthorizationReplayed

text \<open>\<open>blockchain/transaction_sender.go\<close>: the hot wallet balance errors.\<close>

datatype hot_wallet_error =
    ErrHotWalletNativeBalanceInsufficient
  | ErrHotWalletERC20BalanceInsufficient
  | ErrHotWalletNativeGasFeeInsufficient

text \<open>
  Every error a modelled function can return. \<open>ErrorsNew\<close> is an error made by \<open>errors.New\<close> or
  \<open>fmt.Errorf\<close> without \<open>%w\<close>; \<open>Wrapped\<close> is \<open>fmt.Errorf\<close> with a final \<open>%w\<close>; \<open>External\<close> is an error that a
  package outside the repository returned, with its text; \<open>Panic\<close> is a run-time panic. \<open>OutOfFuel\<close>
  is not an error of the program: it marks a loop that the model has stopped unrolling.
\<close>

datatype go_error =
    TaskFeeError task_fee_error
  | WithdrawalRequestError withdrawal_request_error
  | AuthorizationError withdrawal_authorization_error
  | HotWalletError hot_wallet_error string
  | ErrBlockchainNotFound
  | ErrRetryAncestorsUnsafe
  | ErrRecordNotFound
  | ErrDuplicatedKey
  | EthereumNotFound
  | ContextCanceled
  | ContextDeadlineExceeded
  | ErrorsNew string
  | External string
  | Wrapped string go_error
  | Panic string
  | OutOfFuel

text \<open>\<open>errors.As\<close> for the two task error types unwraps \<open>%w\<close> chains.\<close>

fun IsTaskFeeError :: "go_error \<Rightarrow> bool" where
  "IsTaskFeeError (TaskFeeError _) = True"
| "IsTaskFeeError (Wrapped _ e) = IsTaskFeeError e"
| "IsTaskFeeError _ = False"

fun IsWithdrawalRequestError :: "go_error \<Rightarrow> bool" where
  "IsWithdrawalRequestError (WithdrawalRequestError _) = True"
| "IsWithdrawalRequestError (Wrapped _ e) = IsWithdrawalRequestError e"
| "IsWithdrawalRequestError _ = False"

text \<open>\<open>errors.Is(err, context.DeadlineExceeded)\<close>.\<close>

fun is_deadline_exceeded :: "go_error \<Rightarrow> bool" where
  "is_deadline_exceeded ContextDeadlineExceeded = True"
| "is_deadline_exceeded (Wrapped _ e) = is_deadline_exceeded e"
| "is_deadline_exceeded _ = False"

text \<open>
  A panic unwinds the goroutine past every \<open>err != nil\<close> test, and a loop the model has stopped
  unrolling has no result to test: neither is an error value the program can look at.
\<close>

fun aborts :: "go_error \<Rightarrow> bool" where
  "aborts (Panic _) = True"
| "aborts OutOfFuel = True"
| "aborts _ = False"

section \<open>The texts of the errors\<close>

fun task_fee_error_text :: "task_fee_error \<Rightarrow> string" where
  "task_fee_error_text ErrTaskFeeAmountTooLarge =
     ''task fee amount is greater than max task fee amount threshold''"
| "task_fee_error_text ErrTaskFeeAmountInvalid = ''cannot parse amount from task fee log''"
| "task_fee_error_text ErrTaskFeeAddressCountTooLarge =
     ''task fee logs count of a single address is greater than max address count threshold''"
| "task_fee_error_text ErrTaskFeeNewAddressCountTooLarge =
     ''task fee logs count of new addresses is greater than max new address count threshold''"
| "task_fee_error_text ErrTaskFeeDepositPayloadInvalid = ''deposit log payload is invalid''"
| "task_fee_error_text ErrTaskFeeDepositTxMismatch =
     ''deposit transaction does not match relay account event log''"
| "task_fee_error_text ErrTaskFeeDepositTxHashDuplicate = ''deposit transaction hash already exists''"
| "task_fee_error_text ErrTaskFeeDepositTxTooOld =
     ''deposit transaction is older than max age threshold''"
| "task_fee_error_text ErrTaskFeeUnknownEventType = ''unknown relay account event type''"
| "task_fee_error_text ErrTaskFeeVestingPayloadInvalid = ''vesting log payload is invalid''"
| "task_fee_error_text ErrTaskFeeVestingSignerMismatch =
     ''vesting signer does not match configured signer''"
| "task_fee_error_text ErrTaskFeeVestingSignatureInvalid = ''vesting signature is invalid''"
| "task_fee_error_text ErrTaskFeeVestingRecordNotFound = ''vesting record not found''"
| "task_fee_error_text ErrTaskFeeVestingReleaseInvalid = ''vesting release is invalid''"
| "task_fee_error_text ErrTaskFeeWithdrawalFeeAddressMismatch =
     ''withdrawal fee income address does not match configured address''"

fun withdrawal_request_error_text :: "withdrawal_request_error \<Rightarrow> string" where
  "withdrawal_request_error_text ErrWithdrawalRequestStatusInvalid =
     ''invalid withdrawal request status''"
| "withdrawal_request_error_text ErrWithdrawalRequestAmountInvalid =
     ''invalid withdrawal request amount''"
| "withdrawal_request_error_text ErrWithdrawalRequestAddressNotExists =
     ''withdrawal request address not exists''"
| "withdrawal_request_error_text ErrWithdrawalRequestAmountTooLarge =
     ''withdrawal request amount is too large''"
| "withdrawal_request_error_text ErrWithdrawalRequestTaskFeeNotEnough =
     ''withdrawal request task fee not enough''"
| "withdrawal_request_error_text ErrWithdrawalRequestBeneficialAddressInvalid =
     ''withdrawal request beneficial address is invalid''"
| "withdrawal_request_error_text ErrWithdrawalRequestAmountTooSmall =
     ''withdrawal request amount is too small''"
| "withdrawal_request_error_text ErrWithdrawalRequestTransactionUnconfirmedTimeout =
     ''withdrawal request transaction remains unconfirmed after timeout''"
| "withdrawal_request_error_text ErrWithdrawalRequestDailyLimitExceeded =
     ''withdrawal request count exceeds daily limit for network and address''"
| "withdrawal_request_error_text ErrWithdrawalRequestNetworkInvalid =
     ''withdrawal request network is invalid''"

fun withdrawal_authorization_error_text :: "withdrawal_authorization_error \<Rightarrow> string" where
  "withdrawal_authorization_error_text ErrWithdrawalAuthorizationMissing =
     ''withdrawal authorization is missing''"
| "withdrawal_authorization_error_text ErrWithdrawalAuthorizationInvalid =
     ''withdrawal authorization is invalid''"
| "withdrawal_authorization_error_text ErrWithdrawalAuthorizationAddressMismatch =
     ''withdrawal authorization address mismatch''"
| "withdrawal_authorization_error_text ErrWithdrawalAuthorizationReplayed =
     ''withdrawal authorization has already been used''"

fun hot_wallet_error_text :: "hot_wallet_error \<Rightarrow> string" where
  "hot_wallet_error_text ErrHotWalletNativeBalanceInsufficient =
     ''relay hot wallet native token balance is insufficient''"
| "hot_wallet_error_text ErrHotWalletERC20BalanceInsufficient =
     ''relay hot wallet ERC20 token balance is insufficient''"
| "hot_wallet_error_text ErrHotWalletNativeGasFeeInsufficient =
     ''relay hot wallet native gas fee is insufficient''"

text \<open>\<open>err.Error()\<close>.\<close>

fun error_text :: "go_error \<Rightarrow> string" where
  "error_text (TaskFeeError e) = task_fee_error_text e"
| "error_text (WithdrawalRequestError e) = withdrawal_request_error_text e"
| "error_text (AuthorizationError e) = withdrawal_authorization_error_text e"
| "error_text (HotWalletError e detail) = hot_wallet_error_text e @ detail"
| "error_text ErrBlockchainNotFound = ''blockchain not found''"
| "error_text ErrRetryAncestorsUnsafe = ''retry ancestors lack proven on-chain failure''"
| "error_text ErrRecordNotFound = ''record not found''"
| "error_text ErrDuplicatedKey = ''duplicated key not allowed''"
| "error_text EthereumNotFound = ''not found''"
| "error_text ContextCanceled = ''context canceled''"
| "error_text ContextDeadlineExceeded = ''context deadline exceeded''"
| "error_text (ErrorsNew s) = s"
| "error_text (External s) = s"
| "error_text (Wrapped s e) = s @ error_text e"
| "error_text (Panic s) = s"
| "error_text OutOfFuel = []"

section \<open>Actions\<close>

text \<open>
  An action on a state \<open>'s\<close> returns an error or a value, and the state it leaves: also on an
  error, because a Go function that returns an error keeps the writes it has made.
\<close>

type_synonym ('s, 'a) action = "'s \<Rightarrow> (go_error + 'a) \<times> 's"

definition return_ok :: "'a \<Rightarrow> ('s, 'a) action" where
  [action_defs]: "return_ok x = (\<lambda>s. (Inr x, s))"

definition return_err :: "go_error \<Rightarrow> ('s, 'a) action" where
  [action_defs]: "return_err e = (\<lambda>s. (Inl e, s))"

text \<open>\<open>x, err := m; if err != nil { return err }\<close>, then \<open>f x\<close>.\<close>

definition and_then :: "('s, 'a) action \<Rightarrow> ('a \<Rightarrow> ('s, 'b) action) \<Rightarrow> ('s, 'b) action" where
  [action_defs]: "and_then m f = (\<lambda>s. case m s of (Inl e, t) \<Rightarrow> (Inl e, t) | (Inr x, t) \<Rightarrow> f x t)"

text \<open>\<open>x, err := m\<close> where the code goes on to look at \<open>err\<close> itself.\<close>

definition try_result :: "('s, 'a) action \<Rightarrow> ('s, go_error + 'a) action" where
  [action_defs]: "try_result m =
     (\<lambda>s. case m s of
        (Inl e, t) \<Rightarrow> if aborts e then (Inl e, t) else (Inr (Inl e), t)
      | (Inr x, t) \<Rightarrow> (Inr (Inr x), t))"

definition reads :: "('s \<Rightarrow> 'a) \<Rightarrow> ('s, 'a) action" where
  [action_defs]: "reads f = (\<lambda>s. (Inr (f s), s))"

definition writes :: "('s \<Rightarrow> 's) \<Rightarrow> ('s, unit) action" where
  [action_defs]: "writes f = (\<lambda>s. (Inr (), f s))"

definition lift_sum :: "go_error + 'a \<Rightarrow> ('s, 'a) action" where
  [action_defs]: "lift_sum r = (\<lambda>s. (r, s))"

fun for_each :: "'x list \<Rightarrow> ('x \<Rightarrow> ('s, unit) action) \<Rightarrow> ('s, unit) action" where
  "for_each [] f = return_ok ()"
| "for_each (x # xs) f = and_then (f x) (\<lambda>_. for_each xs f)"

text \<open>The same for steps that need no state: Go's \<open>if err != nil { return err }\<close> on sums.\<close>

fun bind_sum :: "go_error + 'a \<Rightarrow> ('a \<Rightarrow> go_error + 'b) \<Rightarrow> go_error + 'b" where
  "bind_sum (Inl e) f = Inl e"
| "bind_sum (Inr x) f = f x"

lemma bind_sum_Inr: "bind_sum m f = Inr y \<longleftrightarrow> (\<exists>x. m = Inr x \<and> f x = Inr y)"
  by (cases m) auto

lemma bind_sum_Inl: "bind_sum m f = Inl e \<longleftrightarrow> m = Inl e \<or> (\<exists>x. m = Inr x \<and> f x = Inl e)"
  by (cases m) auto

section \<open>Triples\<close>

text \<open>
  \<open>triple P m Q R\<close>: from a state with \<open>P\<close>, the action \<open>m\<close> ends in \<open>Q x\<close> when it returns \<open>x\<close> and
  in \<open>R e\<close> when it returns the error \<open>e\<close>.
\<close>

definition triple ::
  "('s \<Rightarrow> bool) \<Rightarrow> ('s, 'a) action \<Rightarrow> ('a \<Rightarrow> 's \<Rightarrow> bool) \<Rightarrow> (go_error \<Rightarrow> 's \<Rightarrow> bool) \<Rightarrow> bool" where
  "triple P m Q R \<longleftrightarrow>
     (\<forall>s r t. P s \<longrightarrow> m s = (r, t) \<longrightarrow> (case r of Inl e \<Rightarrow> R e t | Inr x \<Rightarrow> Q x t))"

definition keeps :: "('s \<Rightarrow> bool) \<Rightarrow> ('s, 'a) action \<Rightarrow> bool" where
  "keeps P m \<longleftrightarrow> (\<forall>s. P s \<longrightarrow> P (snd (m s)))"

text \<open>\<open>completes P m Q\<close>: from every state with \<open>P\<close> the action \<open>m\<close> returns a value, in \<open>Q\<close>.\<close>

definition completes :: "('s \<Rightarrow> bool) \<Rightarrow> ('s, 'a) action \<Rightarrow> ('a \<Rightarrow> 's \<Rightarrow> bool) \<Rightarrow> bool" where
  "completes P m Q \<longleftrightarrow> (\<forall>s. P s \<longrightarrow> (\<exists>x t. m s = (Inr x, t) \<and> Q x t))"

lemma completes_and_then:
  "completes P m B \<Longrightarrow> (\<And>x. completes (B x) (f x) Q) \<Longrightarrow> completes P (and_then m f) Q"
  unfolding completes_def and_then_def by fastforce

lemma completes_return_ok: "(\<And>s. P s \<Longrightarrow> Q x s) \<Longrightarrow> completes P (return_ok x) Q"
  by (simp add: completes_def return_ok_def)

lemma completes_weaken:
  "completes P' m Q' \<Longrightarrow> (\<And>s. P s \<Longrightarrow> P' s) \<Longrightarrow> (\<And>x s. Q' x s \<Longrightarrow> Q x s) \<Longrightarrow> completes P m Q"
  unfolding completes_def by blast

lemma completes_pure: "(C \<Longrightarrow> completes P m Q) \<Longrightarrow> completes (\<lambda>s. C \<and> P s) m Q"
  unfolding completes_def by blast

lemma and_then_return: "and_then (return_ok x) f = f x"
  by (simp add: and_then_def return_ok_def)

lemma completes_reads:
  "(\<And>s. P s \<Longrightarrow> f s = x) \<Longrightarrow> completes P (g x) Q \<Longrightarrow> completes P (and_then (reads f) g) Q"
  by (simp add: completes_def and_then_def reads_def)

lemma keeps_triple: "keeps P m \<longleftrightarrow> triple P m (\<lambda>_. P) (\<lambda>_. P)"
  unfolding keeps_def triple_def by (metis (no_types, lifting) old.sum.simps(5) old.sum.simps(6) prod.collapse snd_conv sum.exhaust_sel)

lemma tripleD_ok: "triple P m Q R \<Longrightarrow> P s \<Longrightarrow> m s = (Inr x, t) \<Longrightarrow> Q x t"
  by (force simp: triple_def)

lemma tripleD_err: "triple P m Q R \<Longrightarrow> P s \<Longrightarrow> m s = (Inl e, t) \<Longrightarrow> R e t"
  by (force simp: triple_def)

lemma keepsD: "keeps P m \<Longrightarrow> P s \<Longrightarrow> m s = (r, t) \<Longrightarrow> P t"
  unfolding keeps_def by (metis snd_conv)

lemma triple_weaken:
  "triple P' m Q' R' \<Longrightarrow> (\<And>s. P s \<Longrightarrow> P' s) \<Longrightarrow> (\<And>x s. Q' x s \<Longrightarrow> Q x s) \<Longrightarrow>
   (\<And>e s. R' e s \<Longrightarrow> R e s) \<Longrightarrow> triple P m Q R"
  by (fastforce simp: triple_def split: prod.splits sum.splits)

text \<open>A frame that the action keeps.\<close>

lemma triple_frame:
  assumes "triple P m Q R" and "keeps K m"
  shows "triple (\<lambda>s. P s \<and> K s) m (\<lambda>x s. Q x s \<and> K s) (\<lambda>e s. R e s \<and> K s)"
  unfolding triple_def
proof (intro allI impI)
  fix s r t assume "P s \<and> K s" and run: "m s = (r, t)"
  with assms keepsD [OF assms(2)] show "case r of Inl e \<Rightarrow> R e t \<and> K t | Inr x \<Rightarrow> Q x t \<and> K t"
    by (fastforce simp: triple_def split: sum.splits)
qed

lemma triple_return_ok [safe]: "(\<And>s. P s \<Longrightarrow> Q x s) \<Longrightarrow> triple P (return_ok x) Q R"
  by (simp add: triple_def return_ok_def)

lemma triple_return_err [safe]: "(\<And>s. P s \<Longrightarrow> R e s) \<Longrightarrow> triple P (return_err e) Q R"
  by (simp add: triple_def return_err_def)

lemma triple_and_then:
  "triple P m B R \<Longrightarrow> (\<And>x. triple (B x) (f x) Q R) \<Longrightarrow> triple P (and_then m f) Q R"
  by (fastforce simp: triple_def and_then_def split: prod.splits sum.splits)

lemma triple_try:
  "triple P m (\<lambda>x. Q (Inr x)) (\<lambda>e s. if aborts e then R e s else Q (Inl e) s) \<Longrightarrow>
   triple P (try_result m) Q R"
  unfolding triple_def try_result_def
  by (intro allI impI) (fastforce split: prod.splits sum.splits if_splits)

lemma triple_if:
  "(c \<Longrightarrow> triple P m Q R) \<Longrightarrow> (\<not> c \<Longrightarrow> triple P n Q R) \<Longrightarrow> triple P (if c then m else n) Q R"
  by simp

lemma keeps_return_ok [safe]: "keeps P (return_ok x)"
  by (simp add: keeps_def return_ok_def)

lemma keeps_return_err [safe]: "keeps P (return_err e)"
  by (simp add: keeps_def return_err_def)

lemma keeps_reads [safe]: "keeps P (reads f)"
  by (simp add: keeps_def reads_def)

lemma keeps_lift_sum [safe]: "keeps P (lift_sum r)"
  by (simp add: keeps_def lift_sum_def)

lemma keeps_conj: "keeps P m \<Longrightarrow> keeps Q m \<Longrightarrow> keeps (\<lambda>s. P s \<and> Q s) m"
  by (simp add: keeps_def)

lemma keeps_writes [safe]: "(\<And>s. P s \<Longrightarrow> P (f s)) \<Longrightarrow> keeps P (writes f)"
  by (simp add: keeps_def writes_def)

lemma keeps_and_then [safe]: "keeps P m \<Longrightarrow> (\<And>x. keeps P (f x)) \<Longrightarrow> keeps P (and_then m f)"
  by (fastforce simp: keeps_def and_then_def split: prod.splits sum.splits)

lemma keeps_lift_then:
  "(\<And>x. r = Inr x \<Longrightarrow> keeps P (f x)) \<Longrightarrow> keeps P (and_then (lift_sum r) f)"
  by (auto simp: keeps_def and_then_def lift_sum_def split: sum.splits)

lemma keeps_try [safe]: "keeps P m \<Longrightarrow> keeps P (try_result m)"
  by (fastforce simp: keeps_def try_result_def split: prod.splits sum.splits)

lemma keeps_if [safe]:
  "(c \<Longrightarrow> keeps P m) \<Longrightarrow> (\<not> c \<Longrightarrow> keeps P n) \<Longrightarrow> keeps P (if c then m else n)"
  by simp

lemma keeps_case_option [safe]:
  "(x = None \<Longrightarrow> keeps P m) \<Longrightarrow> (\<And>y. x = Some y \<Longrightarrow> keeps P (f y)) \<Longrightarrow>
   keeps P (case x of None \<Rightarrow> m | Some y \<Rightarrow> f y)"
  by (cases x) auto

lemma keeps_case_sum [safe]:
  "(\<And>e. x = Inl e \<Longrightarrow> keeps P (g e)) \<Longrightarrow> (\<And>y. x = Inr y \<Longrightarrow> keeps P (f y)) \<Longrightarrow>
   keeps P (case x of Inl e \<Rightarrow> g e | Inr y \<Rightarrow> f y)"
  by (cases x) auto

lemma keeps_case_prod [safe]:
  "(\<And>a b. p = (a, b) \<Longrightarrow> keeps P (f a b)) \<Longrightarrow> keeps P (case p of (a, b) \<Rightarrow> f a b)"
  by (cases p) auto

lemma keeps_let [safe]: "keeps P (f x) \<Longrightarrow> keeps P (let y = x in f y)"
  by simp

lemma keeps_for_each [safe]:
  "(\<And>x. x \<in> set xs \<Longrightarrow> keeps P (f x)) \<Longrightarrow> keeps P (for_each xs f)"
  by (induction xs) (auto intro!: safe)

text \<open>What is known of a returned value, whatever the state.\<close>

definition returns :: "('s, 'a) action \<Rightarrow> ('a \<Rightarrow> bool) \<Rightarrow> bool" where
  "returns m Q \<longleftrightarrow> (\<forall>s x t. m s = (Inr x, t) \<longrightarrow> Q x)"

lemma returnsD: "returns m Q \<Longrightarrow> m s = (Inr x, t) \<Longrightarrow> Q x"
  by (auto simp: returns_def)

lemma returns_and_then:
  "returns m P \<Longrightarrow> (\<And>x. P x \<Longrightarrow> returns (f x) Q) \<Longrightarrow> returns (and_then m f) Q"
  by (fastforce simp: returns_def and_then_def split: prod.splits sum.splits)

lemma returns_return_ok: "Q x \<Longrightarrow> returns (return_ok x) Q"
  by (simp add: returns_def return_ok_def)

lemma returns_return_err: "returns (return_err e) Q"
  by (simp add: returns_def return_err_def)

lemma returns_lift_sum: "(\<And>x. r = Inr x \<Longrightarrow> Q x) \<Longrightarrow> returns (lift_sum r) Q"
  by (simp add: returns_def lift_sum_def)

lemma returns_if:
  "(c \<Longrightarrow> returns m Q) \<Longrightarrow> (\<not> c \<Longrightarrow> returns n Q) \<Longrightarrow> returns (if c then m else n) Q"
  by simp

lemma returns_any: "returns m (\<lambda>_. True)"
  by (simp add: returns_def)

lemma triple_returns: "keeps P m \<Longrightarrow> returns m Z \<Longrightarrow> triple P m (\<lambda>x s. P s \<and> Z x) (\<lambda>_. P)"
  by (auto simp: triple_def keeps_def returns_def split: sum.split)

lemma and_then_ok:
  "and_then m f s = (Inr y, u) \<longleftrightarrow> (\<exists>x t. m s = (Inr x, t) \<and> f x t = (Inr y, u))"
  by (auto simp: and_then_def split: prod.splits sum.splits)

lemma and_then_err:
  "and_then m f s = (Inl e, u) \<longleftrightarrow> m s = (Inl e, u) \<or> (\<exists>x t. m s = (Inr x, t) \<and> f x t = (Inl e, u))"
  by (auto simp: and_then_def split: prod.splits sum.splits)

lemma try_result_ok:
  "try_result m s = (Inr x, u) \<longleftrightarrow> (\<exists>y. x = Inr y \<and> m s = (Inr y, u)) \<or>
     (\<exists>e. x = Inl e \<and> \<not> aborts e \<and> m s = (Inl e, u))"
  by (auto simp: try_result_def split: prod.splits sum.splits)

lemma case_sum_run:
  "(case r of Inl e \<Rightarrow> a e | Inr x \<Rightarrow> b x) s = y \<longleftrightarrow>
     (\<exists>e. r = Inl e \<and> a e s = y) \<or> (\<exists>x. r = Inr x \<and> b x s = y)"
  by (cases r) auto

lemma lift_then_ok:
  "and_then (lift_sum r) f s = (Inr y, u) \<longleftrightarrow> (\<exists>x. r = Inr x \<and> f x s = (Inr y, u))"
  by (auto simp: and_then_ok lift_sum_def)

section \<open>Go maps\<close>

text \<open>
  A Go map is an association list in the order in which Go happens to iterate; a missing key reads as
  the zero value.
\<close>

definition map_default :: "'v \<Rightarrow> ('k \<times> 'v) list \<Rightarrow> 'k \<Rightarrow> 'v" where
  "map_default z m k = (case map_of m k of None \<Rightarrow> z | Some v \<Rightarrow> v)"

section \<open>SQL on a table held as a list of rows\<close>

text \<open>\<open>UPDATE t SET u WHERE g\<close>, and the number of rows it matched.\<close>

definition update_where :: "('r \<Rightarrow> bool) \<Rightarrow> ('r \<Rightarrow> 'r) \<Rightarrow> 'r list \<Rightarrow> 'r list" where
  "update_where g u rows = map (\<lambda>r. if g r then u r else r) rows"

definition rows_affected :: "('r \<Rightarrow> bool) \<Rightarrow> 'r list \<Rightarrow> nat" where
  "rows_affected g rows = length (filter g rows)"

lemma rows_affected_0: "rows_affected g rows = 0 \<longleftrightarrow> (\<forall>r \<in> set rows. \<not> g r)"
  by (auto simp: rows_affected_def filter_empty_conv)

lemma length_update_where [simp]: "length (update_where g u rows) = length rows"
  by (simp add: update_where_def)

lemma set_update_where: "set (update_where g u rows) = (\<lambda>r. if g r then u r else r) ` set rows"
  by (simp add: update_where_def)

lemma map_update_where:
  "(\<And>r. g r \<Longrightarrow> f (u r) = f r) \<Longrightarrow> map f (update_where g u rows) = map f rows"
  by (simp add: update_where_def)

lemma filter_update_where:
  "(\<And>r. g r \<Longrightarrow> p (u r) = p r) \<Longrightarrow>
   filter p (update_where g u rows) = update_where g u (filter p rows)"
  unfolding update_where_def by (induction rows) auto

lemma update_where_none: "\<forall>r \<in> set rows. \<not> g r \<Longrightarrow> update_where g u rows = rows"
  by (simp add: update_where_def map_idI)

lemma find_update_where:
  "(\<And>r. g r \<Longrightarrow> p (u r) = p r) \<Longrightarrow>
   find p (update_where g u rows) = map_option (\<lambda>r. if g r then u r else r) (find p rows)"
  unfolding update_where_def by (induction rows) auto

text \<open>Distinct keys: at most one row has a given key.\<close>

lemma distinct_key_eq:
  "distinct (map k rows) \<Longrightarrow> r \<in> set rows \<Longrightarrow> s \<in> set rows \<Longrightarrow> k r = k s \<Longrightarrow> r = s"
  by (induction rows) (auto simp: image_iff)

lemma find_key_mem:
  "distinct (map k rows) \<Longrightarrow> find (\<lambda>r. k r = i) rows = Some r \<longleftrightarrow> r \<in> set rows \<and> k r = i"
  by (induction rows) auto

section \<open>Go conversions\<close>

text \<open>An increment below a bound does not wrap.\<close>

lemma word_increment:
  fixes x y :: "'a::len word"
  assumes "x < y"
  shows "x < x + 1 \<and> x + 1 \<le> y"
  using assms by uint_arith

text \<open>
  \<open>sql.NullX{X: v, Valid: ok}\<close> stores SQL NULL unless \<open>Valid\<close> is set.
\<close>

definition sql_null :: "bool \<Rightarrow> 'a \<Rightarrow> 'a option" where
  "sql_null valid v = (if valid then Some v else None)"

text \<open>\<open>nullString.String\<close> is the zero value when the column was NULL.\<close>

definition null_string :: "string option \<Rightarrow> string" where
  "null_string s = (case s of None \<Rightarrow> [] | Some v \<Rightarrow> v)"

text \<open>
  Instants are nanoseconds since the Unix epoch, UTC. \<open>time.Duration(x) * time.Second\<close> on a
  \<open>uint64\<close> configuration value wraps at 64 bits and is read as signed.
\<close>

definition go_seconds :: "64 word \<Rightarrow> int" where
  "go_seconds x = sint (x * 1000000000)"

lemma go_seconds_exact:
  assumes "uint x \<le> 9223372036"
  shows "go_seconds x = uint x * 1000000000"
proof -
  have "uint (x * 1000000000) = take_bit 64 (uint x * 1000000000)"
    by (simp add: uint_word_ariths(3) take_bit_eq_mod)
  then have "sint (x * 1000000000) = signed_take_bit 63 (uint x * 1000000000)"
    by (simp add: sint_uint signed_take_bit_take_bit)
  also have "\<dots> = uint x * 1000000000"
    using assms uint_ge_0 [of x]
    by (intro signed_take_bit_int_eq_self) (auto intro: order_trans [of _ 0])
  finally show ?thesis by (simp add: go_seconds_def)
qed

end
