(* ===== verification/Go_Text.thy ===== *)
theory Go_Text
  imports Wallet_Prelude
begin

text \<open>
  Go's strings as byte lists, the functions of package \<open>strings\<close> the program calls, decimal
  numbers, \<open>models/big_int.go\<close> and \<open>utils/ether.go\<close>. Case folding and white space are those of
  ASCII: the program folds hexadecimal addresses, hashes and network names, and trims only to ask
  whether something is empty.
\<close>

section \<open>Package strings\<close>

definition ascii :: "char \<Rightarrow> nat" where
  "ascii c = of_char c"

definition is_space :: "char \<Rightarrow> bool" where
  "is_space c \<longleftrightarrow> ascii c \<in> {9, 10, 11, 12, 13, 32}"

definition TrimSpace :: "string \<Rightarrow> string" where
  "TrimSpace s = rev (dropWhile is_space (rev (dropWhile is_space s)))"

definition lower_char :: "char \<Rightarrow> char" where
  "lower_char c = (if 65 \<le> ascii c \<and> ascii c \<le> 90 then char_of (ascii c + 32) else c)"

definition ToLower :: "string \<Rightarrow> string" where
  "ToLower s = map lower_char s"

definition EqualFold :: "string \<Rightarrow> string \<Rightarrow> bool" where
  "EqualFold s t \<longleftrightarrow> ToLower s = ToLower t"

fun HasPrefix :: "string \<Rightarrow> string \<Rightarrow> bool" where
  "HasPrefix s [] = True"
| "HasPrefix [] (p # ps) = False"
| "HasPrefix (c # cs) (p # ps) = (c = p \<and> HasPrefix cs ps)"

definition TrimPrefix :: "string \<Rightarrow> string \<Rightarrow> string" where
  "TrimPrefix s p = (if HasPrefix s p then drop (length p) s else s)"

fun Contains :: "string \<Rightarrow> string \<Rightarrow> bool" where
  "Contains [] p = (p = [])"
| "Contains (c # cs) p = (HasPrefix (c # cs) p \<or> Contains cs p)"

text \<open>\<open>strings.Trim(s, "\"")\<close>: quotation marks (byte 34) at both ends.\<close>

definition TrimQuotes :: "string \<Rightarrow> string" where
  "TrimQuotes s = rev (dropWhile (\<lambda>c. ascii c = 34) (rev (dropWhile (\<lambda>c. ascii c = 34) s)))"

lemma HasPrefix_iff: "HasPrefix s p \<longleftrightarrow> (\<exists>t. s = p @ t)"
  by (induction s p rule: HasPrefix.induct) auto

lemma lower_char_idem [simp]: "lower_char (lower_char c) = lower_char c"
proof (cases "65 \<le> ascii c \<and> ascii c \<le> 90")
  case True
  then have "ascii (char_of (ascii c + 32)) = ascii c + 32"
    by (simp add: ascii_def)
  with True show ?thesis by (simp add: lower_char_def)
next
  case False
  then have "lower_char c = c" by (simp only: lower_char_def if_False)
  then show ?thesis by simp
qed

lemma ToLower_idem [simp]: "ToLower (ToLower s) = ToLower s"
  by (simp add: ToLower_def)

lemma ToLower_Nil_iff [simp]: "ToLower s = [] \<longleftrightarrow> s = []"
  by (simp add: ToLower_def)

lemma length_ToLower [simp]: "length (ToLower s) = length s"
  by (simp add: ToLower_def)

lemma EqualFold_refl [simp]: "EqualFold s s"
  by (simp add: EqualFold_def)

lemma EqualFold_sym: "EqualFold s t \<Longrightarrow> EqualFold t s"
  by (simp add: EqualFold_def)

lemma EqualFold_trans: "EqualFold s t \<Longrightarrow> EqualFold t u \<Longrightarrow> EqualFold s u"
  by (simp add: EqualFold_def)

lemma EqualFold_ToLower [simp]: "EqualFold (ToLower s) s" "EqualFold s (ToLower s)"
  by (simp_all add: EqualFold_def)

section \<open>Decimal numbers\<close>

definition digit_char :: "nat \<Rightarrow> char" where
  "digit_char d = char_of (48 + d)"

definition digit_value :: "char \<Rightarrow> nat option" where
  "digit_value c = (if 48 \<le> ascii c \<and> ascii c \<le> 57 then Some (ascii c - 48) else None)"

text \<open>\<open>%d\<close> and \<open>big.Int.String\<close>.\<close>

fun show_nat :: "nat \<Rightarrow> string" where
  "show_nat n = (if n < 10 then [digit_char n] else show_nat (n div 10) @ [digit_char (n mod 10)])"

declare show_nat.simps [simp del]

definition show_int :: "int \<Rightarrow> string" where
  "show_int i = (if i < 0 then CHR ''-'' # show_nat (nat (- i)) else show_nat (nat i))"

fun parse_digits :: "nat \<Rightarrow> string \<Rightarrow> nat option" where
  "parse_digits acc [] = Some acc"
| "parse_digits acc (c # cs) =
     (case digit_value c of None \<Rightarrow> None | Some d \<Rightarrow> parse_digits (10 * acc + d) cs)"

definition parse_nat :: "string \<Rightarrow> nat option" where
  "parse_nat s = (if s = [] then None else parse_digits 0 s)"

text \<open>
  \<open>new(big.Int).SetString(s, 10)\<close>: an optional sign and at least one decimal digit, nothing else.
\<close>

definition parse_big :: "string \<Rightarrow> int option" where
  "parse_big s =
     (case s of
        [] \<Rightarrow> None
      | c # cs \<Rightarrow>
          if c = CHR ''-'' then map_option (\<lambda>n. - int n) (parse_nat cs)
          else if c = CHR ''+'' then map_option int (parse_nat cs)
          else map_option int (parse_nat s))"

lemma ascii_digit_char: "d < 10 \<Longrightarrow> ascii (digit_char d) = 48 + d"
  by (simp add: ascii_def digit_char_def)

lemma digit_value_digit_char [simp]: "d < 10 \<Longrightarrow> digit_value (digit_char d) = Some d"
  by (simp add: digit_value_def ascii_digit_char)

lemma parse_digits_append:
  "parse_digits acc (xs @ ys) = Option.bind (parse_digits acc xs) (\<lambda>a. parse_digits a ys)"
  by (induction acc xs rule: parse_digits.induct) (auto split: option.splits)

lemma show_nat_nonempty [simp]: "show_nat n \<noteq> []"
  by (subst show_nat.simps) simp

lemma parse_digits_show_nat: "parse_digits 0 (show_nat n) = Some n"
proof (induction n rule: show_nat.induct)
  case (1 n)
  then show ?case
    by (subst show_nat.simps) (simp add: parse_digits_append)
qed

lemma show_nat_digits: "\<forall>c \<in> set (show_nat n). 48 \<le> ascii c \<and> ascii c \<le> 57"
proof (induction n rule: show_nat.induct)
  case (1 n)
  then show ?case
    by (subst show_nat.simps) (auto simp: ascii_digit_char)
qed

lemma show_nat_no_sign: "CHR ''-'' \<notin> set (show_nat n)" "CHR ''+'' \<notin> set (show_nat n)"
  using show_nat_digits [of n] by (auto simp: ascii_def)

lemma parse_big_show_int [simp]: "parse_big (show_int i) = Some i"
proof (cases "i < 0")
  case True
  then show ?thesis
    by (simp add: show_int_def parse_big_def parse_nat_def parse_digits_show_nat)
next
  case False
  obtain c cs where "show_nat (nat i) = c # cs"
    by (cases "show_nat (nat i)") auto
  with False parse_digits_show_nat [of "nat i"] show_nat_no_sign [of "nat i"] show ?thesis
    by (auto simp: show_int_def parse_big_def parse_nat_def)
qed

lemma show_int_inject: "show_int i = show_int j \<longleftrightarrow> i = j"
  by (metis parse_big_show_int option.inject)

lemma show_nat_inject: "show_nat m = show_nat n \<longleftrightarrow> m = n"
  by (metis parse_digits_show_nat option.inject)

lemma show_int_no_space: "CHR '' '' \<notin> set (show_int i)"
proof -
  have "CHR '' '' \<notin> set (show_nat n)" for n
    using show_nat_digits [of n] by (auto simp: ascii_def)
  then show ?thesis by (simp add: show_int_def)
qed

section \<open>models/big_int.go\<close>

text \<open>The dynamic types a database driver hands to \<open>Scan\<close>.\<close>

datatype driver_value = DriverString string | DriverBytes string | DriverNil | DriverOther

definition BigInt_Scan :: "int \<Rightarrow> driver_value \<Rightarrow> go_error + int" where
  "BigInt_Scan i val =
     (let scan = (\<lambda>intStr. case parse_big intStr of
          None \<Rightarrow> Inl (ErrorsNew (''Unable to parse BigInt string: '' @ intStr))
        | Some v \<Rightarrow> Inr v)
      in case val of
           DriverString v \<Rightarrow> scan v
         | DriverBytes v \<Rightarrow> scan v
         | DriverNil \<Rightarrow> Inr i
         | DriverOther \<Rightarrow> Inl (ErrorsNew ''Unable to convert BigInt value to string: ''))"

definition BigInt_Value :: "int \<Rightarrow> driver_value" where
  "BigInt_Value i = DriverString (show_int i)"

definition BigInt_MarshalText :: "int \<Rightarrow> string" where
  "BigInt_MarshalText i = [char_of (34::nat)] @ show_int i @ [char_of (34::nat)]"

definition BigInt_UnmarshalText :: "string \<Rightarrow> go_error + int" where
  "BigInt_UnmarshalText data =
     (let s = TrimQuotes data in
      case parse_big s of
        None \<Rightarrow> Inl (ErrorsNew (''not a valid big integer: '' @ s))
      | Some z \<Rightarrow> Inr z)"

definition BigInt_MarshalJSON :: "int \<Rightarrow> string" where
  "BigInt_MarshalJSON i = BigInt_MarshalText i"

definition BigInt_UnmarshalJSON :: "int \<Rightarrow> string \<Rightarrow> go_error + int" where
  "BigInt_UnmarshalJSON i data =
     (if data = ''null'' then Inr i else BigInt_UnmarshalText data)"

lemma show_int_no_quote: "\<forall>c \<in> set (show_int i). ascii c \<noteq> 34"
proof -
  have "\<forall>c \<in> set (show_nat n). ascii c \<noteq> 34" for n
    using show_nat_digits [of n] by fastforce
  moreover have "ascii (CHR ''-'') = 45"
    by (simp add: ascii_def)
  ultimately show ?thesis
    by (simp add: show_int_def)
qed

lemma dropWhile_none: "\<forall>x \<in> set xs. \<not> P x \<Longrightarrow> dropWhile P xs = xs"
  by (cases xs) auto

lemma TrimQuotes_quoted:
  assumes "\<forall>c \<in> set s. ascii c \<noteq> 34"
  shows "TrimQuotes ([char_of (34::nat)] @ s @ [char_of (34::nat)]) = s"
proof (cases s)
  case Nil
  then show ?thesis by (simp add: TrimQuotes_def ascii_def)
next
  case (Cons c cs)
  with assms have "dropWhile (\<lambda>c. ascii c = 34) (rev s) = rev s"
    by (intro dropWhile_none) auto
  with Cons assms show ?thesis
    by (simp add: TrimQuotes_def ascii_def)
qed

lemma BigInt_text_roundtrip: "BigInt_UnmarshalText (BigInt_MarshalText i) = Inr i"
  using TrimQuotes_quoted [OF show_int_no_quote, of i]
  by (simp only: BigInt_UnmarshalText_def BigInt_MarshalText_def Let_def parse_big_show_int option.case)

text \<open>
  C40: an amount survives every way the program stores or transports it: as a database value, read back
  as text or as bytes, and as JSON text; and two amounts with the same stored text are equal.
\<close>
theorem BigInt_roundtrip:
  "BigInt_Scan old (BigInt_Value i) = Inr i \<and> BigInt_Scan old (DriverBytes (show_int i)) = Inr i \<and>
   BigInt_UnmarshalText (BigInt_MarshalText i) = Inr i \<and>
   BigInt_UnmarshalJSON old (BigInt_MarshalJSON i) = Inr i \<and>
   (BigInt_Value i = BigInt_Value j \<longleftrightarrow> i = j)"
proof -
  have "BigInt_MarshalJSON i \<noteq> ''null''"
    by (simp add: BigInt_MarshalJSON_def BigInt_MarshalText_def char_of_def)
  then show ?thesis
    using BigInt_text_roundtrip
    by (simp add: BigInt_Scan_def BigInt_Value_def BigInt_UnmarshalJSON_def BigInt_MarshalJSON_def show_int_inject)
qed

section \<open>utils/ether.go\<close>

text \<open>\<open>params.Ether\<close> is \<open>1e18\<close>.\<close>

definition EtherToWei :: "int \<Rightarrow> int" where
  "EtherToWei ether = ether * 1000000000000000000"

end
