(* ===== verification/Ethereum.thy ===== *)
theory Ethereum
  imports Go_Text
begin

text \<open>
  The parts of go-ethereum, of the Go standard library's cryptography and of the remote nodes
  that the program calls. They are outside the repository, so they are parameters: a record
  \<open>ethlib\<close> of functions, and the types their results have. Addresses are 20 bytes and hashes 32
  bytes, kept as words; byte strings are lists of 8-bit words.
\<close>

type_synonym address = "160 word"
type_synonym hash = "256 word"
type_synonym bytes = "8 word list"
type_synonym privkey = nat
type_synonym pubkey = nat
type_synonym signed_tx = bytes

text \<open>\<open>types.DynamicFeeTx\<close>, as \<open>buildDynamicFeeTransaction\<close> fills it.\<close>

record dynamic_fee_tx =
  dft_ChainID :: int
  dft_Nonce :: "64 word"
  dft_GasTipCap :: int
  dft_GasFeeCap :: int
  dft_Gas :: "64 word"
  dft_To :: address
  dft_Value :: int
  dft_Data :: bytes

text \<open>\<open>ethereum.CallMsg\<close>, the fields the program sets.\<close>

record call_msg =
  msg_From :: address
  msg_To :: address
  msg_Value :: int
  msg_Data :: bytes

text \<open>\<open>types.Log\<close>, \<open>types.Receipt\<close> and \<open>types.Header\<close>: the fields the program reads.\<close>

record receipt_log =
  rl_Address :: address
  rl_Topics :: "hash list"
  rl_Data :: bytes

record receipt =
  rc_Status :: "64 word"
  rc_BlockNumber :: "int option"
  rc_GasUsed :: "64 word"
  rc_EffectiveGasPrice :: int
  rc_Logs :: "receipt_log list"

record header =
  hd_Number :: "int option"
  hd_Time :: "64 word"
  hd_BaseFee :: "int option"

text \<open>\<open>types.ReceiptStatusSuccessful\<close>.\<close>

definition ReceiptStatusSuccessful :: "64 word" where
  "ReceiptStatusSuccessful = 1"

record ethlib =
  eth_IsHexAddress :: "string \<Rightarrow> bool"
  eth_HexToAddress :: "string \<Rightarrow> address"
  eth_AddressHex :: "address \<Rightarrow> string"
  eth_HexToHash :: "string \<Rightarrow> hash"
  eth_HashHex :: "hash \<Rightarrow> string"
  eth_Decode :: "string \<Rightarrow> go_error + bytes"
  eth_Encode :: "bytes \<Rightarrow> string"
  eth_DecodeBig :: "string \<Rightarrow> go_error + int"
  eth_Keccak256 :: "string \<Rightarrow> bytes"
  eth_TransferTopic :: hash
  eth_Sha256Hex :: "string \<Rightarrow> string"
  eth_SigToPub :: "bytes \<Rightarrow> bytes \<Rightarrow> go_error + pubkey"
  eth_PubkeyToAddress :: "pubkey \<Rightarrow> address"
  eth_Sign :: "bytes \<Rightarrow> privkey \<Rightarrow> go_error + bytes"
  eth_HexToECDSA :: "string \<Rightarrow> go_error + privkey"
  eth_Public :: "privkey \<Rightarrow> pubkey"
  eth_SignTx :: "dynamic_fee_tx \<Rightarrow> int \<Rightarrow> privkey \<Rightarrow> go_error + signed_tx"
  eth_TxHash :: "signed_tx \<Rightarrow> hash"
  eth_MarshalBinary :: "signed_tx \<Rightarrow> go_error + bytes"
  eth_UnmarshalBinary :: "bytes \<Rightarrow> go_error + signed_tx"
  eth_PackTransfer :: "address \<Rightarrow> int \<Rightarrow> go_error + bytes"
  eth_TransferMethodID :: bytes
  eth_UnpackTransfer :: "bytes \<Rightarrow> go_error + (address \<times> int)"

text \<open>
  \<open>common.BytesToHash(address.Bytes())\<close> pads on the left, \<open>common.BytesToAddress\<close> keeps the
  last 20 bytes, \<open>new(big.Int).SetBytes\<close> reads big-endian.
\<close>

definition address_to_hash :: "address \<Rightarrow> hash" where
  "address_to_hash a = ucast a"

definition hash_to_address :: "hash \<Rightarrow> address" where
  "hash_to_address h = ucast h"

fun big_endian :: "int \<Rightarrow> bytes \<Rightarrow> int" where
  "big_endian acc [] = acc"
| "big_endian acc (b # bs) = big_endian (256 * acc + uint b) bs"

definition SetBytes :: "bytes \<Rightarrow> int" where
  "SetBytes bs = big_endian 0 bs"

lemma hash_to_address_to_hash [simp]: "hash_to_address (address_to_hash a) = a"
  by (simp add: hash_to_address_def address_to_hash_def ucast_down_ucast_id is_down)

lemma big_endian_bounds:
  "0 \<le> acc \<Longrightarrow> 0 \<le> big_endian acc bs \<and> big_endian acc bs < (acc + 1) * 256 ^ length bs"
proof (induction acc bs rule: big_endian.induct)
  case (1 acc)
  then show ?case by simp
next
  case (2 acc b bs)
  have b: "0 \<le> uint b" "uint b < 256"
    using uint_bounded [of b] by simp_all
  with "2.prems" have "0 \<le> 256 * acc + uint b" by simp
  then have ih: "0 \<le> big_endian (256 * acc + uint b) bs"
    "big_endian (256 * acc + uint b) bs < (256 * acc + uint b + 1) * 256 ^ length bs"
    using "2.IH" by simp_all
  have "(256 * acc + uint b + 1) * 256 ^ length bs \<le> (256 * acc + 256) * 256 ^ length bs"
    using b by (intro mult_right_mono) simp_all
  also have "\<dots> = (acc + 1) * 256 ^ length (b # bs)"
    by (simp add: algebra_simps)
  finally have "big_endian (256 * acc + uint b) bs < (acc + 1) * 256 ^ length (b # bs)"
    using ih(2) by linarith
  with ih(1) show ?case by simp
qed

lemma SetBytes_nonneg: "0 \<le> SetBytes bs"
  using big_endian_bounds [of 0 bs] by (simp add: SetBytes_def)

end
