(* ===== verification/Wallet_Tables.thy ===== *)
theory Wallet_Tables
  imports Ethereum
begin

text \<open>
  Package \<open>models\<close>: the rows of the database tables and the database itself. A table is the list of
  its rows in the order of their primary keys, which the database hands out increasingly. SQL NULL
  is \<open>None\<close>. \<open>gorm.Model\<close> contributes the key, the creation time where the code reads it, and the
  soft-delete mark where the code or a migration looks at it; no operation of the program deletes a
  row. Amounts (\<open>models.BigInt\<close>) are unbounded integers.
\<close>

section \<open>models/blockchain\_transaction.go\<close>

datatype tx_status =
    TransactionStatusPending
  | TransactionStatusSent
  | TransactionStatusConfirmed
  | TransactionStatusFailed
  | TransactionStatusSending
  | TransactionStatusCancelled
  | TransactionStatusBroadcasting

text \<open>The \<open>iota\<close> values stored in the \<open>status\<close> column.\<close>

fun tx_status_code :: "tx_status \<Rightarrow> nat" where
  "tx_status_code TransactionStatusPending = 0"
| "tx_status_code TransactionStatusSent = 1"
| "tx_status_code TransactionStatusConfirmed = 2"
| "tx_status_code TransactionStatusFailed = 3"
| "tx_status_code TransactionStatusSending = 4"
| "tx_status_code TransactionStatusCancelled = 5"
| "tx_status_code TransactionStatusBroadcasting = 6"

definition TransactionReceiptDelayedMessage :: string where
  "TransactionReceiptDelayedMessage = ''Transaction receipt delayed''"

definition TransactionTimedOutMessage :: string where
  "TransactionTimedOutMessage = ''Transaction timed out''"

record btx =
  tx_ID :: nat
  tx_Network :: string
  tx_Type :: string
  tx_Status :: tx_status
  tx_FromAddress :: string
  tx_ToAddress :: string
  tx_Value :: string
  tx_Data :: "string option"
  tx_TxHash :: "string option"
  tx_BlockNumber :: "int option"
  tx_Nonce :: "int option"
  tx_GasUsed :: "int option"
  tx_EffectiveGasPrice :: "string option"
  tx_StatusMessage :: "string option"
  tx_RetryCount :: "8 word"
  tx_MaxRetries :: "8 word"
  tx_RetryTransactionID :: "nat option"
  tx_NextRetryAt :: "int option"
  tx_SentAt :: "int option"
  tx_ConfirmedAt :: "int option"
  tx_FailedAt :: "int option"
  tx_CancellationRequestedAt :: "int option"
  tx_SignedRawTx :: "string option"

section \<open>models/withdraw.go\<close>

datatype withdraw_status =
    WithdrawStatusPending
  | WithdrawStatusSuccess
  | WithdrawStatusFailed
  | WithdrawStatusFinished
  | WithdrawStatusFinishedRejected

record withdraw_record =
  wr_ID :: nat
  wr_CreatedAt :: int
  wr_RemoteID :: nat
  wr_Address :: string
  wr_BenefitAddress :: string
  wr_Amount :: int
  wr_WithdrawalFee :: int
  wr_Network :: string
  wr_Status :: withdraw_status
  wr_BlockchainTransactionID :: "nat option"
  wr_Timestamp :: "int option"
  wr_Signature :: "string option"
  wr_AuthorizationFingerprint :: "string option"

text \<open>
  The unique indexes: remote identifiers are unique in the table, and fingerprints that are not NULL.
\<close>

definition conflicts :: "withdraw_record \<Rightarrow> withdraw_record \<Rightarrow> bool" where
  "conflicts r q \<longleftrightarrow> wr_RemoteID r = wr_RemoteID q \<or>
     wr_AuthorizationFingerprint r \<noteq> None \<and> wr_AuthorizationFingerprint r = wr_AuthorizationFingerprint q"

section \<open>models/relay\_account.go, models/deposit\_record.go, models/vesting.go, models/checkpoint.go\<close>

record relay_account =
  ra_ID :: nat
  ra_Address :: string
  ra_Balance :: int

record deposit_record =
  dr_Network :: string
  dr_TxHash :: string
  dr_DepositAddress :: string
  dr_FromAddress :: string
  dr_Amount :: int
  dr_RelayAccountEventID :: nat

datatype vesting_status =
    VestingStatusActive
  | VestingStatusCompleted
  | VestingStatusDeprecated

record vesting_record =
  vr_ID :: nat
  vr_DeletedAt :: "int option"
  vr_RelayVestingID :: nat
  vr_Address :: string
  vr_TotalAmount :: int
  vr_ReleasedAmount :: int
  vr_StartTime :: int
  vr_DurationDays :: nat
  vr_Type :: string
  vr_AdminSignature :: string
  vr_Status :: vesting_status

record task_fee_checkpoint =
  tc_LatestTaskFeeLogID :: nat
  tc_LatestTaskFeeLogTimestamp :: "64 word"

record withdrawal_request_checkpoint =
  wc_LatestWithdrawalRequestID :: nat
  wc_LatestWithdrawalRequestTimestamp :: "64 word"

section \<open>The database\<close>

text \<open>
  The two checkpoint tables hold at most one row: \<open>First\<close> reads it, \<open>Save\<close> writes it back under the
  key it was read with, or inserts it when it was not there.
\<close>

record db =
  db_transactions :: "btx list"
  db_next_transaction_id :: nat
  db_withdraw_records :: "withdraw_record list"
  db_next_withdraw_record_id :: nat
  db_relay_accounts :: "relay_account list"
  db_next_relay_account_id :: nat
  db_deposit_records :: "deposit_record list"
  db_vesting_records :: "vesting_record list"
  db_next_vesting_record_id :: nat
  db_task_fee_checkpoint :: "task_fee_checkpoint option"
  db_withdrawal_request_checkpoint :: "withdrawal_request_checkpoint option"

definition empty_db :: db where
  "empty_db = \<lparr>db_transactions = [], db_next_transaction_id = 1,
     db_withdraw_records = [], db_next_withdraw_record_id = 1,
     db_relay_accounts = [], db_next_relay_account_id = 1,
     db_deposit_records = [], db_vesting_records = [], db_next_vesting_record_id = 1,
     db_task_fee_checkpoint = None, db_withdrawal_request_checkpoint = None\<rparr>"

definition update_transactions :: "(btx \<Rightarrow> bool) \<Rightarrow> (btx \<Rightarrow> btx) \<Rightarrow> db \<Rightarrow> db" where
  "update_transactions g u d = d\<lparr>db_transactions := update_where g u (db_transactions d)\<rparr>"

lemma db_transactions_update_transactions [simp]:
  "db_transactions (update_transactions g u d) = update_where g u (db_transactions d)"
  by (simp add: update_transactions_def)

lemma update_transactions_other_tables [simp]:
  "db_next_transaction_id (update_transactions g u d) = db_next_transaction_id d"
  "db_withdraw_records (update_transactions g u d) = db_withdraw_records d"
  "db_relay_accounts (update_transactions g u d) = db_relay_accounts d"
  "db_next_relay_account_id (update_transactions g u d) = db_next_relay_account_id d"
  "db_next_withdraw_record_id (update_transactions g u d) = db_next_withdraw_record_id d"
  by (simp_all add: update_transactions_def)

text \<open>Insert a transaction row: the database assigns the key.\<close>

definition insert_transaction :: "btx \<Rightarrow> db \<Rightarrow> db" where
  "insert_transaction r d =
     d\<lparr>db_transactions := db_transactions d @ [r\<lparr>tx_ID := db_next_transaction_id d\<rparr>],
       db_next_transaction_id := Suc (db_next_transaction_id d)\<rparr>"

lemma insert_transaction_tables [simp]:
  "db_transactions (insert_transaction r d) =
     db_transactions d @ [r\<lparr>tx_ID := db_next_transaction_id d\<rparr>]"
  "db_next_transaction_id (insert_transaction r d) = Suc (db_next_transaction_id d)"
  "db_withdraw_records (insert_transaction r d) = db_withdraw_records d"
  "db_relay_accounts (insert_transaction r d) = db_relay_accounts d"
  by (simp_all add: insert_transaction_def)

definition update_records :: "(withdraw_record \<Rightarrow> bool) \<Rightarrow> (withdraw_record \<Rightarrow> withdraw_record) \<Rightarrow> db \<Rightarrow> db" where
  "update_records g u d = d\<lparr>db_withdraw_records := update_where g u (db_withdraw_records d)\<rparr>"

lemma update_records_tables [simp]:
  "db_withdraw_records (update_records g u d) = update_where g u (db_withdraw_records d)"
  "db_transactions (update_records g u d) = db_transactions d"
  "db_next_transaction_id (update_records g u d) = db_next_transaction_id d"
  "db_relay_accounts (update_records g u d) = db_relay_accounts d"
  "db_deposit_records (update_records g u d) = db_deposit_records d"
  "db_vesting_records (update_records g u d) = db_vesting_records d"
  "db_next_vesting_record_id (update_records g u d) = db_next_vesting_record_id d"
  "db_task_fee_checkpoint (update_records g u d) = db_task_fee_checkpoint d"
  by (simp_all add: update_records_def)

end
