(* ===== verification/Tx_Rows.thy ===== *)
theory Tx_Rows
  imports Wallet_Tables
begin

text \<open>
  The rows of \<open>blockchain_transactions\<close>: the conditional updates (\<open>UPDATE ... WHERE\<close>) that
  \<open>models/blockchain_transaction.go\<close> issues, each as a guard and a change of one row, the
  classification of a retry chain, and the invariant of the table. The locale \<open>row_update\<close> is the
  contract every conditional update meets; it is interpreted for each of them.
\<close>

section \<open>Classification of rows and chains\<close>

definition RootTransactionID :: "btx \<Rightarrow> nat" where
  "RootTransactionID tx =
     (case tx_RetryTransactionID tx of Some root \<Rightarrow> root | None \<Rightarrow> tx_ID tx)"

definition IsReceiptTimeoutFailure :: "btx \<Rightarrow> bool" where
  "IsReceiptTimeoutFailure tx \<longleftrightarrow>
     tx_Status tx = TransactionStatusFailed \<and>
     tx_StatusMessage tx = Some TransactionTimedOutMessage"

definition HasCommittedBroadcast :: "btx \<Rightarrow> bool" where
  "HasCommittedBroadcast tx \<longleftrightarrow>
     tx_TxHash tx \<noteq> None \<or> tx_SignedRawTx tx \<noteq> None \<or>
     tx_Status tx = TransactionStatusBroadcasting \<or> tx_Status tx = TransactionStatusSent"

definition IsProvenUnbroadcastedCancellation :: "btx \<Rightarrow> bool" where
  "IsProvenUnbroadcastedCancellation tx \<longleftrightarrow>
     tx_Status tx = TransactionStatusCancelled \<and> \<not> HasCommittedBroadcast tx"

definition IsProvenOnChainFailure :: "btx \<Rightarrow> bool" where
  "IsProvenOnChainFailure tx \<longleftrightarrow>
     tx_Status tx = TransactionStatusFailed \<and> tx_TxHash tx \<noteq> None \<and>
     (case tx_BlockNumber tx of None \<Rightarrow> False | Some n \<Rightarrow> n > 0) \<and>
     \<not> IsReceiptTimeoutFailure tx"

definition IsProvenTerminalFailure :: "btx \<Rightarrow> bool" where
  "IsProvenTerminalFailure tx \<longleftrightarrow>
     IsProvenUnbroadcastedCancellation tx \<or> IsProvenOnChainFailure tx"

definition IsBlockingUncertainty :: "btx \<Rightarrow> bool" where
  "IsBlockingUncertainty tx =
     (if IsProvenTerminalFailure tx \<or> tx_Status tx = TransactionStatusConfirmed then False
      else if tx_Status tx = TransactionStatusPending \<or> tx_Status tx = TransactionStatusSending
      then False
      else True)"

record chain_outcome =
  co_ConfirmedCount :: nat
  co_Blocking :: "btx option"
  co_AllProvenFail :: bool

text \<open>The loop of \<open>ClassifyTransactionChain\<close>, one row at a time.\<close>

definition classify_row :: "chain_outcome \<Rightarrow> btx \<Rightarrow> chain_outcome" where
  "classify_row outcome tx =
     (if tx_Status tx = TransactionStatusConfirmed then
        outcome\<lparr>co_ConfirmedCount := Suc (co_ConfirmedCount outcome), co_AllProvenFail := False\<rparr>
      else if IsProvenTerminalFailure tx then outcome
      else
        (let outcome = outcome\<lparr>co_AllProvenFail := False\<rparr> in
         if IsBlockingUncertainty tx \<or> tx_Status tx = TransactionStatusPending \<or>
            tx_Status tx = TransactionStatusSending
         then (case co_Blocking outcome of
                 None \<Rightarrow> outcome\<lparr>co_Blocking := Some tx\<rparr>
               | Some _ \<Rightarrow> outcome)
         else outcome))"

definition ClassifyTransactionChain :: "btx list \<Rightarrow> chain_outcome" where
  "ClassifyTransactionChain transactions =
     foldl classify_row
       \<lparr>co_ConfirmedCount = 0, co_Blocking = None, co_AllProvenFail = True\<rparr> transactions"

text \<open>The rows of a chain: the root and the rows that name it, in key order.\<close>

definition retry_rows :: "nat \<Rightarrow> btx list \<Rightarrow> btx list" where
  "retry_rows root rows = filter (\<lambda>r. tx_RetryTransactionID r = Some root) rows"

definition chain_rows :: "nat \<Rightarrow> btx list \<Rightarrow> btx list option" where
  "chain_rows root rows =
     map_option (\<lambda>r. r # retry_rows root rows) (find (\<lambda>r. tx_ID r = root) rows)"

subsection \<open>What the classification computes\<close>

lemma classify_fold:
  "foldl classify_row o0 rows =
     \<lparr>co_ConfirmedCount = co_ConfirmedCount o0
        + length (filter (\<lambda>r. tx_Status r = TransactionStatusConfirmed) rows),
      co_Blocking = (case co_Blocking o0 of
          Some b \<Rightarrow> Some b
        | None \<Rightarrow> find (\<lambda>r. tx_Status r \<noteq> TransactionStatusConfirmed \<and>
                              \<not> IsProvenTerminalFailure r) rows),
      co_AllProvenFail = (co_AllProvenFail o0 \<and>
        (\<forall>r \<in> set rows. tx_Status r \<noteq> TransactionStatusConfirmed \<and> IsProvenTerminalFailure r))\<rparr>"
proof (induction rows arbitrary: o0)
  case Nil
  then show ?case by (simp split: option.splits)
next
  case (Cons r rows)
  have b: "IsBlockingUncertainty r \<or> tx_Status r = TransactionStatusPending \<or>
      tx_Status r = TransactionStatusSending"
    if "tx_Status r \<noteq> TransactionStatusConfirmed" "\<not> IsProvenTerminalFailure r"
    using that by (auto simp: IsBlockingUncertainty_def)
  show ?case
    unfolding foldl_Cons Cons.IH
    using b by (cases o0) (auto simp: classify_row_def Let_def split: option.splits)
qed

lemma ClassifyTransactionChain_eq:
  "co_ConfirmedCount (ClassifyTransactionChain rows) =
     length (filter (\<lambda>r. tx_Status r = TransactionStatusConfirmed) rows)"
  "co_Blocking (ClassifyTransactionChain rows) =
     find (\<lambda>r. tx_Status r \<noteq> TransactionStatusConfirmed \<and> \<not> IsProvenTerminalFailure r) rows"
  "co_AllProvenFail (ClassifyTransactionChain rows) \<longleftrightarrow>
     (\<forall>r \<in> set rows. IsProvenTerminalFailure r)"
  by (auto simp: ClassifyTransactionChain_def classify_fold IsProvenTerminalFailure_def
      IsProvenUnbroadcastedCancellation_def IsProvenOnChainFailure_def)

section \<open>The state machine of a row\<close>

text \<open>
  The transitions of the \<open>status\<close> column. A status that stays is listed where an update annotates
  a row without moving it (a cancellation request, the delayed-receipt message).
\<close>

inductive tx_step :: "tx_status \<Rightarrow> tx_status \<Rightarrow> bool" where
  claim: "tx_step TransactionStatusPending TransactionStatusSending"
| release: "tx_step TransactionStatusSending TransactionStatusPending"
| release_cancelled: "tx_step TransactionStatusSending TransactionStatusCancelled"
| prepare: "tx_step TransactionStatusSending TransactionStatusBroadcasting"
| cancel: "tx_step TransactionStatusPending TransactionStatusCancelled"
| sent: "tx_step TransactionStatusBroadcasting TransactionStatusSent"
| confirmed: "tx_step TransactionStatusSent TransactionStatusConfirmed"
| failed: "tx_step TransactionStatusSent TransactionStatusFailed"
| annotate_pending: "tx_step TransactionStatusPending TransactionStatusPending"
| annotate_sending: "tx_step TransactionStatusSending TransactionStatusSending"
| annotate_sent: "tx_step TransactionStatusSent TransactionStatusSent"

inductive_simps tx_step_from_confirmed [simp]: "tx_step TransactionStatusConfirmed s"
inductive_simps tx_step_from_failed [simp]: "tx_step TransactionStatusFailed s"
inductive_simps tx_step_from_cancelled [simp]: "tx_step TransactionStatusCancelled s"
inductive_simps tx_step_from_broadcasting: "tx_step TransactionStatusBroadcasting s"
inductive_simps tx_step_from_sent: "tx_step TransactionStatusSent s"

definition terminal :: "btx \<Rightarrow> bool" where
  "terminal r \<longleftrightarrow> tx_Status r \<in>
     {TransactionStatusConfirmed, TransactionStatusFailed, TransactionStatusCancelled}"

text \<open>
  What a row promises in each status: broadcast evidence (hash, nonce, signed payload) from
  \<open>broadcasting\<close> on, none before it or after a cancellation; a cancelled row was asked to be; a
  row settled by a receipt records the block.
\<close>

definition no_evidence :: "btx \<Rightarrow> bool" where
  "no_evidence r \<longleftrightarrow> tx_TxHash r = None \<and> tx_SignedRawTx r = None"

definition evidence :: "btx \<Rightarrow> bool" where
  "evidence r \<longleftrightarrow> tx_TxHash r \<noteq> None \<and> tx_SignedRawTx r \<noteq> None \<and> tx_Nonce r \<noteq> None"

fun row_ok_status :: "tx_status \<Rightarrow> btx \<Rightarrow> bool" where
  "row_ok_status TransactionStatusPending r = no_evidence r"
| "row_ok_status TransactionStatusSending r = no_evidence r"
| "row_ok_status TransactionStatusCancelled r =
     (no_evidence r \<and> tx_CancellationRequestedAt r \<noteq> None)"
| "row_ok_status TransactionStatusBroadcasting r =
     (evidence r \<and> tx_CancellationRequestedAt r = None)"
| "row_ok_status TransactionStatusSent r = (evidence r \<and> tx_CancellationRequestedAt r = None)"
| "row_ok_status TransactionStatusConfirmed r =
     (evidence r \<and> tx_CancellationRequestedAt r = None \<and> tx_BlockNumber r \<noteq> None)"
| "row_ok_status TransactionStatusFailed r =
     (evidence r \<and> tx_CancellationRequestedAt r = None \<and> tx_BlockNumber r \<noteq> None)"

definition row_ok :: "btx \<Rightarrow> bool" where
  "row_ok r \<longleftrightarrow> row_ok_status (tx_Status r) r"

text \<open>What a transaction pays, and what links it to its chain: fixed when the row is inserted.\<close>

definition payment :: "btx \<Rightarrow> string \<times> string \<times> string \<times> string \<times> string \<times> string option \<times> 8 word" where
  "payment r = (tx_Network r, tx_Type r, tx_FromAddress r, tx_ToAddress r, tx_Value r, tx_Data r,
     tx_MaxRetries r)"

definition identity :: "btx \<Rightarrow> nat \<times> 8 word \<times> nat option" where
  "identity r = (tx_ID r, tx_RetryCount r, tx_RetryTransactionID r)"

section \<open>The conditional updates\<close>

text \<open>Rows without broadcast evidence: the condition five of the updates share.\<close>

definition unbroadcasted :: "nat \<Rightarrow> btx \<Rightarrow> bool" where
  "unbroadcasted i r \<longleftrightarrow> tx_ID r = i \<and> tx_TxHash r = None \<and> tx_SignedRawTx r = None"

definition claim_guard :: "nat \<Rightarrow> btx \<Rightarrow> bool" where
  "claim_guard i r \<longleftrightarrow> unbroadcasted i r \<and> tx_Status r = TransactionStatusPending \<and>
     tx_CancellationRequestedAt r = None"

definition claim_set :: "btx \<Rightarrow> btx" where
  "claim_set r = r\<lparr>tx_Status := TransactionStatusSending\<rparr>"

definition release_guard :: "nat \<Rightarrow> btx \<Rightarrow> bool" where
  "release_guard i r \<longleftrightarrow> unbroadcasted i r \<and> tx_Status r = TransactionStatusSending"

definition release_set :: "int \<Rightarrow> string \<Rightarrow> btx \<Rightarrow> btx" where
  "release_set now errorMsg r =
     (if tx_CancellationRequestedAt r = None
      then r\<lparr>tx_Status := TransactionStatusPending,
             tx_StatusMessage := (if errorMsg \<noteq> [] then Some errorMsg else tx_StatusMessage r)\<rparr>
      else r\<lparr>tx_Status := TransactionStatusCancelled, tx_FailedAt := Some now\<rparr>)"

definition prepare_guard :: "nat \<Rightarrow> btx \<Rightarrow> bool" where
  "prepare_guard i r \<longleftrightarrow> unbroadcasted i r \<and> tx_Status r = TransactionStatusSending \<and>
     tx_CancellationRequestedAt r = None"

definition prepare_set :: "string \<Rightarrow> int \<Rightarrow> string \<Rightarrow> btx \<Rightarrow> btx" where
  "prepare_set txHash nonce signedRawTx r =
     r\<lparr>tx_Status := TransactionStatusBroadcasting, tx_TxHash := Some txHash,
       tx_Nonce := Some nonce, tx_SignedRawTx := Some signedRawTx\<rparr>"

definition request_cancellation_guard :: "nat \<Rightarrow> btx \<Rightarrow> bool" where
  "request_cancellation_guard i r \<longleftrightarrow> unbroadcasted i r \<and>
     tx_Status r \<in> {TransactionStatusPending, TransactionStatusSending} \<and>
     tx_CancellationRequestedAt r = None"

definition request_cancellation_set :: "int \<Rightarrow> string \<Rightarrow> btx \<Rightarrow> btx" where
  "request_cancellation_set requestedAt reason r =
     r\<lparr>tx_CancellationRequestedAt := Some requestedAt, tx_StatusMessage := Some reason\<rparr>"

definition cancel_guard :: "nat \<Rightarrow> btx \<Rightarrow> bool" where
  "cancel_guard i r \<longleftrightarrow> unbroadcasted i r \<and> tx_Status r = TransactionStatusPending \<and>
     tx_CancellationRequestedAt r \<noteq> None"

definition cancel_set :: "int \<Rightarrow> btx \<Rightarrow> btx" where
  "cancel_set now r = r\<lparr>tx_Status := TransactionStatusCancelled, tx_FailedAt := Some now\<rparr>"

definition mark_sent_guard :: "nat \<Rightarrow> btx \<Rightarrow> bool" where
  "mark_sent_guard i r \<longleftrightarrow> tx_ID r = i \<and> tx_Status r = TransactionStatusBroadcasting \<and>
     tx_TxHash r \<noteq> None \<and> tx_SignedRawTx r \<noteq> None"

definition mark_sent_set :: "int \<Rightarrow> btx \<Rightarrow> btx" where
  "mark_sent_set sentAt r = r\<lparr>tx_Status := TransactionStatusSent, tx_SentAt := Some sentAt\<rparr>"

definition mark_confirmed_guard :: "nat \<Rightarrow> btx \<Rightarrow> bool" where
  "mark_confirmed_guard i r \<longleftrightarrow> tx_ID r = i \<and> tx_Status r = TransactionStatusSent"

definition mark_confirmed_set :: "int \<Rightarrow> int \<Rightarrow> int \<Rightarrow> string \<Rightarrow> btx \<Rightarrow> btx" where
  "mark_confirmed_set confirmedAt blockNumber gasUsed effectiveGasPrice r =
     r\<lparr>tx_Status := TransactionStatusConfirmed, tx_ConfirmedAt := Some confirmedAt,
       tx_BlockNumber := Some blockNumber, tx_GasUsed := Some gasUsed,
       tx_EffectiveGasPrice := Some effectiveGasPrice\<rparr>"

definition mark_failed_guard :: "nat \<Rightarrow> btx \<Rightarrow> bool" where
  "mark_failed_guard i r \<longleftrightarrow> tx_ID r = i \<and> tx_Status r = TransactionStatusSent \<and>
     tx_TxHash r \<noteq> None"

definition mark_failed_set :: "int \<Rightarrow> int \<Rightarrow> int \<Rightarrow> string \<Rightarrow> string \<Rightarrow> btx \<Rightarrow> btx" where
  "mark_failed_set failedAt blockNumber gasUsed effectiveGasPrice errorMsg r =
     r\<lparr>tx_Status := TransactionStatusFailed, tx_FailedAt := Some failedAt,
       tx_BlockNumber := Some blockNumber, tx_GasUsed := Some gasUsed,
       tx_EffectiveGasPrice := Some effectiveGasPrice, tx_StatusMessage := Some errorMsg\<rparr>"

text \<open>SQL: \<open>status_message IS NULL OR status_message <> ?\<close>.\<close>

definition mark_delayed_guard :: "nat \<Rightarrow> btx \<Rightarrow> bool" where
  "mark_delayed_guard i r \<longleftrightarrow> tx_ID r = i \<and> tx_Status r = TransactionStatusSent \<and>
     tx_StatusMessage r \<noteq> Some TransactionReceiptDelayedMessage"

definition mark_delayed_set :: "btx \<Rightarrow> btx" where
  "mark_delayed_set r = r\<lparr>tx_StatusMessage := Some TransactionReceiptDelayedMessage\<rparr>"

text \<open>The two updates of \<open>RecoverLegacySendingTransactions\<close>.\<close>

definition recover_pending_guard :: "btx \<Rightarrow> bool" where
  "recover_pending_guard r \<longleftrightarrow> tx_Status r = TransactionStatusSending \<and> tx_TxHash r = None \<and>
     tx_SignedRawTx r = None \<and> tx_CancellationRequestedAt r = None"

definition recover_pending_set :: "btx \<Rightarrow> btx" where
  "recover_pending_set r = r\<lparr>tx_Status := TransactionStatusPending\<rparr>"

definition recover_cancelled_guard :: "btx \<Rightarrow> bool" where
  "recover_cancelled_guard r \<longleftrightarrow> tx_Status r = TransactionStatusSending \<and> tx_TxHash r = None \<and>
     tx_SignedRawTx r = None \<and> tx_CancellationRequestedAt r \<noteq> None"

definition recover_cancelled_set :: "int \<Rightarrow> btx \<Rightarrow> btx" where
  "recover_cancelled_set now r =
     r\<lparr>tx_Status := TransactionStatusCancelled, tx_FailedAt := Some now\<rparr>"

lemmas row_guard_defs = unbroadcasted_def claim_guard_def release_guard_def prepare_guard_def
  request_cancellation_guard_def cancel_guard_def mark_sent_guard_def mark_confirmed_guard_def
  mark_failed_guard_def mark_delayed_guard_def recover_pending_guard_def
  recover_cancelled_guard_def

lemmas row_set_defs = claim_set_def release_set_def prepare_set_def request_cancellation_set_def
  cancel_set_def mark_sent_set_def mark_confirmed_set_def mark_failed_set_def
  mark_delayed_set_def recover_pending_set_def recover_cancelled_set_def

lemmas row_ok_defs = row_ok_def no_evidence_def evidence_def

end
