(* ===== verification/Tx_Invariant.thy ===== *)
theory Tx_Invariant
  imports Tx_Rows
begin

text \<open>
  The invariant of \<open>blockchain_transactions\<close> and the order in which the table grows. The locale
  \<open>row_update\<close> states what a conditional update may do to a row; each update of
  \<open>models/blockchain_transaction.go\<close> is an interpretation, so each of them keeps the invariant and
  only extends the table. Inserting a root and settling a failure with its retry are the two
  insertions.
\<close>

section \<open>The invariant\<close>

definition ids_ok :: "db \<Rightarrow> bool" where
  "ids_ok d \<longleftrightarrow> sorted_wrt (<) (map tx_ID (db_transactions d)) \<and>
     (\<forall>r \<in> set (db_transactions d). 0 < tx_ID r \<and> tx_ID r < db_next_transaction_id d)"

text \<open>A retry names an earlier root, and pays exactly what the root pays.\<close>

definition roots_ok :: "db \<Rightarrow> bool" where
  "roots_ok d \<longleftrightarrow> (\<forall>r \<in> set (db_transactions d). \<forall>k. tx_RetryTransactionID r = Some k \<longrightarrow>
     (\<exists>q \<in> set (db_transactions d). tx_ID q = k \<and> tx_RetryTransactionID q = None \<and>
        k < tx_ID r \<and> payment q = payment r))"

text \<open>
  In a chain only the newest row is open: every earlier one has failed on chain, and the retry
  counter grows along the chain.
\<close>

definition chains_ok :: "db \<Rightarrow> bool" where
  "chains_ok d \<longleftrightarrow> (\<forall>r \<in> set (db_transactions d). \<forall>s \<in> set (db_transactions d).
     RootTransactionID r = RootTransactionID s \<longrightarrow> tx_ID r < tx_ID s \<longrightarrow>
     tx_Status r = TransactionStatusFailed \<and> tx_RetryCount r < tx_RetryCount s)"

definition rows_ok :: "db \<Rightarrow> bool" where
  "rows_ok d \<longleftrightarrow> (\<forall>r \<in> set (db_transactions d). row_ok r \<and> tx_RetryCount r \<le> tx_MaxRetries r)"

definition txs_ok :: "db \<Rightarrow> bool" where
  "txs_ok d \<longleftrightarrow> ids_ok d \<and> roots_ok d \<and> chains_ok d \<and> rows_ok d"

lemma txs_ok_empty: "txs_ok empty_db"
  by (simp add: txs_ok_def ids_ok_def roots_ok_def chains_ok_def rows_ok_def empty_db_def)

lemma txs_ok_other_tables:
  "db_transactions d' = db_transactions d \<Longrightarrow>
   db_next_transaction_id d' = db_next_transaction_id d \<Longrightarrow> txs_ok d' = txs_ok d"
  by (simp add: txs_ok_def ids_ok_def roots_ok_def chains_ok_def rows_ok_def)

lemma ids_ok_distinct: "ids_ok d \<Longrightarrow> distinct (map tx_ID (db_transactions d))"
  by (auto simp: ids_ok_def strict_sorted_iff)

lemma same_row:
  "ids_ok d \<Longrightarrow> r \<in> set (db_transactions d) \<Longrightarrow> s \<in> set (db_transactions d) \<Longrightarrow>
   tx_ID r = tx_ID s \<Longrightarrow> r = s"
  by (rule distinct_key_eq [OF ids_ok_distinct])

text \<open>
  A row leaves \<open>pending\<close> for the chain only when every earlier attempt of its chain is proven to have
  failed there. This part of the invariant rests on the ancestor check of \<open>ClaimForSending\<close>.
\<close>

definition ancestors_proven :: "btx \<Rightarrow> btx list \<Rightarrow> bool" where
  "ancestors_proven r rows \<longleftrightarrow>
     (\<forall>s \<in> set rows. RootTransactionID s = RootTransactionID r \<longrightarrow> tx_ID s < tx_ID r \<longrightarrow>
        IsProvenOnChainFailure s)"

definition active :: "btx \<Rightarrow> bool" where
  "active r \<longleftrightarrow> tx_Status r \<noteq> TransactionStatusPending \<and> tx_Status r \<noteq> TransactionStatusCancelled"

definition ancestors_ok :: "db \<Rightarrow> bool" where
  "ancestors_ok d \<longleftrightarrow>
     (\<forall>r \<in> set (db_transactions d). active r \<longrightarrow> ancestors_proven r (db_transactions d))"

lemma ancestors_ok_other_tables:
  "db_transactions d' = db_transactions d \<Longrightarrow> ancestors_ok d' = ancestors_ok d"
  by (simp add: ancestors_ok_def)

section \<open>How the table grows\<close>

text \<open>
  A row only moves along \<open>tx_step\<close>; its payment, its link and its evidence never change once they
  are there; a settled row is frozen.
\<close>

definition row_le :: "btx \<Rightarrow> btx \<Rightarrow> bool" where
  "row_le r r' \<longleftrightarrow> identity r' = identity r \<and> payment r' = payment r \<and>
     tx_step\<^sup>*\<^sup>* (tx_Status r) (tx_Status r') \<and>
     (\<forall>h. tx_TxHash r = Some h \<longrightarrow> tx_TxHash r' = Some h) \<and>
     (\<forall>x. tx_SignedRawTx r = Some x \<longrightarrow> tx_SignedRawTx r' = Some x) \<and>
     (tx_CancellationRequestedAt r \<noteq> None \<longrightarrow> tx_CancellationRequestedAt r' \<noteq> None) \<and>
     (terminal r \<longrightarrow> r' = r)"

text \<open>A chain is settled when all its rows are; then it is complete.\<close>

definition in_chain :: "nat \<Rightarrow> db \<Rightarrow> btx \<Rightarrow> bool" where
  "in_chain k d r \<longleftrightarrow> r \<in> set (db_transactions d) \<and> RootTransactionID r = k"

definition settled :: "nat \<Rightarrow> db \<Rightarrow> bool" where
  "settled k d \<longleftrightarrow> (\<exists>r. in_chain k d r) \<and> (\<forall>r. in_chain k d r \<longrightarrow> terminal r)"

definition txs_le :: "db \<Rightarrow> db \<Rightarrow> bool" where
  "txs_le d d' \<longleftrightarrow> (\<forall>r \<in> set (db_transactions d). \<exists>r' \<in> set (db_transactions d'). row_le r r') \<and>
     (\<forall>k r. settled k d \<longrightarrow> in_chain k d' r \<longrightarrow> in_chain k d r) \<and>
     db_next_transaction_id d \<le> db_next_transaction_id d' \<and>
     (\<forall>r' \<in> set (db_transactions d'). tx_ID r' < db_next_transaction_id d \<longrightarrow>
        (\<exists>r \<in> set (db_transactions d). row_le r r'))"

lemma row_le_refl [simp, intro]: "row_le r r"
  by (simp add: row_le_def)

lemma row_le_trans: "row_le r s \<Longrightarrow> row_le s t \<Longrightarrow> row_le r t"
  unfolding row_le_def by (metis rtranclp_trans)

lemma row_leD:
  "row_le r r' \<Longrightarrow> tx_ID r' = tx_ID r" "row_le r r' \<Longrightarrow> RootTransactionID r' = RootTransactionID r"
  "row_le r r' \<Longrightarrow> terminal r \<Longrightarrow> r' = r"
  by (auto simp: row_le_def identity_def RootTransactionID_def split: option.splits)

lemma txs_le_refl [simp]: "txs_le d d"
  by (auto simp: txs_le_def)

lemma txs_leD:
  "txs_le d d' \<Longrightarrow> r \<in> set (db_transactions d) \<Longrightarrow> \<exists>r' \<in> set (db_transactions d'). row_le r r'"
  "txs_le d d' \<Longrightarrow> r' \<in> set (db_transactions d') \<Longrightarrow> tx_ID r' < db_next_transaction_id d \<Longrightarrow>
   \<exists>r \<in> set (db_transactions d). row_le r r'"
  by (auto simp: txs_le_def)

lemma txs_le_settled_chain:
  assumes "txs_le d d'" and "settled k d"
  shows "in_chain k d' r \<longleftrightarrow> in_chain k d r"
proof
  assume "in_chain k d' r"
  with assms show "in_chain k d r" unfolding txs_le_def by blast
next
  assume r: "in_chain k d r"
  with assms(1) obtain r' where "r' \<in> set (db_transactions d')" "row_le r r'"
    by (auto simp: txs_le_def in_chain_def)
  with r assms(2) show "in_chain k d' r"
    by (auto simp: settled_def in_chain_def dest: row_leD(3))
qed

lemma txs_le_settled: "txs_le d d' \<Longrightarrow> settled k d \<Longrightarrow> settled k d'"
  using txs_le_settled_chain by (simp add: settled_def)

lemma txs_le_trans:
  assumes "txs_le d e" and "txs_le e f"
  shows "txs_le d f"
  unfolding txs_le_def
proof (intro conjI ballI allI impI)
  fix r assume "r \<in> set (db_transactions d)"
  then obtain s where s: "s \<in> set (db_transactions e)" "row_le r s"
    using assms(1) by (auto simp: txs_le_def)
  then obtain t where "t \<in> set (db_transactions f)" "row_le s t"
    using assms(2) by (auto simp: txs_le_def)
  with s show "\<exists>r' \<in> set (db_transactions f). row_le r r'"
    by (blast intro: row_le_trans)
next
  fix k r assume "settled k d" and "in_chain k f r"
  with assms show "in_chain k d r"
    by (metis txs_le_settled_chain txs_le_settled)
next
  show next_le: "db_next_transaction_id d \<le> db_next_transaction_id f"
    using assms by (simp add: txs_le_def)
  fix t assume "t \<in> set (db_transactions f)" and t: "tx_ID t < db_next_transaction_id d"
  moreover have "db_next_transaction_id d \<le> db_next_transaction_id e"
    using assms(1) by (simp add: txs_le_def)
  ultimately obtain s where s: "s \<in> set (db_transactions e)" "row_le s t"
    using assms(2) unfolding txs_le_def by (meson less_le_trans)
  with t have "tx_ID s < db_next_transaction_id d" by (simp add: row_leD(1))
  with s(1) obtain r where "r \<in> set (db_transactions d)" "row_le r s"
    using assms(1) by (auto simp: txs_le_def)
  with s(2) show "\<exists>r \<in> set (db_transactions d). row_le r t"
    by (blast intro: row_le_trans)
qed

lemma txs_le_other_tables:
  "db_transactions d' = db_transactions d \<Longrightarrow>
   db_next_transaction_id d' = db_next_transaction_id d \<Longrightarrow> txs_le d d'"
  by (auto simp: txs_le_def in_chain_def)

section \<open>Conditional updates of one row\<close>

locale row_update =
  fixes guard :: "btx \<Rightarrow> bool" and change :: "btx \<Rightarrow> btx"
  assumes keeps_identity: "identity (change r) = identity r"
    and keeps_payment: "payment (change r) = payment r"
    and keeps_hash: "guard r \<Longrightarrow> tx_TxHash r = Some h \<Longrightarrow> tx_TxHash (change r) = Some h"
    and keeps_raw: "guard r \<Longrightarrow> tx_SignedRawTx r = Some x \<Longrightarrow> tx_SignedRawTx (change r) = Some x"
    and keeps_request: "guard r \<Longrightarrow> tx_CancellationRequestedAt r \<noteq> None \<Longrightarrow>
      tx_CancellationRequestedAt (change r) \<noteq> None"
    and moves_along: "guard r \<Longrightarrow> tx_step (tx_Status r) (tx_Status (change r))"
    and row_ok_change: "guard r \<Longrightarrow> row_ok r \<Longrightarrow> row_ok (change r)"
begin

definition step_row :: "btx \<Rightarrow> btx" where
  "step_row r = (if guard r then change r else r)"

lemma set_after: "set (db_transactions (update_transactions guard change d)) =
    step_row ` set (db_transactions d)"
  by (simp add: set_update_where step_row_def [abs_def])

lemma step_row_same [simp]:
  "tx_ID (step_row r) = tx_ID r" "tx_RetryTransactionID (step_row r) = tx_RetryTransactionID r"
  "tx_RetryCount (step_row r) = tx_RetryCount r" "payment (step_row r) = payment r"
  "identity (step_row r) = identity r" "RootTransactionID (step_row r) = RootTransactionID r"
  using keeps_identity [of r] keeps_payment [of r]
  by (auto simp: step_row_def identity_def RootTransactionID_def split: option.splits)

lemma terminal_frozen: "terminal r \<Longrightarrow> step_row r = r"
  using moves_along [of r] by (auto simp: step_row_def terminal_def)

lemma row_le_step_row: "row_le r (step_row r)"
  using terminal_frozen [of r] keeps_hash [of r] keeps_raw [of r] keeps_request [of r]
    moves_along [of r]
  by (auto simp: row_le_def) (auto simp: step_row_def)

lemma ids_ok_after: "ids_ok d \<Longrightarrow> ids_ok (update_transactions guard change d)"
  using keeps_identity by (auto simp: ids_ok_def map_update_where identity_def set_update_where)

lemma roots_ok_after: "roots_ok d \<Longrightarrow> roots_ok (update_transactions guard change d)"
  unfolding roots_ok_def set_after by simp

lemma chains_ok_after: "chains_ok d \<Longrightarrow> chains_ok (update_transactions guard change d)"
  unfolding chains_ok_def set_after by (auto simp: terminal_frozen terminal_def)

lemma rows_ok_after: "rows_ok d \<Longrightarrow> rows_ok (update_transactions guard change d)"
  unfolding rows_ok_def set_after
  using row_ok_change keeps_payment by (auto simp: step_row_def payment_def)
    (metis Pair_inject identity_def keeps_identity keeps_payment)+

lemma txs_ok_after: "txs_ok d \<Longrightarrow> txs_ok (update_transactions guard change d)"
  by (simp add: txs_ok_def ids_ok_after roots_ok_after chains_ok_after rows_ok_after)

lemma txs_le_after: "txs_le d (update_transactions guard change d)"
  unfolding txs_le_def in_chain_def settled_def set_after
  by (auto intro!: row_le_step_row simp: terminal_frozen)

lemma proven_frozen: "IsProvenOnChainFailure r \<Longrightarrow> step_row r = r"
  using terminal_frozen [of r] by (auto simp: IsProvenOnChainFailure_def terminal_def)

lemma ancestors_proven_after:
  "ancestors_proven r rows \<Longrightarrow> ancestors_proven (step_row r) (map step_row rows)"
  using proven_frozen by (fastforce simp: ancestors_proven_def)

lemma ancestors_ok_unless_claim:
  assumes "ancestors_ok d"
    and "\<And>r. r \<in> set (db_transactions d) \<Longrightarrow> guard r \<Longrightarrow>
      tx_Status r = TransactionStatusPending \<Longrightarrow> tx_Status (change r) = TransactionStatusSending \<Longrightarrow>
      ancestors_proven r (db_transactions d)"
  shows "ancestors_ok (update_transactions guard change d)"
  unfolding ancestors_ok_def set_after
proof (clarify)
  fix r assume r: "r \<in> set (db_transactions d)" and a: "active (step_row r)"
  have "active r \<or> ancestors_proven r (db_transactions d)"
  proof (cases "guard r \<and> \<not> active r")
    case True
    then have step: "tx_step (tx_Status r) (tx_Status (change r))" by (simp add: moves_along)
    with True a have "tx_Status r = TransactionStatusPending \<and>
        tx_Status (change r) = TransactionStatusSending"
      by (auto simp: active_def step_row_def elim: tx_step.cases)
    with True r assms(2) show ?thesis by blast
  next
    case False
    with a show ?thesis by (auto simp: step_row_def)
  qed
  with r assms(1) have "ancestors_proven r (db_transactions d)"
    by (auto simp: ancestors_ok_def)
  then show "ancestors_proven (step_row r) (db_transactions (update_transactions guard change d))"
    using ancestors_proven_after by (simp add: update_where_def step_row_def [abs_def])
qed

end

text \<open>Every update but the claim moves no row from \<open>pending\<close> to \<open>sending\<close>.\<close>

locale quiet_update = row_update +
  assumes no_claim: "guard r \<Longrightarrow> tx_Status r = TransactionStatusPending \<Longrightarrow>
    tx_Status (change r) \<noteq> TransactionStatusSending"
begin

lemma ancestors_ok_after: "ancestors_ok d \<Longrightarrow> ancestors_ok (update_transactions guard change d)"
  by (rule ancestors_ok_unless_claim) (auto dest: no_claim)

end

text \<open>Every conditional update of the repository is a \<open>row_update\<close>.\<close>

lemmas row_update_simps = row_guard_defs row_set_defs row_ok_defs identity_def payment_def

interpretation claim: row_update "claim_guard i" claim_set for i
  by unfold_locales (auto simp: row_update_simps intro: tx_step.intros)

interpretation release: quiet_update "release_guard i" "release_set now msg" for i now msg
  by unfold_locales (auto simp: row_update_simps intro: tx_step.intros)

interpretation prepare: quiet_update "prepare_guard i" "prepare_set h n x" for i h n x
  by unfold_locales (auto simp: row_update_simps intro: tx_step.intros)

interpretation request_cancellation:
  quiet_update "request_cancellation_guard i" "request_cancellation_set now msg" for i now msg
  by unfold_locales (auto simp: row_update_simps intro: tx_step.intros)

interpretation cancel: quiet_update "cancel_guard i" "cancel_set now" for i now
  by unfold_locales (auto simp: row_update_simps intro: tx_step.intros)

interpretation mark_sent: quiet_update "mark_sent_guard i" "mark_sent_set now" for i now
  by unfold_locales (auto simp: row_update_simps intro: tx_step.intros)

interpretation mark_confirmed:
  quiet_update "mark_confirmed_guard i" "mark_confirmed_set now b g p" for i now b g p
  by unfold_locales (auto simp: row_update_simps intro: tx_step.intros)

interpretation mark_failed:
  quiet_update "mark_failed_guard i" "mark_failed_set now b g p msg" for i now b g p msg
  by unfold_locales (auto simp: row_update_simps intro: tx_step.intros)

interpretation mark_delayed: quiet_update "mark_delayed_guard i" mark_delayed_set for i
  by unfold_locales (auto simp: row_update_simps intro: tx_step.intros)

interpretation recover_pending: quiet_update recover_pending_guard recover_pending_set
  by unfold_locales (auto simp: row_update_simps intro: tx_step.intros)

interpretation recover_cancelled:
  quiet_update recover_cancelled_guard "recover_cancelled_set now" for now
  by unfold_locales (auto simp: row_update_simps intro: tx_step.intros)

end
