(* ===== verification/Tx_Chain.thy ===== *)
theory Tx_Chain
  imports Tx_Invariant
begin

text \<open>
  Retry chains: inserting the root of a chain, settling a failed row together with the insertion of
  its retry, and what the table invariant says of a chain (at most one open row, at most one
  confirmed row, the length bound).
\<close>

section \<open>Inserting rows\<close>

text \<open>The row that \<open>CreateRetryTransaction\<close> builds. \<open>Valid\<close> is not set in \<open>NextRetryAt\<close>.\<close>

definition retry_transaction :: "int \<Rightarrow> btx \<Rightarrow> btx" where
  "retry_transaction nextRetryAt tx =
     \<lparr>tx_ID = 0, tx_Network = tx_Network tx, tx_Type = tx_Type tx,
      tx_Status = TransactionStatusPending,
      tx_FromAddress = tx_FromAddress tx, tx_ToAddress = tx_ToAddress tx,
      tx_Value = tx_Value tx, tx_Data = tx_Data tx, tx_TxHash = None, tx_BlockNumber = None,
      tx_Nonce = None, tx_GasUsed = None, tx_EffectiveGasPrice = None, tx_StatusMessage = None,
      tx_RetryCount = tx_RetryCount tx + 1, tx_MaxRetries = tx_MaxRetries tx,
      tx_RetryTransactionID =
        (case tx_RetryTransactionID tx of Some root \<Rightarrow> Some root | None \<Rightarrow> Some (tx_ID tx)),
      tx_NextRetryAt = sql_null False nextRetryAt,
      tx_SentAt = None, tx_ConfirmedAt = None, tx_FailedAt = None,
      tx_CancellationRequestedAt = None, tx_SignedRawTx = None\<rparr>"

definition fresh_row :: "btx \<Rightarrow> bool" where
  "fresh_row r \<longleftrightarrow> tx_Status r = TransactionStatusPending \<and> no_evidence r \<and>
     tx_RetryCount r \<le> tx_MaxRetries r"

lemma fresh_row_ok: "fresh_row r \<Longrightarrow> row_ok (r\<lparr>tx_ID := i\<rparr>)"
  by (simp add: fresh_row_def row_ok_def no_evidence_def)

lemma root_le_id: "roots_ok d \<Longrightarrow> r \<in> set (db_transactions d) \<Longrightarrow> RootTransactionID r \<le> tx_ID r"
  by (auto simp: roots_ok_def RootTransactionID_def split: option.splits) (metis less_imp_le)

lemma ids_ok_insert: "ids_ok d \<Longrightarrow> 0 < db_next_transaction_id d \<Longrightarrow> ids_ok (insert_transaction r d)"
  by (auto simp: ids_ok_def sorted_wrt_append less_Suc_eq)

lemma rows_ok_insert: "rows_ok d \<Longrightarrow> fresh_row r \<Longrightarrow> rows_ok (insert_transaction r d)"
  by (auto simp: rows_ok_def fresh_row_ok) (simp add: fresh_row_def)

definition db_started :: "db \<Rightarrow> bool" where
  "db_started d \<longleftrightarrow> 0 < db_next_transaction_id d"

lemma insert_root_ok:
  assumes ok: "txs_ok d" "db_started d" and r: "fresh_row r" "tx_RetryTransactionID r = None"
  shows "txs_ok (insert_transaction r d)"
proof -
  have root: "RootTransactionID s < db_next_transaction_id d" if "s \<in> set (db_transactions d)" for s
    using ok(1) that root_le_id [of d s] by (fastforce simp: txs_ok_def ids_ok_def)
  have "roots_ok (insert_transaction r d)"
    using ok(1) r(2) by (auto simp: txs_ok_def roots_ok_def)
  moreover have "chains_ok (insert_transaction r d)"
    using ok(1) r(2) root
    by (fastforce simp: txs_ok_def chains_ok_def ids_ok_def RootTransactionID_def [of "r\<lparr>tx_ID := _\<rparr>"])
  ultimately show ?thesis
    using ok r by (simp add: txs_ok_def ids_ok_insert rows_ok_insert db_started_def)
qed

lemma insert_root_le:
  assumes ok: "txs_ok d" and r: "tx_RetryTransactionID r = None"
  shows "txs_le d (insert_transaction r d)"
proof -
  have "RootTransactionID s < db_next_transaction_id d" if "s \<in> set (db_transactions d)" for s
    using ok that root_le_id [of d s] by (fastforce simp: txs_ok_def ids_ok_def)
  with r show ?thesis
    by (fastforce simp: txs_le_def in_chain_def settled_def RootTransactionID_def [of "r\<lparr>tx_ID := _\<rparr>"])
qed

section \<open>Settling a failure and creating its retry\<close>

lemma newest_row_if_open:
  assumes "txs_ok d" and "r \<in> set (db_transactions d)" and "tx_Status r \<noteq> TransactionStatusFailed"
    and "in_chain (RootTransactionID r) d s"
  shows "tx_ID s \<le> tx_ID r"
  using assms unfolding txs_ok_def chains_ok_def in_chain_def by (metis linorder_not_le)

lemma insert_retry_ok:
  assumes ok: "txs_ok d" and r: "r \<in> set (db_transactions d)"
    and failed: "tx_Status r = TransactionStatusFailed"
    and newest: "\<And>s. in_chain (RootTransactionID r) d s \<Longrightarrow> tx_ID s \<le> tx_ID r"
    and count: "tx_RetryCount r < tx_MaxRetries r"
    and mem: "identity m = identity r" "payment m = payment r"
  shows "txs_ok (insert_transaction (retry_transaction at m) d)"
proof -
  let ?q = "(retry_transaction at m)\<lparr>tx_ID := db_next_transaction_id d\<rparr>"
  have lt: "tx_ID s < db_next_transaction_id d" if "s \<in> set (db_transactions d)" for s
    using ok that by (simp add: txs_ok_def ids_ok_def)
  have q: "RootTransactionID ?q = RootTransactionID r" "tx_RetryCount ?q = tx_RetryCount r + 1"
    "payment ?q = payment r" "tx_RetryTransactionID ?q = Some (RootTransactionID r)"
    using mem by (auto simp: retry_transaction_def RootTransactionID_def identity_def payment_def
        split: option.splits)
  have wrap: "tx_RetryCount r < tx_RetryCount r + 1"
    using count by (simp add: word_increment)
  have "chains_ok (insert_transaction (retry_transaction at m) d)"
    unfolding chains_ok_def
  proof (intro ballI impI)
    fix a b
    assume ab: "a \<in> set (db_transactions (insert_transaction (retry_transaction at m) d))"
      "b \<in> set (db_transactions (insert_transaction (retry_transaction at m) d))"
      and same: "RootTransactionID a = RootTransactionID b" and less: "tx_ID a < tx_ID b"
    from ab less have a: "a \<in> set (db_transactions d)"
      using lt by (auto dest: lt)
    show "tx_Status a = TransactionStatusFailed \<and> tx_RetryCount a < tx_RetryCount b"
    proof (cases "b \<in> set (db_transactions d)")
      case True
      with ok a same less show ?thesis by (auto simp: txs_ok_def chains_ok_def)
    next
      case False
      with ab(2) have b: "b = ?q" by auto
      with same q(1) a have "in_chain (RootTransactionID r) d a"
        by (simp add: in_chain_def)
      then have "tx_ID a \<le> tx_ID r" by (rule newest)
      then consider "a = r" | "tx_ID a < tx_ID r"
        using ok a r same_row [of d a r] by (fastforce simp: txs_ok_def)
      then show ?thesis
      proof cases
        case 1
        with failed b q wrap show ?thesis by simp
      next
        case 2
        with ok a r same b q(1) have "tx_Status a = TransactionStatusFailed"
          "tx_RetryCount a < tx_RetryCount r"
          by (auto simp: txs_ok_def chains_ok_def)
        with b q(2) wrap show ?thesis by (metis less_trans)
      qed
    qed
  qed
  moreover have "roots_ok (insert_transaction (retry_transaction at m) d)"
  proof -
    have "\<exists>p \<in> set (db_transactions d). tx_ID p = RootTransactionID r \<and>
        tx_RetryTransactionID p = None \<and> payment p = payment r"
      using ok r by (cases "tx_RetryTransactionID r")
        (auto simp: txs_ok_def roots_ok_def RootTransactionID_def)
    with ok q(3,4) lt show ?thesis
      by (fastforce simp: txs_ok_def roots_ok_def)
  qed
  moreover have "fresh_row (retry_transaction at m)"
    using mem count by (auto simp: fresh_row_def retry_transaction_def no_evidence_def
        identity_def payment_def word_increment)
  moreover have "0 < db_next_transaction_id d"
    using lt [OF r] by simp
  ultimately show ?thesis
    using ok by (simp add: txs_ok_def ids_ok_insert rows_ok_insert)
qed

text \<open>
  The committed effect of settling a failed receipt: \<open>MarkFailedFromSent\<close> and, when it moved the row
  and retries are left, \<open>CreateRetryTransaction\<close>, in one database transaction.
\<close>

definition find_transaction :: "nat \<Rightarrow> db \<Rightarrow> btx option" where
  "find_transaction i d = find (\<lambda>r. tx_ID r = i) (db_transactions d)"

definition fail_with_retry ::
  "nat \<Rightarrow> int \<Rightarrow> int \<Rightarrow> int \<Rightarrow> string \<Rightarrow> string \<Rightarrow> int \<Rightarrow> db \<Rightarrow> db" where
  "fail_with_retry i now b g p msg at d =
     (case find_transaction i d of
        None \<Rightarrow> d
      | Some r \<Rightarrow>
          if mark_failed_guard i r then
            (let d' = update_transactions (mark_failed_guard i) (mark_failed_set now b g p msg) d in
             if tx_RetryCount r < tx_MaxRetries r then insert_transaction (retry_transaction at r) d'
             else d')
          else d)"

lemma find_transaction_Some:
  "ids_ok d \<Longrightarrow> find_transaction i d = Some r \<longleftrightarrow> r \<in> set (db_transactions d) \<and> tx_ID r = i"
  unfolding find_transaction_def by (rule find_key_mem [OF ids_ok_distinct])

lemma fail_with_retry_ok:
  assumes ok: "txs_ok d"
  shows "txs_ok (fail_with_retry i now b g p msg at d) \<and> txs_le d (fail_with_retry i now b g p msg at d)"
proof (cases "\<exists>r. find_transaction i d = Some r \<and> mark_failed_guard i r")
  case False
  with ok show ?thesis by (auto simp: fail_with_retry_def split: option.splits)
next
  case True
  then obtain r where f: "find_transaction i d = Some r" and g: "mark_failed_guard i r" by blast
  define d' where "d' = update_transactions (mark_failed_guard i) (mark_failed_set now b g p msg) d"
  have ids: "ids_ok d" using ok by (simp add: txs_ok_def)
  with f have r: "r \<in> set (db_transactions d)" "tx_ID r = i"
    by (simp_all add: find_transaction_Some)
  have ok': "txs_ok d'" and le': "txs_le d d'"
    unfolding d'_def using ok by (auto intro: mark_failed.txs_ok_after mark_failed.txs_le_after)
  let ?r' = "mark_failed_set now b g p msg r"
  have r': "?r' \<in> set (db_transactions d')"
    using r(1) g by (auto simp: d'_def set_update_where)
  have mem: "identity r = identity ?r'" "payment r = payment ?r'"
    by (simp_all add: mark_failed.keeps_identity mark_failed.keeps_payment)
  have failed: "tx_Status ?r' = TransactionStatusFailed" by (simp add: mark_failed_set_def)
  have open_r: "tx_Status r \<noteq> TransactionStatusFailed" "\<not> terminal r"
    using g by (auto simp: mark_failed_guard_def terminal_def)
  have root': "RootTransactionID ?r' = RootTransactionID r"
    by (simp add: mark_failed_set_def RootTransactionID_def split: option.split)
  have newest: "tx_ID s \<le> tx_ID ?r'" if "in_chain (RootTransactionID ?r') d' s" for s
  proof -
    from that obtain q where q: "q \<in> set (db_transactions d)"
      "s = mark_failed.step_row i now b g p msg q"
      unfolding in_chain_def d'_def mark_failed.set_after by auto
    with that have "in_chain (RootTransactionID r) d q" by (simp add: in_chain_def root')
    from newest_row_if_open [OF ok r(1) open_r(1) this] q(2) show ?thesis
      by (simp add: mark_failed_set_def)
  qed
  show ?thesis
  proof (cases "tx_RetryCount r < tx_MaxRetries r")
    case False
    with f g ok' le' show ?thesis by (simp add: fail_with_retry_def d'_def)
  next
    case True
    then have count: "tx_RetryCount ?r' < tx_MaxRetries ?r'" by (simp add: mark_failed_set_def)
    have eq: "fail_with_retry i now b g p msg at d = insert_transaction (retry_transaction at r) d'"
      using f g True by (simp add: fail_with_retry_def d'_def Let_def)
    have "txs_ok (insert_transaction (retry_transaction at r) d')"
      by (rule insert_retry_ok [OF ok' r' failed newest count mem])
    moreover have "txs_le d (insert_transaction (retry_transaction at r) d')"
    proof -
      have "RootTransactionID ((retry_transaction at r)\<lparr>tx_ID := n\<rparr>) = RootTransactionID r" for n
        by (auto simp: retry_transaction_def RootTransactionID_def split: option.splits)
      moreover have "\<not> settled (RootTransactionID r) d"
        using r(1) open_r(2) by (auto simp: settled_def in_chain_def)
      ultimately show ?thesis
        using le' unfolding txs_le_def in_chain_def by auto
    qed
    ultimately show ?thesis by (simp add: eq)
  qed
qed

lemma ancestors_ok_insert:
  assumes "ancestors_ok d" and "ids_ok d" and "tx_Status r = TransactionStatusPending"
  shows "ancestors_ok (insert_transaction r d)"
  using assms by (fastforce simp: ancestors_ok_def ancestors_proven_def active_def ids_ok_def)

lemma fail_with_retry_ancestors_ok:
  assumes "txs_ok d" and "ancestors_ok d"
  shows "ancestors_ok (fail_with_retry i now b g p msg at d)"
proof -
  let ?d = "update_transactions (mark_failed_guard i) (mark_failed_set now b g p msg) d"
  have "ancestors_ok ?d" "ids_ok ?d"
    using assms by (simp_all add: mark_failed.ancestors_ok_after mark_failed.ids_ok_after txs_ok_def)
  with assms show ?thesis
    by (auto simp: fail_with_retry_def Let_def retry_transaction_def intro!: ancestors_ok_insert
        split: option.split)
qed

section \<open>What the invariant says of a chain\<close>

lemma chain_rows_in_chain:
  assumes ok: "txs_ok d" and c: "chain_rows k (db_transactions d) = Some rows"
    and root: "\<And>q. find_transaction k d = Some q \<Longrightarrow> tx_RetryTransactionID q = None"
  shows "set rows = {r. in_chain k d r}"
proof -
  obtain q where q: "find_transaction k d = Some q" and rows: "rows = q # retry_rows k (db_transactions d)"
    using c by (auto simp: chain_rows_def find_transaction_def)
  have "ids_ok d" using ok by (simp add: txs_ok_def)
  with q have q': "q \<in> set (db_transactions d)" "tx_ID q = k" by (simp_all add: find_transaction_Some)
  have "in_chain k d r \<longleftrightarrow> r = q \<or> r \<in> set (retry_rows k (db_transactions d))" for r
    using q' root [OF q] same_row [OF \<open>ids_ok d\<close>, of r q]
    by (auto simp: in_chain_def retry_rows_def RootTransactionID_def split: option.splits)
  with rows show ?thesis by auto
qed

lemma one_open_row:
  assumes "txs_ok d" and "in_chain k d r" and "in_chain k d s"
    and "tx_Status r \<noteq> TransactionStatusFailed" and "tx_Status s \<noteq> TransactionStatusFailed"
  shows "r = s"
proof -
  have "\<not> tx_ID r < tx_ID s" "\<not> tx_ID s < tx_ID r"
    using assms by (auto simp: txs_ok_def chains_ok_def in_chain_def)
  then have "tx_ID r = tx_ID s" by simp
  with assms show ?thesis by (auto simp: txs_ok_def in_chain_def intro: same_row)
qed

end
