(* ===== verification/Wallet_Config.thy ===== *)
theory Wallet_Config
  imports Ethereum
begin

text \<open>
  Package \<open>config\<close>: the configuration structures of \<open>config/app_config.go\<close> and the start-up
  checks of \<open>config/config.go\<close>. Go iterates over the \<open>Blockchains\<close> map in no fixed order; here the
  map is an association list and its order is the order of that iteration. Reading and decoding
  the file (viper) is outside the repository and enters as the result of the decoding.
\<close>

section \<open>config/app\_config.go\<close>

definition EnvProduction :: string where "EnvProduction = ''production''"
definition EnvDebug :: string where "EnvDebug = ''debug''"
definition EnvTest :: string where "EnvTest = ''test''"
definition TokenTypeNative :: string where "TokenTypeNative = ''native''"
definition TokenTypeERC20 :: string where "TokenTypeERC20 = ''erc20''"

record account_config =
  acc_Address :: string
  acc_PrivateKey :: string
  acc_PrivateKeyFile :: string

record blockchain_config =
  bc_RPS :: "64 word"
  bc_RpcEndpoint :: string
  bc_TokenType :: string
  bc_TokenAddress :: string
  bc_GasLimit :: "64 word"
  bc_GasLimitBufferPercent :: "64 word"
  bc_MaxFeePerGas :: "64 word"
  bc_MaxPriorityFeePerGas :: "64 word"
  bc_ChainID :: "64 word"
  bc_Account :: account_config
  bc_Contracts_BenefitAddress :: string
  bc_MaxRetries :: "8 word"
  bc_RetryInterval :: "64 word"
  bc_ReceiptWaitTime :: "64 word"
  bc_ReceiptConfirmationBlocks :: "64 word"
  bc_SentTransactionCountLimit :: "64 word"
  bc_MaxWithdrawalsPerDay :: "64 word"

record relay_api_config =
  api_Host :: string
  api_PrivateKey :: string
  api_PrivateKeyFile :: string

record relay_config =
  rel_Api :: relay_api_config
  rel_DepositAddress :: string
  rel_WithdrawalFeeAddress :: string
  rel_VestingSignerAddress :: string

record sync_task_fee_logs_config =
  stf_IntervalSeconds :: "64 word"
  stf_BatchSize :: "64 word"
  stf_MaxTaskFeeAmount :: "64 word"
  stf_MaxAddressLogsCountInBatch :: "64 word"
  stf_MaxNewAddressCountInBatch :: "64 word"
  stf_DepositMaxAgeSeconds :: "64 word"

record sync_withdrawal_requests_config =
  swr_IntervalSeconds :: "64 word"
  swr_BatchSize :: "64 word"
  swr_MinWithdrawalAmount :: "64 word"

record process_withdrawal_requests_config =
  pwr_IntervalSeconds :: "64 word"
  pwr_BatchSize :: "64 word"
  pwr_Timeout :: "64 word"
  pwr_CancellationSettlementTimeoutSeconds :: "64 word"

record log_config =
  lc_Level :: string
  lc_Output :: string
  lc_MaxFileSize :: int
  lc_MaxDays :: int
  lc_MaxFileNum :: int

record app_config =
  cfg_Environment :: string
  cfg_DbDriver :: string
  cfg_DbConnectionString :: string
  cfg_DbLog :: log_config
  cfg_Log :: log_config
  cfg_HeartbeatLogFile :: string
  cfg_AlertLogFile :: string
  cfg_Blockchains :: "(string \<times> blockchain_config) list"
  cfg_Relay :: relay_config
  cfg_SyncTaskFeeLogs :: sync_task_fee_logs_config
  cfg_SyncWithdrawalRequests :: sync_withdrawal_requests_config
  cfg_ProcessWithdrawalRequests :: process_withdrawal_requests_config

text \<open>\<open>appConfig.Blockchains[network]\<close>.\<close>

definition blockchain_of :: "app_config \<Rightarrow> string \<Rightarrow> blockchain_config option" where
  "blockchain_of c network = map_of (cfg_Blockchains c) network"

section \<open>config/config.go\<close>

definition normalizePrivateKey :: "string \<Rightarrow> string" where
  "normalizePrivateKey privateKey =
     (let privateKey = TrimSpace privateKey in
      if HasPrefix privateKey ''0x'' \<or> HasPrefix privateKey ''0X'' then drop 2 privateKey
      else privateKey)"

definition GetTestPrivateKey :: string where
  "GetTestPrivateKey = ''''"

text \<open>The body of the loop of \<open>checkBlockchainAccount\<close>.\<close>

definition check_blockchain_entry :: "ethlib \<Rightarrow> string \<Rightarrow> blockchain_config \<Rightarrow> go_error + unit" where
  "check_blockchain_entry L network bc =
     bind_sum
       (if bc_TokenType bc = TokenTypeNative then
          (if bc_TokenAddress bc \<noteq> [] then
             Inl (ErrorsNew ''native blockchain token address must be empty'') else Inr ())
        else if bc_TokenType bc = TokenTypeERC20 then
          (if \<not> eth_IsHexAddress L (bc_TokenAddress bc) then
             Inl (ErrorsNew ''erc20 blockchain token address is invalid'') else Inr ())
        else Inl (ErrorsNew ''blockchain token type is invalid''))
     (\<lambda>_.
      if \<not> eth_IsHexAddress L (bc_Contracts_BenefitAddress bc) then
        Inl (ErrorsNew ''blockchain benefit address contract is invalid'')
      else if bc_GasLimitBufferPercent bc = 0 then
        Inl (ErrorsNew (''blockchain '' @ network @ '' gas limit buffer percent not set''))
      else if bc_MaxWithdrawalsPerDay bc = 0 then
        Inl (ErrorsNew (''blockchain '' @ network @ '' max withdrawals per day not set''))
      else if acc_PrivateKey (bc_Account bc) = [] then
        Inl (ErrorsNew ''blockchain account private key not set'')
      else if acc_Address (bc_Account bc) = [] then
        Inl (ErrorsNew ''blockchain account address not set'')
      else
        bind_sum (eth_HexToECDSA L (acc_PrivateKey (bc_Account bc))) (\<lambda>privateKey.
          if eth_AddressHex L (eth_PubkeyToAddress L (eth_Public L privateKey))
               \<noteq> acc_Address (bc_Account bc)
          then Inl (ErrorsNew ''account address and private key mismatch'')
          else Inr ()))"

fun checkBlockchainAccount ::
  "ethlib \<Rightarrow> (string \<times> blockchain_config) list \<Rightarrow> go_error + unit" where
  "checkBlockchainAccount L [] = Inr ()"
| "checkBlockchainAccount L ((network, bc) # rest) =
     bind_sum (check_blockchain_entry L network bc) (\<lambda>_. checkBlockchainAccount L rest)"

text \<open>
  The key files live in a file system \<open>string \<rightharpoonup> string\<close>; \<open>os.Remove\<close> may fail for the names in
  \<open>stuck\<close>.
\<close>

type_synonym files = "string \<rightharpoonup> string"

definition GetPrivateKey :: "string \<Rightarrow> (files, string) action" where
  "GetPrivateKey file =
     (if file = [] then return_err (ErrorsNew ''private key file not set'')
      else and_then (reads (\<lambda>fs. fs file)) (\<lambda>content.
        case content of
          None \<Rightarrow> return_err (Wrapped (''read private key file '' @ file @ '': '') (External ''read failed''))
        | Some b \<Rightarrow> return_ok (normalizePrivateKey b)))"

definition remove_file :: "string set \<Rightarrow> string \<Rightarrow> (files, unit) action" where
  "remove_file stuck file =
     and_then (reads (\<lambda>fs. fs file)) (\<lambda>content.
       if content = None \<or> file \<in> stuck then
         return_err (Wrapped (''remove private key file '' @ file @ '': '') (External ''remove failed''))
       else writes (\<lambda>fs. fs(file := None)))"

fun load_key_files :: "string set \<Rightarrow> string list \<Rightarrow> (string \<rightharpoonup> string) \<Rightarrow>
    (files, string \<rightharpoonup> string) action" where
  "load_key_files stuck [] keys = return_ok keys"
| "load_key_files stuck (file # rest) keys =
     and_then (GetPrivateKey file) (\<lambda>privateKey.
     and_then (remove_file stuck file) (\<lambda>_.
       load_key_files stuck rest (keys(file \<mapsto> privateKey))))"

definition loadPrivateKeysFromFiles ::
  "string set \<Rightarrow> app_config \<Rightarrow> (files, string \<rightharpoonup> string) action" where
  "loadPrivateKeysFromFiles stuck c =
     (case find (\<lambda>(network, bc). acc_PrivateKeyFile (bc_Account bc) = []) (cfg_Blockchains c) of
        Some (network, bc) \<Rightarrow>
          return_err (ErrorsNew (''blockchain '' @ network @ '' account private key file not set''))
      | None \<Rightarrow>
          (if api_PrivateKeyFile (rel_Api (cfg_Relay c)) = [] then
             return_err (ErrorsNew ''relay api private key file not set'')
           else
             load_key_files stuck
               (remdups (map (\<lambda>(network, bc). acc_PrivateKeyFile (bc_Account bc)) (cfg_Blockchains c)
                  @ [api_PrivateKeyFile (rel_Api (cfg_Relay c))]))
               Map.empty))"

text \<open>\<open>loadedKeys[file]\<close> is the empty string for a missing key.\<close>

definition set_private_keys :: "(account_config \<Rightarrow> string) \<Rightarrow> string \<Rightarrow> app_config \<Rightarrow> app_config" where
  "set_private_keys key api_key c =
     c\<lparr>cfg_Blockchains := map (\<lambda>(network, bc).
          (network, bc\<lparr>bc_Account := (bc_Account bc)\<lparr>acc_PrivateKey := key (bc_Account bc)\<rparr>\<rparr>))
          (cfg_Blockchains c),
       cfg_Relay := (cfg_Relay c)\<lparr>rel_Api := (rel_Api (cfg_Relay c))\<lparr>api_PrivateKey := api_key\<rparr>\<rparr>\<rparr>"

text \<open>\<open>InitConfig\<close>, from the decoded configuration file \<open>decoded\<close> on.\<close>

definition InitConfig ::
  "ethlib \<Rightarrow> string set \<Rightarrow> go_error + app_config \<Rightarrow> (files, app_config) action" where
  "InitConfig L stuck decoded =
     and_then (lift_sum decoded) (\<lambda>c.
     if pwr_CancellationSettlementTimeoutSeconds (cfg_ProcessWithdrawalRequests c) = 0 then
       return_err (ErrorsNew
         ''process withdrawal requests cancellation settlement timeout seconds not set'')
     else
       and_then
         (if cfg_Environment c = EnvTest then
            return_ok (set_private_keys (\<lambda>_. GetTestPrivateKey) GetTestPrivateKey c)
          else
            and_then (loadPrivateKeysFromFiles stuck c) (\<lambda>loadedKeys.
              return_ok (set_private_keys
                (\<lambda>a. null_string (loadedKeys (acc_PrivateKeyFile a)))
                (null_string (loadedKeys (api_PrivateKeyFile (rel_Api (cfg_Relay c))))) c)))
         (\<lambda>c. and_then (lift_sum (checkBlockchainAccount L (cfg_Blockchains c)))
           (\<lambda>_. return_ok c)))"

section \<open>What the start-up checks establish\<close>

text \<open>The conditions every later component relies on for a configured network.\<close>

definition blockchain_config_ok :: "ethlib \<Rightarrow> blockchain_config \<Rightarrow> bool" where
  "blockchain_config_ok L bc \<longleftrightarrow>
     (bc_TokenType bc = TokenTypeNative \<and> bc_TokenAddress bc = [] \<or>
      bc_TokenType bc = TokenTypeERC20 \<and> eth_IsHexAddress L (bc_TokenAddress bc)) \<and>
     eth_IsHexAddress L (bc_Contracts_BenefitAddress bc) \<and>
     bc_GasLimitBufferPercent bc \<noteq> 0 \<and> bc_MaxWithdrawalsPerDay bc \<noteq> 0 \<and>
     (\<exists>k. eth_HexToECDSA L (acc_PrivateKey (bc_Account bc)) = Inr k \<and>
        acc_Address (bc_Account bc) = eth_AddressHex L (eth_PubkeyToAddress L (eth_Public L k)))"

lemma check_blockchain_entry_ok:
  "check_blockchain_entry L network bc = Inr () \<Longrightarrow> blockchain_config_ok L bc"
  unfolding check_blockchain_entry_def blockchain_config_ok_def
  by (auto simp: bind_sum_Inr split: if_splits)

lemma checkBlockchainAccount_ok:
  "checkBlockchainAccount L bs = Inr () \<Longrightarrow> (network, bc) \<in> set bs \<Longrightarrow> blockchain_config_ok L bc"
  by (induction bs) (auto simp: bind_sum_Inr check_blockchain_entry_ok)

lemma load_key_files_removes:
  "load_key_files stuck fs keys d = (Inr keys', d') \<Longrightarrow>
   (\<forall>f \<in> set fs. d' f = None) \<and> (\<forall>f. d f = None \<longrightarrow> d' f = None) \<and>
   (\<forall>f. f \<notin> set fs \<longrightarrow> d' f = d f)"
proof (induction fs arbitrary: keys d)
  case Nil
  then show ?case by (simp add: return_ok_def)
next
  case (Cons f fs)
  from Cons.prems obtain k
    where "load_key_files stuck fs (keys(f \<mapsto> k)) (d(f := None)) = (Inr keys', d')"
    by (auto simp: action_defs GetPrivateKey_def remove_file_def
        split: if_splits option.splits prod.splits sum.splits)
  from Cons.IH [OF this] show ?case by auto
qed

lemma loadPrivateKeysFromFiles_removes:
  assumes "loadPrivateKeysFromFiles stuck c d = (Inr keys, d')"
  shows "(network, bc) \<in> set (cfg_Blockchains c) \<Longrightarrow> d' (acc_PrivateKeyFile (bc_Account bc)) = None"
    and "d' (api_PrivateKeyFile (rel_Api (cfg_Relay c))) = None"
  using assms
  by (auto simp: loadPrivateKeysFromFiles_def return_err_def split: option.splits if_splits prod.splits
      dest!: load_key_files_removes)

lemma InitConfig_ok:
  assumes "InitConfig L stuck decoded d = (Inr c, d')"
  shows "pwr_CancellationSettlementTimeoutSeconds (cfg_ProcessWithdrawalRequests c) \<noteq> 0"
    and "(network, bc) \<in> set (cfg_Blockchains c) \<Longrightarrow> blockchain_config_ok L bc"
  using assms
  by (auto simp: InitConfig_def action_defs set_private_keys_def
      split: sum.splits if_splits prod.splits dest: checkBlockchainAccount_ok)

end
