(* ===== verification/Relay_Types.thy ===== *)
theory Relay_Types
  imports Ethereum
begin

text \<open>
  The data the Relay and the chain nodes send: \<open>relay_api/task_fee_log.go\<close>,
  \<open>relay_api/withdrawal_request.go\<close> and the raw transaction of \<open>blockchain/client.go\<close>. A log type is
  the 8-bit signed number on the wire, so unknown types stay visible.
\<close>

type_synonym task_fee_log_type = "8 word"

definition TaskFeeLogTypeTaskIncome :: task_fee_log_type where "TaskFeeLogTypeTaskIncome = 0"
definition TaskFeeLogTypeDaoTaskShare :: task_fee_log_type where "TaskFeeLogTypeDaoTaskShare = 1"
definition TaskFeeLogTypeWithdrawalFeeIncome :: task_fee_log_type where
  "TaskFeeLogTypeWithdrawalFeeIncome = 2"
definition TaskFeeLogTypeDeposit :: task_fee_log_type where "TaskFeeLogTypeDeposit = 3"
definition TaskFeeLogTypeTaskPayment :: task_fee_log_type where "TaskFeeLogTypeTaskPayment = 4"
definition TaskFeeLogTypeTaskRefund :: task_fee_log_type where "TaskFeeLogTypeTaskRefund = 5"
definition TaskFeeLogTypeWithdraw :: task_fee_log_type where "TaskFeeLogTypeWithdraw = 6"
definition TaskFeeLogTypeWithdrawRefund :: task_fee_log_type where "TaskFeeLogTypeWithdrawRefund = 7"
definition TaskFeeLogTypeUserDelegation :: task_fee_log_type where "TaskFeeLogTypeUserDelegation = 8"
definition TaskFeeLogTypeVestingCreated :: task_fee_log_type where "TaskFeeLogTypeVestingCreated = 9"
definition TaskFeeLogTypeVestingRelease :: task_fee_log_type where "TaskFeeLogTypeVestingRelease = 10"

lemmas log_type_defs = TaskFeeLogTypeTaskIncome_def TaskFeeLogTypeDaoTaskShare_def
  TaskFeeLogTypeWithdrawalFeeIncome_def TaskFeeLogTypeDeposit_def TaskFeeLogTypeTaskPayment_def
  TaskFeeLogTypeTaskRefund_def TaskFeeLogTypeWithdraw_def TaskFeeLogTypeWithdrawRefund_def
  TaskFeeLogTypeUserDelegation_def TaskFeeLogTypeVestingCreated_def TaskFeeLogTypeVestingRelease_def

record task_fee_log =
  tfl_ID :: nat
  tfl_CreatedAt :: "64 word"
  tfl_Address :: string
  tfl_Amount :: string
  tfl_Type :: task_fee_log_type
  tfl_Payload :: string

text \<open>\<open>relay_api.WithdrawStatus\<close> is an \<open>int8\<close> as well; \<open>WithdrawStatusPending\<close> is 0.\<close>

type_synonym relay_withdraw_status = "8 word"

definition RelayWithdrawStatusPending :: relay_withdraw_status where
  "RelayWithdrawStatusPending = 0"

record withdrawal_request =
  wq_ID :: nat
  wq_CreatedAt :: "64 word"
  wq_Address :: string
  wq_BenefitAddress :: string
  wq_Amount :: string
  wq_WithdrawalFee :: string
  wq_Network :: string
  wq_Status :: relay_withdraw_status
  wq_RelayAccountEventID :: nat
  wq_Timestamp :: int
  wq_Signature :: string

record raw_transaction_transfer =
  raw_Hash :: string
  raw_From :: string
  raw_To :: string
  raw_Value :: string
  raw_Input :: string
  raw_Data :: string

section \<open>encoding/json\<close>

text \<open>
  A parsed JSON text, and \<open>json.Unmarshal\<close> into the fields the program declares: keys match without
  case, the last one wins, \<open>null\<close> leaves the field alone, a value of another type is an error. A
  number keeps its text. Turning the text into this tree is a parameter of the environment.
\<close>

datatype json =
    JNull | JBool bool | JNum string | JStr string | JArr "json list" | JObj "(string \<times> json) list"

fun json_string :: "string \<Rightarrow> string \<Rightarrow> (string \<times> json) list \<Rightarrow> go_error + string" where
  "json_string key acc [] = Inr acc"
| "json_string key acc ((k, v) # rest) =
     (if EqualFold k key then
        (case v of
           JStr s \<Rightarrow> json_string key s rest
         | JNull \<Rightarrow> json_string key acc rest
         | _ \<Rightarrow> Inl (External ''json: cannot unmarshal into Go struct field of type string''))
      else json_string key acc rest)"

fun json_int :: "int \<Rightarrow> int \<Rightarrow> string \<Rightarrow> int \<Rightarrow> (string \<times> json) list \<Rightarrow> go_error + int" where
  "json_int low high key acc [] = Inr acc"
| "json_int low high key acc ((k, v) # rest) =
     (if EqualFold k key then
        (case v of
           JNum s \<Rightarrow>
             (case parse_big s of
                None \<Rightarrow> Inl (External ''json: cannot unmarshal number'')
              | Some n \<Rightarrow>
                  if low \<le> n \<and> n \<le> high then json_int low high key n rest
                  else Inl (External ''json: cannot unmarshal number''))
         | JNull \<Rightarrow> json_int low high key acc rest
         | _ \<Rightarrow> Inl (External ''json: cannot unmarshal into Go struct field of type int''))
      else json_int low high key acc rest)"

definition json_uint :: "string \<Rightarrow> (string \<times> json) list \<Rightarrow> go_error + nat" where
  "json_uint key pairs = bind_sum (json_int 0 (2 ^ 64 - 1) key 0 pairs) (\<lambda>n. Inr (nat n))"

definition json_int64 :: "string \<Rightarrow> (string \<times> json) list \<Rightarrow> go_error + int" where
  "json_int64 key pairs = json_int (- (2 ^ 63)) (2 ^ 63 - 1) key 0 pairs"

definition json_fields :: "json \<Rightarrow> go_error + (string \<times> json) list" where
  "json_fields j =
     (case j of
        JObj pairs \<Rightarrow> Inr pairs
      | JNull \<Rightarrow> Inr []
      | _ \<Rightarrow> Inl (External ''json: cannot unmarshal into Go value of struct type''))"

text \<open>A parser that is only called by \<open>json.Unmarshal\<close>.\<close>

definition Unmarshal ::
  "(string \<Rightarrow> go_error + json) \<Rightarrow> string \<Rightarrow> go_error + (string \<times> json) list" where
  "Unmarshal parse text = bind_sum (parse text) json_fields"

section \<open>json.Marshal\<close>

definition hex_digit :: "nat \<Rightarrow> char" where
  "hex_digit d = (if d < 10 then char_of (48 + d) else char_of (87 + d))"

text \<open>A character of a string literal: the short escapes, \<open>\u00xx\<close> for controls and for \<open>< > &\<close>.\<close>

definition json_char :: "char \<Rightarrow> string" where
  "json_char c =
     (let n = ascii c; backslash = char_of (92::nat) in
      if n = 34 then [backslash, char_of (34::nat)]
      else if n = 92 then [backslash, backslash]
      else if n = 8 then [backslash, CHR ''b'']
      else if n = 9 then [backslash, CHR ''t'']
      else if n = 10 then [backslash, CHR ''n'']
      else if n = 12 then [backslash, CHR ''f'']
      else if n = 13 then [backslash, CHR ''r'']
      else if n < 32 \<or> n = 38 \<or> n = 60 \<or> n = 62 then
        [backslash, CHR ''u'', CHR ''0'', CHR ''0'', hex_digit (n div 16), hex_digit (n mod 16)]
      else [c])"

definition json_quote :: "string \<Rightarrow> string" where
  "json_quote s = [char_of (34::nat)] @ concat (map json_char s) @ [char_of (34::nat)]"

definition join :: "string \<Rightarrow> string list \<Rightarrow> string" where
  "join sep xs = concat (map (\<lambda>(i, x). if i = 0 then x else sep @ x) (enumerate (0::nat) xs))"

text \<open>Structs keep the order of their fields.\<close>

fun json_text :: "json \<Rightarrow> string" where
  "json_text JNull = ''null''"
| "json_text (JBool b) = (if b then ''true'' else ''false'')"
| "json_text (JNum s) = s"
| "json_text (JStr s) = json_quote s"
| "json_text (JArr xs) = ''['' @ join '','' (map json_text xs) @ '']''"
| "json_text (JObj ps) =
     ''{'' @ join '','' (map (\<lambda>(k, v). json_quote k @ '':'' @ json_text v) ps) @ ''}''"

text \<open>Maps are written in the order of their keys; of equal keys the last one was kept.\<close>

fun last_of_key :: "(string \<times> 'v) list \<Rightarrow> (string \<times> 'v) list" where
  "last_of_key [] = []"
| "last_of_key ((k, v) # ps) = (if k \<in> fst ` set ps then last_of_key ps else (k, v) # last_of_key ps)"

fun key_less_eq :: "string \<Rightarrow> string \<Rightarrow> bool" where
  "key_less_eq [] t = True"
| "key_less_eq (c # cs) [] = False"
| "key_less_eq (c # cs) (d # ds) =
     (ascii c < ascii d \<or> ascii c = ascii d \<and> key_less_eq cs ds)"

fun insert_key :: "string \<times> 'v \<Rightarrow> (string \<times> 'v) list \<Rightarrow> (string \<times> 'v) list" where
  "insert_key p [] = [p]"
| "insert_key p (q # qs) = (if key_less_eq (fst p) (fst q) then p # q # qs else q # insert_key p qs)"

definition sort_keys :: "(string \<times> 'v) list \<Rightarrow> (string \<times> 'v) list" where
  "sort_keys ps = foldr insert_key (last_of_key ps) []"

text \<open>The value \<open>Unmarshal\<close> makes of a text when nothing is declared: numbers become \<open>float64\<close>.\<close>

fun as_interface :: "(string \<Rightarrow> string) \<Rightarrow> json \<Rightarrow> json" where
  "as_interface fmt (JNum s) = JNum (fmt s)"
| "as_interface fmt (JArr xs) = JArr (map (as_interface fmt) xs)"
| "as_interface fmt (JObj ps) = JObj (sort_keys (map (\<lambda>(k, v). (k, as_interface fmt v)) ps))"
| "as_interface fmt j = j"

section \<open>net/http\<close>

text \<open>
  A request, and the response as \<open>relay_api\<close> looks at it: \<open>rs_Method\<close> and \<open>rs_RequestURI\<close> are those
  of \<open>resp.Request\<close>; reading the body may fail.
\<close>

record http_request =
  rq_Method :: string
  rq_URL :: string
  rq_Query :: "(string \<times> string) list"
  rq_Body :: string

record http_response =
  rs_Method :: string
  rs_RequestURI :: string
  rs_StatusCode :: int
  rs_Status :: string
  rs_Body :: "go_error + string"

end
