(* ===== verification/Wallet_World.thy ===== *)
theory Wallet_World
  imports Tx_Chain Wallet_Config Relay_Types
begin

text \<open>
  The world a goroutine of the program runs in: the database, which the other goroutines write at
  the same time, the clock, the chain nodes, the Relay, and what the goroutine has done to the
  outside. The environment answers the n-th external call of a run by its n-th entry (the tick), so
  every schedule of the other goroutines, every failure and every clock is some environment.
\<close>

section \<open>The other goroutines\<close>

text \<open>
  One committed write of another goroutine: the sender and the confirmer on transactions, the
  processor queueing or cancelling one or updating a record, the task-fee sync crediting accounts and moving its
  checkpoint, the withdrawal sync inserting a record. The conditions are those of the code.
\<close>

datatype other_step =
    OtherQueue btx
  | OtherClaim nat
  | OtherRelease nat int string
  | OtherPrepare nat string int string
  | OtherMarkSent nat int
  | OtherMarkConfirmed nat int int int string
  | OtherFail nat int int int string string int
  | OtherMarkDelayed nat
  | OtherRequestCancellation nat int string
  | OtherCancel nat int
  | OtherCredit string int
  | OtherInsertRecord withdraw_record
  | OtherUpdateRecord nat withdraw_status "nat option" "string option"
  | OtherCheckpoint task_fee_checkpoint

text \<open>Crediting an account adds to its balance, or creates it (the task-fee sync).\<close>

definition credit_account :: "string \<Rightarrow> int \<Rightarrow> db \<Rightarrow> db" where
  "credit_account a delta d =
     (if \<exists>r \<in> set (db_relay_accounts d). ra_Address r = a then
        d\<lparr>db_relay_accounts := update_where (\<lambda>r. ra_Address r = a)
            (\<lambda>r. r\<lparr>ra_Balance := ra_Balance r + delta\<rparr>) (db_relay_accounts d)\<rparr>
      else
        d\<lparr>db_relay_accounts := db_relay_accounts d @
            [\<lparr>ra_ID = db_next_relay_account_id d, ra_Address = a, ra_Balance = delta\<rparr>],
          db_next_relay_account_id := Suc (db_next_relay_account_id d)\<rparr>)"

definition insert_withdraw_record :: "withdraw_record \<Rightarrow> db \<Rightarrow> db" where
  "insert_withdraw_record r d =
     (if \<exists>q \<in> set (db_withdraw_records d). conflicts r q then d
      else d\<lparr>db_withdraw_records := db_withdraw_records d @
             [r\<lparr>wr_ID := db_next_withdraw_record_id d, wr_BlockchainTransactionID := None\<rparr>],
           db_next_withdraw_record_id := Suc (db_next_withdraw_record_id d)\<rparr>)"

fun run_step :: "other_step \<Rightarrow> db \<Rightarrow> db" where
  "run_step (OtherQueue r) d =
     (if fresh_row r \<and> tx_RetryTransactionID r = None then insert_transaction r d else d)"
| "run_step (OtherClaim i) d =
     update_transactions (\<lambda>r. claim_guard i r \<and> ancestors_proven r (db_transactions d)) claim_set d"
| "run_step (OtherRelease i now msg) d =
     update_transactions (release_guard i) (release_set now msg) d"
| "run_step (OtherPrepare i h n x) d =
     (if \<exists>r \<in> set (db_transactions d). tx_TxHash r = Some h then d
      else update_transactions (prepare_guard i) (prepare_set h n x) d)"
| "run_step (OtherMarkSent i now) d =
     update_transactions (mark_sent_guard i) (mark_sent_set now) d"
| "run_step (OtherMarkConfirmed i now b g p) d =
     update_transactions (mark_confirmed_guard i) (mark_confirmed_set now b g p) d"
| "run_step (OtherFail i now b g p msg at) d = fail_with_retry i now b g p msg at d"
| "run_step (OtherMarkDelayed i) d =
     update_transactions (mark_delayed_guard i) mark_delayed_set d"
| "run_step (OtherRequestCancellation i now msg) d =
     update_transactions (request_cancellation_guard i) (request_cancellation_set now msg) d"
| "run_step (OtherCancel i now) d = update_transactions (cancel_guard i) (cancel_set now) d"
| "run_step (OtherCredit a delta) d = credit_account a delta d"
| "run_step (OtherInsertRecord r) d = insert_withdraw_record r d"
| "run_step (OtherUpdateRecord i status tx fingerprint) d =
     (if tx = Some 0 \<or> fingerprint \<noteq> None \<and> (\<exists>q \<in> set (db_withdraw_records d).
           wr_ID q \<noteq> i \<and> wr_AuthorizationFingerprint q = fingerprint)
      then d else update_records (\<lambda>r. wr_ID r = i) (\<lambda>r. r\<lparr>wr_Status := status, wr_BlockchainTransactionID := tx,
       wr_AuthorizationFingerprint := fingerprint\<rparr>) d)"
| "run_step (OtherCheckpoint c) d = d\<lparr>db_task_fee_checkpoint := Some c\<rparr>"

definition run_steps :: "other_step list \<Rightarrow> db \<Rightarrow> db" where
  "run_steps steps d = fold run_step steps d"

section \<open>The environment and the world\<close>

record env =
  env_cfg :: app_config
  env_lib :: ethlib
  env_serializable :: bool
  env_ParseJSON :: "string \<Rightarrow> go_error + json"
  env_DecodeJSON :: "string \<Rightarrow> go_error + json"
  env_FormatFloat :: "string \<Rightarrow> string"
  env_now :: "nat \<Rightarrow> int"
  env_others :: "nat \<Rightarrow> other_step list"
  env_db_fault :: "nat \<Rightarrow> go_error option"
  env_commit_fault :: "nat \<Rightarrow> go_error option"
  env_ctx :: "nat \<Rightarrow> go_error option"
  env_LimiterWait :: "nat \<Rightarrow> go_error option"
  env_ChainID :: "nat \<Rightarrow> string \<Rightarrow> go_error + int"
  env_PendingNonceAt :: "nat \<Rightarrow> string \<Rightarrow> address \<Rightarrow> go_error + 64 word"
  env_TransactionReceipt :: "nat \<Rightarrow> string \<Rightarrow> hash \<Rightarrow> go_error + receipt"
  env_GetTransactionByHash :: "nat \<Rightarrow> string \<Rightarrow> hash \<Rightarrow> go_error + raw_transaction_transfer option"
  env_SendTransaction :: "nat \<Rightarrow> string \<Rightarrow> signed_tx \<Rightarrow> go_error option"
  env_EstimateGas :: "nat \<Rightarrow> string \<Rightarrow> call_msg \<Rightarrow> go_error + 64 word"
  env_HeaderByNumber :: "nat \<Rightarrow> string \<Rightarrow> int option \<Rightarrow> go_error + header"
  env_SuggestGasTipCap :: "nat \<Rightarrow> string \<Rightarrow> go_error + int"
  env_BalanceAt :: "nat \<Rightarrow> string \<Rightarrow> address \<Rightarrow> go_error + int"
  env_TokenBalance :: "nat \<Rightarrow> string \<Rightarrow> address \<Rightarrow> address \<Rightarrow> go_error + int"
  env_CallContract :: "nat \<Rightarrow> string \<Rightarrow> call_msg \<Rightarrow> int \<Rightarrow> go_error + bytes"
  env_UnpackError :: "bytes \<Rightarrow> go_error + string"
  env_BenefitAddress :: "nat \<Rightarrow> string \<Rightarrow> address \<Rightarrow> go_error + address"
  env_NewRequest :: "string \<Rightarrow> string \<Rightarrow> go_error option"
  env_HTTP :: "nat \<Rightarrow> http_request \<Rightarrow> go_error + http_response"

text \<open>What a run does to the outside, in order.\<close>

datatype ext_call =
    SendRaw string signed_tx
  | Fulfill nat string
  | Reject nat
  | Alert string string

text \<open>\<open>blockchain.BlockchainClient\<close>: the fields that matter after initialisation.\<close>

record client =
  cl_Network :: string
  cl_ChainID :: int
  cl_GasLimit :: "64 word"
  cl_GasLimitBufferPercent :: "64 word"
  cl_MaxFeePerGas :: "int option"
  cl_MaxPriorityFeePerGas :: "int option"
  cl_Address :: string
  cl_PrivateKey :: string
  cl_Nonce :: "64 word option"
  cl_SentTransactionCountLimit :: "64 word"

record world =
  w_tick :: nat
  w_in_tx :: bool
  w_db :: db
  w_clients :: "string \<rightharpoonup> client"
  w_record :: withdraw_record
  w_calls :: "ext_call list"

section \<open>Primitive actions\<close>

text \<open>Ask the environment: one tick.\<close>

definition ask :: "(nat \<Rightarrow> go_error + 'a) \<Rightarrow> (world, 'a) action" where
  [action_defs]: "ask f = (\<lambda>w. (f (w_tick w), w\<lparr>w_tick := Suc (w_tick w)\<rparr>))"

definition ask_unit :: "(nat \<Rightarrow> go_error option) \<Rightarrow> (world, unit) action" where
  "ask_unit f = ask (\<lambda>t. case f t of None \<Rightarrow> Inr () | Some e \<Rightarrow> Inl e)"

text \<open>\<open>time.Now()\<close>.\<close>

definition time_now :: "env \<Rightarrow> (world, int) action" where
  "time_now E = ask (\<lambda>t. Inr (env_now E t))"

text \<open>\<open>select { case <-ctx.Done(): return ctx.Err(); case <-time.After(...): }\<close>.\<close>

definition sleep :: "env \<Rightarrow> (world, unit) action" where
  "sleep E = ask_unit (env_ctx E)"

definition tell :: "ext_call \<Rightarrow> (world, unit) action" where
  [action_defs]: "tell c = writes (\<lambda>w. w\<lparr>w_calls := w_calls w @ [c]\<rparr>)"

text \<open>
  One SQL statement: the writes other goroutines have committed since the last one become visible
  (inside a transaction only when the database does not isolate transactions completely), then the
  statement fails or runs.
\<close>

definition seen_db :: "env \<Rightarrow> world \<Rightarrow> db" where
  "seen_db E w =
     (if w_in_tx w \<and> env_serializable E then w_db w
      else run_steps (env_others E (w_tick w)) (w_db w))"

definition db_action :: "env \<Rightarrow> (db \<Rightarrow> (go_error + 'a) \<times> db) \<Rightarrow> (world, 'a) action" where
  [action_defs]: "db_action E f =
     (\<lambda>w. let d = seen_db E w in
        case env_db_fault E (w_tick w) of
          Some e \<Rightarrow> (Inl e, w\<lparr>w_tick := Suc (w_tick w), w_db := d\<rparr>)
        | None \<Rightarrow> (case f d of (r, d') \<Rightarrow> (r, w\<lparr>w_tick := Suc (w_tick w), w_db := d'\<rparr>)))"

definition db_query :: "env \<Rightarrow> (db \<Rightarrow> go_error + 'a) \<Rightarrow> (world, 'a) action" where
  "db_query E f = db_action E (\<lambda>d. (f d, d))"

text \<open>\<open>UPDATE blockchain_transactions SET u WHERE g\<close>, returning the rows it matched.\<close>

definition db_update :: "env \<Rightarrow> (btx \<Rightarrow> bool) \<Rightarrow> (btx \<Rightarrow> btx) \<Rightarrow> (world, nat) action" where
  "db_update E g u =
     db_action E (\<lambda>d. (Inr (rows_affected g (db_transactions d)), update_transactions g u d))"

text \<open>
  \<open>db.Transaction(fc)\<close>: an error of \<open>fc\<close> or of the commit undoes the statements of the transaction,
  never the memory of the goroutine. What the other goroutines wrote meanwhile stays.
\<close>

fun replay :: "env \<Rightarrow> nat \<Rightarrow> nat \<Rightarrow> db \<Rightarrow> db" where
  "replay E t 0 d = d"
| "replay E t (Suc n) d = replay E (Suc t) n (run_steps (env_others E t) d)"

definition rollback :: "env \<Rightarrow> nat \<Rightarrow> db \<Rightarrow> world \<Rightarrow> world" where
  "rollback E t0 d0 w =
     w\<lparr>w_in_tx := False,
       w_db := (if env_serializable E then d0 else replay E t0 (w_tick w - t0) d0)\<rparr>"

definition commit_or_rollback ::
  "env \<Rightarrow> nat \<Rightarrow> db \<Rightarrow> (go_error + 'a) \<times> world \<Rightarrow> (go_error + 'a) \<times> world" where
  "commit_or_rollback E t0 d0 rw =
     (case rw of
        (Inl e, w) \<Rightarrow> (Inl e, rollback E t0 d0 w)
      | (Inr x, w) \<Rightarrow>
          (case env_commit_fault E (w_tick w) of
             Some e \<Rightarrow> (Inl e, rollback E t0 d0 (w\<lparr>w_tick := Suc (w_tick w)\<rparr>))
           | None \<Rightarrow> (Inr x, w\<lparr>w_in_tx := False, w_tick := Suc (w_tick w)\<rparr>)))"

definition db_transaction :: "env \<Rightarrow> (world, 'a) action \<Rightarrow> (world, 'a) action" where
  [action_defs]: "db_transaction E m =
     and_then (db_query E (\<lambda>_. Inr ())) (\<lambda>_. \<lambda>w.
       commit_or_rollback E (w_tick w) (w_db w) (m (w\<lparr>w_in_tx := True\<rparr>)))"

text \<open>
  The vesting records and the deposit records have one writer, the task-fee sync: no step of
  another goroutine touches them.
\<close>

lemma run_step_own_tables [simp]:
  "db_vesting_records (run_step s d) = db_vesting_records d"
  "db_next_vesting_record_id (run_step s d) = db_next_vesting_record_id d"
  "db_deposit_records (run_step s d) = db_deposit_records d"
  by (cases s; simp add: fail_with_retry_def credit_account_def insert_withdraw_record_def Let_def
      update_transactions_def insert_transaction_def split: option.split)+

lemma run_steps_own_tables [simp]:
  "db_vesting_records (run_steps ss d) = db_vesting_records d"
  "db_next_vesting_record_id (run_steps ss d) = db_next_vesting_record_id d"
  "db_deposit_records (run_steps ss d) = db_deposit_records d"
  unfolding run_steps_def by (induction ss arbitrary: d) simp_all

lemma replay_own_tables [simp]:
  "db_vesting_records (replay E t n d) = db_vesting_records d"
  "db_next_vesting_record_id (replay E t n d) = db_next_vesting_record_id d"
  "db_deposit_records (replay E t n d) = db_deposit_records d"
  by (induction E t n d rule: replay.induct) simp_all

lemma seen_db_own_tables [simp]:
  "db_vesting_records (seen_db E w) = db_vesting_records (w_db w)"
  "db_next_vesting_record_id (seen_db E w) = db_next_vesting_record_id (w_db w)"
  "db_deposit_records (seen_db E w) = db_deposit_records (w_db w)"
  by (simp_all add: seen_db_def)

text \<open>When no other goroutine writes, a statement sees what the goroutine left.\<close>

definition alone :: "env \<Rightarrow> bool" where
  "alone E \<longleftrightarrow> (\<forall>t. env_others E t = [])"

lemma alone_seen [simp]: "alone E \<Longrightarrow> seen_db E w = w_db w"
  by (simp add: alone_def seen_db_def run_steps_def)

lemma alone_replay [simp]: "alone E \<Longrightarrow> replay E t n d = d"
  by (induction E t n d rule: replay.induct) (simp_all add: alone_def run_steps_def)

lemma alone_rollback [simp]: "alone E \<Longrightarrow> w_db (rollback E t d w) = d"
  by (simp add: rollback_def)

lemma alone_query:
  "alone E \<Longrightarrow> db_query E f w = (r, w') \<Longrightarrow> w_db w' = w_db w"
  by (auto simp: db_query_def db_action_def Let_def split: option.splits)

lemma alone_update:
  "alone E \<Longrightarrow> db_update E g u w = (r, w') \<Longrightarrow>
   (\<exists>e. r = Inl e) \<and> w_db w' = w_db w \<or>
   r = Inr (rows_affected g (db_transactions (w_db w))) \<and> w_db w' = update_transactions g u (w_db w)"
  by (auto simp: db_update_def db_action_def Let_def split: option.splits)

lemma ask_db: "ask f w = (r, w') \<Longrightarrow> w_db w' = w_db w"
  by (auto simp: ask_def)

lemma time_now_db: "time_now E w = (r, w') \<Longrightarrow> w_db w' = w_db w"
  by (auto simp: time_now_def ask_def)

section \<open>Parts of the database that only this goroutine writes\<close>

text \<open>
  A view of the database that no other goroutine changes: statements see what the goroutine left
  there, and a transaction that fails restores it.
\<close>

locale stable_view =
  fixes E :: env and V :: "db \<Rightarrow> 'v"
  assumes stable: "s \<in> set (env_others E t) \<Longrightarrow> V (run_step s d) = V d"
begin

lemma run_steps_view [simp]: "V (run_steps (env_others E t) d) = V d"
proof -
  have "V (run_steps ss d) = V d" if "set ss \<subseteq> set (env_others E t)" for ss
    using that unfolding run_steps_def by (induction ss arbitrary: d) (auto simp: stable)
  then show ?thesis by simp
qed

lemma seen_view [simp]: "V (seen_db E w) = V (w_db w)"
  by (simp add: seen_db_def)

lemma replay_view [simp]: "V (replay E t n d) = V d"
  by (induction n arbitrary: t d) simp_all

lemma rollback_view [simp]: "V (w_db (rollback E t d w)) = V d"
  by (simp add: rollback_def)

lemma query_view: "db_query E f w = (r, w') \<Longrightarrow> V (w_db w') = V (w_db w)"
  by (auto simp: db_query_def db_action_def Let_def split: option.splits)

lemma action_view:
  assumes "db_action E f w = (r, w')"
  shows "(\<exists>e. r = Inl e) \<and> V (w_db w') = V (w_db w) \<or>
    (\<exists>d. V d = V (w_db w) \<and> f d = (r, w_db w'))"
  using assms by (auto simp: db_action_def Let_def split: option.splits prod.splits intro: exI [of _ "seen_db E w"])

lemma transaction_view:
  assumes "db_transaction E m w = (r, w')"
  shows "(\<exists>e. r = Inl e) \<and> V (w_db w') = V (w_db w) \<or>
    (\<exists>x v u. r = Inr x \<and> V (w_db v) = V (w_db w) \<and> m v = (Inr x, u) \<and> w_db w' = w_db u)"
proof -
  obtain b v where v: "db_query E (\<lambda>_. Inr () :: go_error + unit) w = (b, v)" by fastforce
  then have d: "V (w_db v) = V (w_db w)" by (rule query_view)
  show ?thesis
  proof (cases b)
    case (Inl e)
    with v d assms show ?thesis by (auto simp: db_transaction_def and_then_def)
  next
    case (Inr z)
    obtain q u where m: "m (v\<lparr>w_in_tx := True\<rparr>) = (q, u)" by fastforce
    have c: "commit_or_rollback E (w_tick v) (w_db v) (q, u) = (r, w')"
      using assms v Inr m by (simp add: db_transaction_def and_then_def)
    show ?thesis
    proof (cases q)
      case (Inl e)
      with c d show ?thesis by (auto simp: commit_or_rollback_def)
    next
      case (Inr x)
      show ?thesis
      proof (cases "env_commit_fault E (w_tick u)")
        case None
        with c Inr have "r = Inr x" "w_db w' = w_db u" by (auto simp: commit_or_rollback_def)
        with m d Inr show ?thesis
          by (intro disjI2 exI [of _ x] exI [of _ "v\<lparr>w_in_tx := True\<rparr>"] exI [of _ u]) auto
      next
        case (Some e)
        with c Inr d show ?thesis by (auto simp: commit_or_rollback_def)
      qed
    qed
  qed
qed

lemma view_transaction:
  assumes m: "keeps (\<lambda>w::world. V (w_db w) = x) m"
  shows "keeps (\<lambda>w. V (w_db w) = x) (db_transaction E m)"
  unfolding keeps_def
proof (intro allI impI)
  fix w :: world assume w: "V (w_db w) = x"
  obtain r w' where run: "db_transaction E m w = (r, w')" by fastforce
  from transaction_view [OF run] have "V (w_db w') = x"
  proof (elim disjE exE conjE)
    fix y v u assume "V (w_db v) = V (w_db w)" "m v = (Inr y, u)" "w_db w' = w_db u"
    with keepsD [OF m, of v "Inr y" u] w show ?thesis by simp
  qed (simp add: w)
  with run show "V (w_db (snd (db_transaction E m w))) = x" by simp
qed

lemma view_primitives:
  "keeps (\<lambda>w. V (w_db w) = x) (ask f)" "keeps (\<lambda>w. V (w_db w) = x) (time_now E)"
  "keeps (\<lambda>w. V (w_db w) = x) (sleep E)" "keeps (\<lambda>w. V (w_db w) = x) (db_query E g)"
  by (auto simp: keeps_def ask_def time_now_def sleep_def ask_unit_def db_query_def db_action_def
      Let_def split: option.splits)

lemma view_action:
  "(\<And>d. V (snd (f d)) = V d) \<Longrightarrow> keeps (\<lambda>w. V (w_db w) = x) (db_action E f)"
  by (auto simp: keeps_def db_action_def Let_def split: option.splits prod.splits) (metis seen_view snd_conv)

end

text \<open>When nobody else writes, the whole database is such a view; the vesting records always are.\<close>

lemma alone_stable: "alone E \<Longrightarrow> stable_view E V"
  by unfold_locales (simp add: alone_def)

interpretation vesting_table: stable_view E db_vesting_records for E
  by unfold_locales simp

interpretation deposit_table: stable_view E db_deposit_records for E
  by unfold_locales simp

text \<open>Alone, a transaction that returns an error has written nothing.\<close>

lemma alone_transaction:
  assumes "alone E" and "db_transaction E m w = (r, w')"
  shows "(\<exists>e. r = Inl e) \<and> w_db w' = w_db w \<or>
    (\<exists>x v u. r = Inr x \<and> w_db v = w_db w \<and> m v = (Inr x, u) \<and> w_db w' = w_db u)"
  using stable_view.transaction_view [OF alone_stable [OF assms(1), of "\<lambda>d. d"] assms(2)] .

section \<open>Invariants of the database under every schedule\<close>

locale db_invariant =
  fixes I :: "db \<Rightarrow> bool"
  assumes step: "I d \<Longrightarrow> I (run_step s d)"
begin

lemma run_steps_keeps: "I d \<Longrightarrow> I (run_steps ss d)"
  unfolding run_steps_def by (induction ss arbitrary: d) (auto simp: step)

lemma replay_keeps: "I d \<Longrightarrow> I (replay E t n d)"
  by (induction E t n d rule: replay.induct) (auto simp: run_steps_keeps)

lemma seen_db_keeps: "I (w_db w) \<Longrightarrow> I (seen_db E w)"
  by (simp add: seen_db_def run_steps_keeps)

lemma keeps_ask: "keeps (\<lambda>w. I (w_db w)) (ask f)"
  by (simp add: keeps_def ask_def)

lemma keeps_ask_unit: "keeps (\<lambda>w. I (w_db w)) (ask_unit f)"
  by (simp add: ask_unit_def keeps_ask)

lemma keeps_time_now: "keeps (\<lambda>w. I (w_db w)) (time_now E)"
  by (simp add: time_now_def keeps_ask)

lemma keeps_sleep: "keeps (\<lambda>w. I (w_db w)) (sleep E)"
  by (simp add: sleep_def keeps_ask_unit)

lemma keeps_tell: "keeps (\<lambda>w. I (w_db w)) (tell c)"
  by (simp add: keeps_def tell_def writes_def)

lemma keeps_db_action:
  assumes "\<And>d. I d \<Longrightarrow> I (snd (f d))"
  shows "keeps (\<lambda>w. I (w_db w)) (db_action E f)"
  using assms [of "seen_db E _", OF seen_db_keeps]
  by (auto simp: keeps_def db_action_def Let_def seen_db_keeps split: option.splits prod.splits)
    (metis snd_conv)

lemma keeps_db_query: "keeps (\<lambda>w. I (w_db w)) (db_query E f)"
  by (simp add: db_query_def keeps_db_action)

lemma rollback_keeps: "I d0 \<Longrightarrow> I (w_db (rollback E t0 d0 w))"
  by (simp add: rollback_def replay_keeps)

lemma keeps_transaction:
  assumes m: "keeps (\<lambda>w. I (w_db w)) m"
  shows "keeps (\<lambda>w. I (w_db w)) (db_transaction E m)"
proof -
  have "I (w_db (snd (commit_or_rollback E (w_tick w) (w_db w) (m (w\<lparr>w_in_tx := True\<rparr>)))))"
    if "I (w_db w)" for w
  proof -
    have "I (w_db (snd (m (w\<lparr>w_in_tx := True\<rparr>))))"
      using m that by (simp add: keeps_def)
    with that show ?thesis
      by (auto simp: commit_or_rollback_def rollback_keeps split: prod.split sum.split option.split)
  qed
  then show ?thesis
    unfolding db_transaction_def by (intro keeps_and_then keeps_db_query) (simp add: keeps_def)
qed

lemmas keeps_primitives = keeps_ask keeps_ask_unit keeps_time_now keeps_sleep keeps_tell
  keeps_db_query keeps_transaction

end

text \<open>The invariant of the transaction table survives every schedule.\<close>

interpretation guarded_claim:
  row_update "\<lambda>r. claim_guard i r \<and> ancestors_proven r rows" claim_set for i rows
  by unfold_locales (auto simp: row_update_simps intro: tx_step.intros)

definition table_ok :: "db \<Rightarrow> bool" where
  "table_ok d \<longleftrightarrow> txs_ok d \<and> ancestors_ok d \<and> db_started d"

lemmas row_steps_ancestors =
  release.ancestors_ok_after prepare.ancestors_ok_after request_cancellation.ancestors_ok_after
  cancel.ancestors_ok_after mark_sent.ancestors_ok_after mark_confirmed.ancestors_ok_after
  mark_failed.ancestors_ok_after mark_delayed.ancestors_ok_after recover_pending.ancestors_ok_after
  recover_cancelled.ancestors_ok_after

lemmas row_steps_ok =
  guarded_claim.txs_ok_after claim.txs_ok_after release.txs_ok_after prepare.txs_ok_after request_cancellation.txs_ok_after
  cancel.txs_ok_after mark_sent.txs_ok_after mark_confirmed.txs_ok_after mark_failed.txs_ok_after
  mark_delayed.txs_ok_after recover_pending.txs_ok_after recover_cancelled.txs_ok_after

lemmas row_steps_le =
  guarded_claim.txs_le_after claim.txs_le_after release.txs_le_after prepare.txs_le_after request_cancellation.txs_le_after
  cancel.txs_le_after mark_sent.txs_le_after mark_confirmed.txs_le_after mark_failed.txs_le_after
  mark_delayed.txs_le_after recover_pending.txs_le_after recover_cancelled.txs_le_after

lemma db_started_update [simp]: "db_started (update_transactions g u d) = db_started d"
  by (simp add: db_started_def)

lemma credit_account_tables [simp]:
  "db_transactions (credit_account a x d) = db_transactions d"
  "db_next_transaction_id (credit_account a x d) = db_next_transaction_id d"
  "db_withdraw_records (credit_account a x d) = db_withdraw_records d"
  by (simp_all add: credit_account_def)

lemma txs_ok_unrelated [simp]:
  "txs_ok (update_records g u d) = txs_ok d"
  "txs_ok (credit_account a x d) = txs_ok d"
  "txs_ok (insert_withdraw_record q d) = txs_ok d"
  "txs_ok (d\<lparr>db_task_fee_checkpoint := c\<rparr>) = txs_ok d"
  by (rule txs_ok_other_tables; simp add: insert_withdraw_record_def)+

lemma ancestors_ok_unrelated [simp]:
  "ancestors_ok (update_records g u d) = ancestors_ok d"
  "ancestors_ok (credit_account a x d) = ancestors_ok d"
  "ancestors_ok (insert_withdraw_record q d) = ancestors_ok d"
  "ancestors_ok (d\<lparr>db_task_fee_checkpoint := c\<rparr>) = ancestors_ok d"
  by (rule ancestors_ok_other_tables; simp add: insert_withdraw_record_def)+

lemma txs_le_unrelated [simp]:
  "txs_le d (update_records g u d)"
  "txs_le d (credit_account a x d)"
  "txs_le d (insert_withdraw_record q d)"
  "txs_le d (d\<lparr>db_task_fee_checkpoint := c\<rparr>)"
  by (rule txs_le_other_tables; simp add: insert_withdraw_record_def)+

lemma fail_with_retry_started: "db_started d \<Longrightarrow> db_started (fail_with_retry i now b g p msg at d)"
  by (auto simp: fail_with_retry_def db_started_def Let_def split: option.splits)

lemma run_step_txs_ok: "table_ok d \<Longrightarrow> txs_ok (run_step s d)"
  by (cases s) (auto simp: table_ok_def row_steps_ok fail_with_retry_ok insert_root_ok)

lemma run_step_started: "table_ok d \<Longrightarrow> db_started (run_step s d)"
  by (cases s) (auto simp: table_ok_def fail_with_retry_started, auto simp: db_started_def
      insert_withdraw_record_def)

lemma guarded_claim_ancestors:
  "ancestors_ok d \<Longrightarrow> ancestors_ok (update_transactions
     (\<lambda>r. claim_guard i r \<and> ancestors_proven r (db_transactions d)) claim_set d)"
  by (erule guarded_claim.ancestors_ok_unless_claim) blast

lemma run_step_ancestors: "table_ok d \<Longrightarrow> ancestors_ok (run_step s d)"
  by (cases s) (auto simp: table_ok_def row_steps_ancestors guarded_claim_ancestors
      fail_with_retry_ancestors_ok fresh_row_def txs_ok_def intro!: ancestors_ok_insert)

lemma run_step_txs_le: "table_ok d \<Longrightarrow> txs_le d (run_step s d)"
  by (cases s) (auto simp: table_ok_def row_steps_le fail_with_retry_ok insert_root_le)

interpretation table: db_invariant table_ok
  by unfold_locales (simp add: table_ok_def run_step_txs_ok run_step_ancestors run_step_started)

interpretation grown: db_invariant "\<lambda>d. table_ok d \<and> txs_le d0 d" for d0
  by unfold_locales (blast intro: table.step txs_le_trans run_step_txs_le)

end
