(* ===== verification/Tx_Store.thy ===== *)
theory Tx_Store
  imports Wallet_World
begin

text \<open>
  \<open>models/blockchain_transaction.go\<close>: the operations on the transaction table, each as the action
  the Go function is. A method that writes its receiver returns the new in-memory row.
\<close>

section \<open>Reading\<close>

text \<open>\<open>First\<close> with a primary key of 0 has no condition and takes the first row.\<close>

definition first_transaction :: "nat \<Rightarrow> db \<Rightarrow> go_error + btx" where
  "first_transaction i d =
     (case (if i = 0 then find (\<lambda>_. True) (db_transactions d) else find_transaction i d) of
        None \<Rightarrow> Inl ErrRecordNotFound
      | Some r \<Rightarrow> Inr r)"

text \<open>\<open>First\<close>, where a missing row is the zero value.\<close>

definition first_or :: "env \<Rightarrow> (db \<Rightarrow> 'a option) \<Rightarrow> 'a \<Rightarrow> (world, 'a) action" where
  "first_or E f z =
     and_then (try_result (db_query E (\<lambda>d. case f d of None \<Rightarrow> Inl ErrRecordNotFound | Some c \<Rightarrow> Inr c))) (\<lambda>r.
       case r of
         Inr c \<Rightarrow> return_ok c
       | Inl e \<Rightarrow> if e = ErrRecordNotFound then return_ok z else return_err e)"

definition Sync :: "env \<Rightarrow> btx \<Rightarrow> (world, btx) action" where
  "Sync E tx = db_query E (first_transaction (tx_ID tx))"

definition GetTransactionByID :: "env \<Rightarrow> nat \<Rightarrow> (world, btx) action" where
  "GetTransactionByID E i = db_query E (first_transaction i)"

definition page :: "nat \<Rightarrow> nat \<Rightarrow> 'a list \<Rightarrow> 'a list" where
  "page offset limit rows = take limit (drop offset rows)"

definition transactions_with_status :: "env \<Rightarrow> tx_status \<Rightarrow> nat \<Rightarrow> nat \<Rightarrow> (world, btx list) action" where
  "transactions_with_status E status offset limit =
     db_query E (\<lambda>d. Inr (page offset limit
       (filter (\<lambda>r. tx_Status r = status) (db_transactions d))))"

definition GetPendingTransactions :: "env \<Rightarrow> nat \<Rightarrow> nat \<Rightarrow> (world, btx list) action" where
  "GetPendingTransactions E = transactions_with_status E TransactionStatusPending"

definition GetBroadcastingTransactions :: "env \<Rightarrow> nat \<Rightarrow> nat \<Rightarrow> (world, btx list) action" where
  "GetBroadcastingTransactions E = transactions_with_status E TransactionStatusBroadcasting"

definition GetSentTransactions :: "env \<Rightarrow> nat \<Rightarrow> nat \<Rightarrow> (world, btx list) action" where
  "GetSentTransactions E = transactions_with_status E TransactionStatusSent"

definition GetSentTransactionCountByNetwork :: "env \<Rightarrow> string \<Rightarrow> (world, nat) action" where
  "GetSentTransactionCountByNetwork E network =
     db_query E (\<lambda>d. Inr (length (filter (\<lambda>r. tx_Network r = network \<and>
        tx_Status r \<in> {TransactionStatusSent, TransactionStatusBroadcasting}) (db_transactions d))))"

definition GetBroadcastingTransactionCountByNetwork :: "env \<Rightarrow> string \<Rightarrow> (world, nat) action" where
  "GetBroadcastingTransactionCountByNetwork E network =
     db_query E (\<lambda>d. Inr (length (filter (\<lambda>r. tx_Network r = network \<and>
        tx_Status r = TransactionStatusBroadcasting) (db_transactions d))))"

definition GetTransactionByHash :: "env \<Rightarrow> string \<Rightarrow> (world, btx) action" where
  "GetTransactionByHash E txHash =
     db_query E (\<lambda>d. case find (\<lambda>r. tx_TxHash r = Some txHash) (db_transactions d) of
        None \<Rightarrow> Inl ErrRecordNotFound | Some r \<Rightarrow> Inr r)"

definition GetRetryTransactionsByID :: "env \<Rightarrow> nat \<Rightarrow> (world, btx list) action" where
  "GetRetryTransactionsByID E i = db_query E (\<lambda>d. Inr (retry_rows i (db_transactions d)))"

definition ListTransactionChain :: "env \<Rightarrow> nat \<Rightarrow> (world, btx list) action" where
  "ListTransactionChain E rootID =
     and_then (GetTransactionByID E rootID) (\<lambda>root.
     and_then (GetRetryTransactionsByID E rootID) (\<lambda>retries.
       return_ok (root # retries)))"

section \<open>Writing\<close>

text \<open>\<open>db.Save\<close>: insert a row without a key, else write the whole row back.\<close>

definition Save :: "env \<Rightarrow> btx \<Rightarrow> (world, btx) action" where
  "Save E tx =
     db_action E (\<lambda>d.
       if tx_ID tx = 0 then
         (Inr (tx\<lparr>tx_ID := db_next_transaction_id d\<rparr>), insert_transaction tx d)
       else (Inr tx, update_transactions (\<lambda>r. tx_ID r = tx_ID tx) (\<lambda>_. tx) d))"

definition RecoverLegacySendingTransactions :: "env \<Rightarrow> (world, unit) action" where
  "RecoverLegacySendingTransactions E =
     db_transaction E
       (and_then (db_update E recover_pending_guard recover_pending_set) (\<lambda>_.
        and_then (time_now E) (\<lambda>now.
        and_then (db_update E recover_cancelled_guard (recover_cancelled_set now)) (\<lambda>_.
          return_ok ()))))"

definition MarkSent :: "env \<Rightarrow> btx \<Rightarrow> (world, bool \<times> btx) action" where
  "MarkSent E tx =
     (if tx_ID tx = 0 then return_err ErrRecordNotFound
      else and_then (time_now E) (\<lambda>sentAt.
        and_then (db_update E (mark_sent_guard (tx_ID tx)) (mark_sent_set sentAt)) (\<lambda>n.
          if n = 0 then
            and_then (Sync E tx) (\<lambda>tx. return_ok (tx_Status tx = TransactionStatusSent, tx))
          else return_ok (True,
            tx\<lparr>tx_Status := TransactionStatusSent, tx_SentAt := Some sentAt\<rparr>))))"

text \<open>The ancestor loop of \<open>ClaimForSending\<close>.\<close>

fun ancestors_safe :: "nat \<Rightarrow> btx list \<Rightarrow> bool" where
  "ancestors_safe i [] = True"
| "ancestors_safe i (ancestor # rest) =
     (if tx_ID ancestor = i then True
      else if \<not> IsProvenOnChainFailure ancestor then False
      else ancestors_safe i rest)"

definition ClaimForSending :: "env \<Rightarrow> btx \<Rightarrow> (world, bool \<times> btx) action" where
  "ClaimForSending E tx =
     (if tx_ID tx = 0 then return_err ErrRecordNotFound
      else db_transaction E
        (and_then
           (case tx_RetryTransactionID tx of
              None \<Rightarrow> return_ok ()
            | Some root \<Rightarrow> and_then (ListTransactionChain E root) (\<lambda>chain.
                if ancestors_safe (tx_ID tx) chain then return_ok ()
                else return_err ErrRetryAncestorsUnsafe))
           (\<lambda>_. and_then (db_update E (claim_guard (tx_ID tx)) claim_set) (\<lambda>n.
             if n = 0 then return_ok (False, tx)
             else return_ok (True, tx\<lparr>tx_Status := TransactionStatusSending\<rparr>)))))"

definition ReleaseSending :: "env \<Rightarrow> btx \<Rightarrow> string \<Rightarrow> (world, btx) action" where
  "ReleaseSending E tx errorMsg =
     (if tx_ID tx = 0 then return_err ErrRecordNotFound
      else and_then (time_now E) (\<lambda>now.
        and_then (db_update E (release_guard (tx_ID tx)) (release_set now errorMsg)) (\<lambda>n.
          if n > 0 then Sync E tx else return_ok tx)))"

text \<open>The unique index on \<open>tx_hash\<close> rejects a hash another row has.\<close>

definition prepare_statement ::
  "nat \<Rightarrow> string \<Rightarrow> int \<Rightarrow> string \<Rightarrow> db \<Rightarrow> (go_error + nat) \<times> db" where
  "prepare_statement i txHash nonce signedRawTx d =
     (let n = rows_affected (prepare_guard i) (db_transactions d) in
      if n > 0 \<and> (\<exists>r \<in> set (db_transactions d). tx_TxHash r = Some txHash)
      then (Inl ErrDuplicatedKey, d)
      else (Inr n, update_transactions (prepare_guard i) (prepare_set txHash nonce signedRawTx) d))"

definition PrepareBroadcast ::
  "env \<Rightarrow> btx \<Rightarrow> string \<Rightarrow> int \<Rightarrow> string \<Rightarrow> (world, bool \<times> btx) action" where
  "PrepareBroadcast E tx txHash nonce signedRawTx =
     (if tx_ID tx = 0 then return_err ErrRecordNotFound
      else if txHash = [] \<or> signedRawTx = [] then
        return_err (ErrorsNew ''broadcast payload is incomplete'')
      else and_then (db_action E (prepare_statement (tx_ID tx) txHash nonce signedRawTx)) (\<lambda>n.
        if n = 0 then and_then (Sync E tx) (\<lambda>tx. return_ok (False, tx))
        else return_ok (True, prepare_set txHash nonce signedRawTx tx)))"

definition RequestCancellation :: "env \<Rightarrow> btx \<Rightarrow> string \<Rightarrow> (world, bool \<times> btx) action" where
  "RequestCancellation E tx reason =
     (if tx_ID tx = 0 then return_err ErrRecordNotFound
      else and_then (time_now E) (\<lambda>requestedAt.
        and_then (db_update E (request_cancellation_guard (tx_ID tx))
                   (request_cancellation_set requestedAt reason)) (\<lambda>n.
          if n = 0 then return_ok (False, tx)
          else return_ok (True, request_cancellation_set requestedAt reason tx))))"

definition CancelRequestedUnbroadcasted :: "env \<Rightarrow> btx \<Rightarrow> (world, bool \<times> btx) action" where
  "CancelRequestedUnbroadcasted E tx =
     (if tx_ID tx = 0 then return_err ErrRecordNotFound
      else and_then (time_now E) (\<lambda>now.
        and_then (db_update E (cancel_guard (tx_ID tx)) (cancel_set now)) (\<lambda>n.
          if n = 0 then return_ok (False, tx) else return_ok (True, cancel_set now tx))))"

definition MarkConfirmed ::
  "env \<Rightarrow> btx \<Rightarrow> int \<Rightarrow> int \<Rightarrow> string \<Rightarrow> (world, bool \<times> btx) action" where
  "MarkConfirmed E tx blockNumber gasUsed effectiveGasPrice =
     (if tx_ID tx = 0 then return_err ErrRecordNotFound
      else and_then (time_now E) (\<lambda>confirmedAt.
        and_then (db_update E (mark_confirmed_guard (tx_ID tx))
                   (mark_confirmed_set confirmedAt blockNumber gasUsed effectiveGasPrice)) (\<lambda>n.
          if n = 0 then
            and_then (Sync E tx) (\<lambda>tx. return_ok (tx_Status tx = TransactionStatusConfirmed, tx))
          else return_ok (True,
            mark_confirmed_set confirmedAt blockNumber gasUsed effectiveGasPrice tx))))"

text \<open>
  \<open>Update\<close> and \<open>MarkFailed\<close> write without a condition on the status; no goroutine of the program calls
  them any more.
\<close>

definition Update :: "env \<Rightarrow> btx \<Rightarrow> (btx \<Rightarrow> btx) \<Rightarrow> (world, unit) action" where
  "Update E tx values =
     (if tx_ID tx = 0 then return_err ErrRecordNotFound
      else and_then (db_update E (\<lambda>r. tx_ID r = tx_ID tx) values) (\<lambda>_. return_ok ()))"

definition MarkFailed ::
  "env \<Rightarrow> btx \<Rightarrow> int \<Rightarrow> int \<Rightarrow> string \<Rightarrow> string \<Rightarrow> (world, unit) action" where
  "MarkFailed E tx blockNumber gasUsed effectiveGasPrice errorMsg =
     and_then (time_now E) (\<lambda>failedAt.
       Update E tx (mark_failed_set failedAt blockNumber gasUsed effectiveGasPrice errorMsg))"

definition MarkFailedFromSent ::
  "env \<Rightarrow> btx \<Rightarrow> int \<Rightarrow> int \<Rightarrow> string \<Rightarrow> string \<Rightarrow> (world, bool \<times> btx) action" where
  "MarkFailedFromSent E tx blockNumber gasUsed effectiveGasPrice errorMsg =
     (if tx_ID tx = 0 then return_err ErrRecordNotFound
      else and_then (time_now E) (\<lambda>failedAt.
        and_then (db_update E (mark_failed_guard (tx_ID tx))
                   (mark_failed_set failedAt blockNumber gasUsed effectiveGasPrice errorMsg)) (\<lambda>n.
          if n = 0 then return_ok (False, tx)
          else return_ok (True,
            mark_failed_set failedAt blockNumber gasUsed effectiveGasPrice errorMsg tx))))"

definition MarkReceiptDelayed :: "env \<Rightarrow> btx \<Rightarrow> (world, bool \<times> btx) action" where
  "MarkReceiptDelayed E tx =
     (if tx_ID tx = 0 then return_err ErrRecordNotFound
      else and_then (db_update E (mark_delayed_guard (tx_ID tx)) mark_delayed_set) (\<lambda>n.
        if n = 0 then return_ok (False, tx) else return_ok (True, mark_delayed_set tx)))"

definition CreateRetryTransaction :: "env \<Rightarrow> btx \<Rightarrow> (world, unit) action" where
  "CreateRetryTransaction E tx =
     (case blockchain_of (env_cfg E) (tx_Network tx) of
        None \<Rightarrow> return_err (ErrorsNew (''network '' @ tx_Network tx @ '' not found''))
      | Some blockchain \<Rightarrow>
          and_then (time_now E) (\<lambda>now.
          and_then (Save E (retry_transaction (now + go_seconds (bc_RetryInterval blockchain)) tx))
            (\<lambda>_. return_ok ())))"

section \<open>Every operation keeps the invariant and only extends the table\<close>

text \<open>
  The invariant of the world: the table invariant; the client kept for a network is the one of that
  network; and every transaction handed to a node is the signed payload of a row, which the row
  keeps for ever.
\<close>

definition recorded :: "ethlib \<Rightarrow> db \<Rightarrow> string \<Rightarrow> signed_tx \<Rightarrow> bool" where
  "recorded L d network signedTx \<longleftrightarrow>
     (\<exists>r \<in> set (db_transactions d). tx_Network r = network \<and>
        (\<exists>x raw. tx_SignedRawTx r = Some x \<and> eth_Decode L x = Inr raw \<and>
           eth_UnmarshalBinary L raw = Inr signedTx))"

definition clients_ok :: "world \<Rightarrow> bool" where
  "clients_ok w \<longleftrightarrow> (\<forall>n c. w_clients w n = Some c \<longrightarrow> cl_Network c = n)"

definition sends_recorded :: "ethlib \<Rightarrow> world \<Rightarrow> bool" where
  "sends_recorded L w \<longleftrightarrow>
     (\<forall>n s. SendRaw n s \<in> set (w_calls w) \<longrightarrow> recorded L (w_db w) n s)"

definition world_ok :: "ethlib \<Rightarrow> world \<Rightarrow> bool" where
  "world_ok L w \<longleftrightarrow> table_ok (w_db w) \<and> clients_ok w \<and> sends_recorded L w"

text \<open>\<open>grown_from L d0\<close>: the invariant holds and the table has grown out of the one of \<open>d0\<close>.\<close>

definition grown_from :: "ethlib \<Rightarrow> db \<Rightarrow> world \<Rightarrow> bool" where
  "grown_from L d0 w \<longleftrightarrow> world_ok L w \<and> txs_le d0 (w_db w)"

text \<open>Memory that a database statement leaves alone.\<close>

definition unchanged :: "ext_call list \<Rightarrow> (string \<rightharpoonup> client) \<Rightarrow> world \<Rightarrow> bool" where
  "unchanged cs cl w \<longleftrightarrow> w_calls w = cs \<and> w_clients w = cl"

named_theorems grows \<open>actions that keep \<open>grown_from\<close>\<close>
named_theorems silent \<open>actions that keep \<open>unchanged\<close>\<close>

lemma grown_from_self: "world_ok L w \<Longrightarrow> grown_from L (w_db w) w"
  by (simp add: grown_from_def)

lemma recorded_mono:
  assumes "txs_le d d'" and "recorded L d n s"
  shows "recorded L d' n s"
proof -
  from assms(2) obtain r x raw where r: "r \<in> set (db_transactions d)" "tx_Network r = n"
    "tx_SignedRawTx r = Some x" "eth_Decode L x = Inr raw" "eth_UnmarshalBinary L raw = Inr s"
    by (auto simp: recorded_def)
  with assms(1) obtain r' where "r' \<in> set (db_transactions d')" "row_le r r'"
    by (blast dest: txs_leD(1))
  with r show ?thesis by (auto simp: recorded_def row_le_def payment_def)
qed

lemma world_ok_after:
  assumes "world_ok L w" and "table_ok (w_db w')" and "txs_le (w_db w) (w_db w')"
    and "unchanged (w_calls w) (w_clients w) w'"
  shows "world_ok L w'"
  using assms recorded_mono
  by (fastforce simp: world_ok_def clients_ok_def sends_recorded_def unchanged_def)

lemma grown_from_after:
  "grown_from L d0 w \<Longrightarrow> table_ok (w_db w') \<Longrightarrow> txs_le (w_db w) (w_db w') \<Longrightarrow>
   unchanged (w_calls w) (w_clients w) w' \<Longrightarrow> grown_from L d0 w'"
  by (auto simp: grown_from_def intro: world_ok_after txs_le_trans)

text \<open>An action that grows the table and leaves the memory alone keeps the whole invariant.\<close>

lemma grows_if_silent:
  assumes db: "\<And>d1. txs_le d0 d1 \<Longrightarrow> keeps (\<lambda>w. table_ok (w_db w) \<and> txs_le d1 (w_db w)) m"
    and still: "\<And>cs cl. keeps (unchanged cs cl) m"
  shows "keeps (grown_from L d0) m"
  unfolding keeps_def
proof (intro allI impI)
  fix w assume g: "grown_from L d0 w"
  then have "table_ok (w_db w)" "txs_le d0 (w_db w)" by (simp_all add: grown_from_def world_ok_def)
  then have "table_ok (w_db (snd (m w))) \<and> txs_le (w_db w) (w_db (snd (m w)))"
    using db [of "w_db w"] by (simp add: keeps_def)
  moreover have "unchanged (w_calls w) (w_clients w) (snd (m w))"
    using still [of "w_calls w" "w_clients w"] by (simp add: keeps_def unchanged_def)
  ultimately show "grown_from L d0 (snd (m w))"
    using g by (blast intro: grown_from_after)
qed

lemma silent_primitives [silent]:
  "keeps (unchanged cs cl) (ask f)" "keeps (unchanged cs cl) (ask_unit g)"
  "keeps (unchanged cs cl) (time_now E)" "keeps (unchanged cs cl) (sleep E)"
  "keeps (unchanged cs cl) (db_action E h)" "keeps (unchanged cs cl) (db_query E k)"
  "keeps (unchanged cs cl) (db_update E u v)"
  by (auto simp: keeps_def ask_def ask_unit_def time_now_def sleep_def db_action_def db_query_def
      db_update_def unchanged_def Let_def split: option.splits prod.splits)

lemma silent_transaction [silent]:
  assumes "keeps (unchanged cs cl) m"
  shows "keeps (unchanged cs cl) (db_transaction E m)"
proof -
  have "unchanged cs cl (snd (commit_or_rollback E t0 d0 (m (w\<lparr>w_in_tx := True\<rparr>))))"
    if "unchanged cs cl w" for w t0 d0
  proof -
    have "unchanged cs cl (snd (m (w\<lparr>w_in_tx := True\<rparr>)))"
      using assms that by (simp add: keeps_def unchanged_def)
    then show ?thesis
      by (auto simp: commit_or_rollback_def rollback_def unchanged_def
          split: prod.split sum.split option.split)
  qed
  then show ?thesis
    unfolding db_transaction_def by (intro keeps_and_then silent) (simp add: keeps_def)
qed

lemma grows_primitives [grows]:
  "keeps (grown_from L d0) (ask f)" "keeps (grown_from L d0) (ask_unit g)"
  "keeps (grown_from L d0) (time_now E)" "keeps (grown_from L d0) (sleep E)"
  "keeps (grown_from L d0) (db_query E h)"
  by (intro grows_if_silent silent grown.keeps_primitives)+

lemma grows_tell [grows]:
  "(\<And>n s. c \<noteq> SendRaw n s) \<Longrightarrow> keeps (grown_from L d0) (tell c)"
  by (auto simp: keeps_def tell_def writes_def grown_from_def world_ok_def clients_ok_def
      sends_recorded_def)

lemma grows_alert [grows]: "keeps (grown_from L d0) (tell (Alert task msg))"
  by (rule grows_tell) simp

text \<open>
  Inside a database transaction nothing is sent to a node: a rollback would take back the row the
  payload is recorded in.
\<close>

lemma grows_transaction [grows]:
  assumes "\<And>d1. txs_le d0 d1 \<Longrightarrow> keeps (grown_from L d1) m"
    and "\<And>cs cl. keeps (unchanged cs cl) m"
  shows "keeps (grown_from L d0) (db_transaction E m)"
  unfolding keeps_def
proof (intro allI impI)
  fix w assume g: "grown_from L d0 w"
  let ?I = "\<lambda>v. grown_from L (w_db w) v \<and> unchanged (w_calls w) (w_clients w) v"
  have le: "txs_le d0 (w_db w)" using g by (simp add: grown_from_def)
  have start: "?I w" using g by (simp add: grown_from_def unchanged_def)
  have undo: "?I (rollback E t0 (w_db v) u)" if "?I v" "unchanged (w_calls w) (w_clients w) u" for t0 u v
  proof -
    have "table_ok (w_db (rollback E t0 (w_db v) u))"
      "txs_le (w_db v) (w_db (rollback E t0 (w_db v) u))"
      using grown.rollback_keeps [of "w_db v" "w_db v" E t0 u] that(1)
      by (simp_all add: grown_from_def world_ok_def)
    moreover have "unchanged (w_calls w) (w_clients w) (rollback E t0 (w_db v) u)"
      using that(2) by (simp add: rollback_def unchanged_def)
    ultimately show ?thesis
      using that(1) by (auto simp: unchanged_def intro: grown_from_after)
  qed
  have "keeps ?I (db_transaction E m)"
    unfolding db_transaction_def
  proof (rule keeps_and_then)
    show "keeps ?I (db_query E (\<lambda>_. Inr ()))"
      using grows_primitives(5) silent_primitives(6) unfolding keeps_def by blast
    fix x
    have "?I (snd (commit_or_rollback E (w_tick v) (w_db v) (m (v\<lparr>w_in_tx := True\<rparr>))))"
      if v: "?I v" for v
    proof -
      have "?I (v\<lparr>w_in_tx := True\<rparr>)"
        using v by (simp add: grown_from_def unchanged_def world_ok_def clients_ok_def sends_recorded_def)
      then have m: "?I (snd (m (v\<lparr>w_in_tx := True\<rparr>)))"
        using assms(1) [OF le] assms(2) by (simp add: keeps_def)
      show ?thesis
      proof (cases "m (v\<lparr>w_in_tx := True\<rparr>)")
        case (Pair r u)
        with m have u: "?I u" by simp
        then have "?I (u\<lparr>w_in_tx := False, w_tick := t\<rparr>)" "unchanged (w_calls w) (w_clients w) (u\<lparr>w_tick := t\<rparr>)" for t
          by (simp_all add: grown_from_def unchanged_def world_ok_def clients_ok_def sends_recorded_def)
        with Pair u v undo show ?thesis
          by (auto simp: commit_or_rollback_def split: sum.split option.split)
      qed
    qed
    then show "keeps ?I (\<lambda>w. commit_or_rollback E (w_tick w) (w_db w) (m (w\<lparr>w_in_tx := True\<rparr>)))"
      by (simp add: keeps_def)
  qed
  then have "grown_from L (w_db w) (snd (db_transaction E m w))"
    using start by (simp add: keeps_def)
  with g show "grown_from L d0 (snd (db_transaction E m w))"
    by (auto simp: grown_from_def intro: txs_le_trans)
qed

lemma grows_db_action:
  assumes "\<And>d. table_ok d \<Longrightarrow> table_ok (snd (f d)) \<and> txs_le d (snd (f d))"
  shows "keeps (grown_from L d0) (db_action E f)"
  by (intro grows_if_silent silent grown.keeps_db_action) (use assms in \<open>auto intro: txs_le_trans\<close>)

lemma grows_db_update [grows]:
  assumes "quiet_update g u"
  shows "keeps (grown_from L d0) (db_update E g u)"
proof -
  have "row_update g u" using assms by (simp add: quiet_update_def)
  then show ?thesis
    unfolding db_update_def
    by (intro grows_db_action) (simp add: table_ok_def row_update.txs_ok_after
        row_update.txs_le_after quiet_update.ancestors_ok_after [OF assms])
qed

lemmas quiet_updates [grows] =
  release.quiet_update_axioms prepare.quiet_update_axioms request_cancellation.quiet_update_axioms
  cancel.quiet_update_axioms mark_sent.quiet_update_axioms mark_confirmed.quiet_update_axioms
  mark_failed.quiet_update_axioms mark_delayed.quiet_update_axioms
  recover_pending.quiet_update_axioms recover_cancelled.quiet_update_axioms

lemma grows_prepare_statement [grows]:
  "keeps (grown_from L d0) (db_action E (prepare_statement i h n x))"
  by (rule grows_db_action)
    (auto simp: prepare_statement_def Let_def table_ok_def prepare.txs_ok_after prepare.txs_le_after
      prepare.ancestors_ok_after)

lemma grows_reads [grows]:
  "keeps (grown_from L d0) (Sync E tx)"
  "keeps (grown_from L d0) (GetTransactionByID E i)"
  "keeps (grown_from L d0) (transactions_with_status E st off lim)"
  "keeps (grown_from L d0) (GetSentTransactionCountByNetwork E n)"
  "keeps (grown_from L d0) (GetBroadcastingTransactionCountByNetwork E n)"
  "keeps (grown_from L d0) (GetRetryTransactionsByID E i)"
  by (auto simp: Sync_def GetTransactionByID_def transactions_with_status_def
      GetSentTransactionCountByNetwork_def GetBroadcastingTransactionCountByNetwork_def
      GetRetryTransactionsByID_def intro: grows)

lemma grows_ListTransactionChain [grows]: "keeps (grown_from L d0) (ListTransactionChain E i)"
  unfolding ListTransactionChain_def by (intro safe grows)

lemma grows_Recover [grows]: "keeps (grown_from L d0) (RecoverLegacySendingTransactions E)"
  unfolding RecoverLegacySendingTransactions_def by (intro safe grows silent)

lemma grows_MarkSent [grows]: "keeps (grown_from L d0) (MarkSent E tx)"
  unfolding MarkSent_def by (intro safe grows)

lemma grows_ReleaseSending [grows]: "keeps (grown_from L d0) (ReleaseSending E tx msg)"
  unfolding ReleaseSending_def by (intro safe grows)

lemma grows_PrepareBroadcast [grows]: "keeps (grown_from L d0) (PrepareBroadcast E tx h n x)"
  unfolding PrepareBroadcast_def by (intro safe grows)

lemma grows_RequestCancellation [grows]: "keeps (grown_from L d0) (RequestCancellation E tx msg)"
  unfolding RequestCancellation_def by (intro safe grows)

lemma grows_CancelRequestedUnbroadcasted [grows]:
  "keeps (grown_from L d0) (CancelRequestedUnbroadcasted E tx)"
  unfolding CancelRequestedUnbroadcasted_def by (intro safe grows)

lemma grows_MarkConfirmed [grows]: "keeps (grown_from L d0) (MarkConfirmed E tx b g p)"
  unfolding MarkConfirmed_def by (intro safe grows)

lemma grows_MarkFailedFromSent [grows]: "keeps (grown_from L d0) (MarkFailedFromSent E tx b g p msg)"
  unfolding MarkFailedFromSent_def by (intro safe grows)

lemma grows_MarkReceiptDelayed [grows]: "keeps (grown_from L d0) (MarkReceiptDelayed E tx)"
  unfolding MarkReceiptDelayed_def by (intro safe grows)

lemma table_ok_insert_root:
  assumes "table_ok d" and "fresh_row tx" and "tx_RetryTransactionID tx = None"
  shows "table_ok (insert_transaction tx d) \<and> txs_le d (insert_transaction tx d)"
proof -
  have "txs_ok d" "db_started d" "ancestors_ok d" "ids_ok d"
    using assms(1) by (simp_all add: table_ok_def txs_ok_def)
  moreover have "tx_Status tx = TransactionStatusPending" using assms(2) by (simp add: fresh_row_def)
  ultimately show ?thesis
    using assms(2,3) insert_root_ok ancestors_ok_insert insert_root_le
    by (simp add: table_ok_def) (simp add: db_started_def)
qed

lemma grows_Save_root:
  "tx_ID tx = 0 \<Longrightarrow> fresh_row tx \<Longrightarrow> tx_RetryTransactionID tx = None \<Longrightarrow>
   keeps (grown_from L d0) (Save E tx)"
  unfolding Save_def by (rule grows_db_action) (simp add: table_ok_insert_root)

text \<open>What a committed transaction returned, its body returned on the state it committed.\<close>

lemma db_transaction_commits:
  assumes "db_transaction E m w = (Inr x, w')"
  obtains v u where "m v = (Inr x, u)" "w' = u\<lparr>w_in_tx := False, w_tick := Suc (w_tick u)\<rparr>"
    "v = (snd (db_query E (\<lambda>_. Inr () :: go_error + unit) w))\<lparr>w_in_tx := True\<rparr>"
proof -
  obtain v where v: "db_query E (\<lambda>_. Inr () :: go_error + unit) w = (Inr (), v)"
    "commit_or_rollback E (w_tick v) (w_db v) (m (v\<lparr>w_in_tx := True\<rparr>)) = (Inr x, w')"
    using assms by (auto simp: db_transaction_def and_then_def split: prod.splits sum.splits)
  moreover obtain r u where "m (v\<lparr>w_in_tx := True\<rparr>) = (r, u)" by fastforce
  ultimately have "r = Inr x" "w' = u\<lparr>w_in_tx := False, w_tick := Suc (w_tick u)\<rparr>"
    by (auto simp: commit_or_rollback_def split: sum.splits option.splits)
  with \<open>m (v\<lparr>w_in_tx := True\<rparr>) = (r, u)\<close> v(1) show ?thesis by (intro that) simp_all
qed

lemma db_transaction_ok:
  assumes "db_transaction E m w = (Inr x, w')"
  obtains v u where "m v = (Inr x, u)" "w_db w' = w_db u"
    "v = (snd (db_query E (\<lambda>_. Inr () :: go_error + unit) w))\<lparr>w_in_tx := True\<rparr>"
  using assms by (rule db_transaction_commits) (auto intro: that)

section \<open>Facts that last\<close>

text \<open>A fact about the table that growing it cannot destroy survives every such action.\<close>

definition lasting :: "(db \<Rightarrow> bool) \<Rightarrow> bool" where
  "lasting F \<longleftrightarrow> (\<forall>d d'. table_ok d \<longrightarrow> table_ok d' \<longrightarrow> txs_le d d' \<longrightarrow> F d \<longrightarrow> F d')"

lemma lasting_conj: "lasting F \<Longrightarrow> lasting G \<Longrightarrow> lasting (\<lambda>d. F d \<and> G d)"
  unfolding lasting_def by blast

lemma lasting_txs_le: "lasting (txs_le d0)"
  unfolding lasting_def by (blast intro: txs_le_trans)

lemma grows_lasting:
  assumes m: "\<And>d1. txs_le d0 d1 \<Longrightarrow> keeps (grown_from L d1) m" and F: "lasting F"
  shows "keeps (\<lambda>w. grown_from L d0 w \<and> F (w_db w)) m"
  unfolding keeps_def
proof (intro allI impI)
  fix w assume w: "grown_from L d0 w \<and> F (w_db w)"
  then have "grown_from L (w_db w) w" and le: "txs_le d0 (w_db w)" and ok: "table_ok (w_db w)"
    by (simp_all add: grown_from_def world_ok_def)
  then have "grown_from L (w_db w) (snd (m w))"
    using m by (simp add: keeps_def)
  with w le ok F show "grown_from L d0 (snd (m w)) \<and> F (w_db (snd (m w)))"
    by (auto simp: grown_from_def world_ok_def lasting_def intro: txs_le_trans)
qed

text \<open>Going on after an action, with a lasting fact about what it returned.\<close>

lemma grows_then:
  assumes m: "keeps (grown_from L d0) m"
    and K: "triple (grown_from L d0) m (\<lambda>x w. K x (w_db w)) (\<lambda>_ _. True)"
    and f: "\<And>x d1. txs_le d0 d1 \<Longrightarrow> K x d1 \<Longrightarrow> keeps (grown_from L d1) (f x)"
  shows "keeps (grown_from L d0) (and_then m f)"
  unfolding keeps_def
proof (intro allI impI)
  fix w assume w: "grown_from L d0 w"
  obtain r v where run: "m w = (r, v)" by (cases "m w")
  have v: "grown_from L d0 v" using keepsD [OF m w run] .
  show "grown_from L d0 (snd (and_then m f w))"
  proof (cases r)
    case (Inl e)
    with run v show ?thesis by (simp add: and_then_def)
  next
    case (Inr x)
    with run have "K x (w_db v)" using tripleD_ok [OF K w] by simp
    moreover have le: "txs_le d0 (w_db v)" and "grown_from L (w_db v) v"
      using v by (simp_all add: grown_from_def)
    ultimately have "grown_from L (w_db v) (snd (f x v))"
      using f by (simp add: keeps_def)
    with le run Inr show ?thesis
      by (auto simp: and_then_def grown_from_def intro: txs_le_trans)
  qed
qed

text \<open>What a query returns holds of the table it leaves.\<close>

lemma query_triple:
  assumes "\<And>d x. table_ok d \<Longrightarrow> txs_le d0 d \<Longrightarrow> F d \<Longrightarrow> f d = Inr x \<Longrightarrow> Q x d"
    and F: "lasting F"
  shows "triple (\<lambda>w. grown_from L d0 w \<and> F (w_db w)) (db_query E f)
     (\<lambda>x w. grown_from L d0 w \<and> F (w_db w) \<and> Q x (w_db w)) (\<lambda>_. grown_from L d0)"
  unfolding triple_def
proof (intro allI impI)
  fix w r t assume w: "grown_from L d0 w \<and> F (w_db w)" and run: "db_query E f w = (r, t)"
  have "grown_from L d0 t \<and> F (w_db t)"
    using keepsD [OF grows_lasting [OF grows_primitives(5) F] w run] .
  moreover have "r = Inl e \<or> r = f (w_db t)" if "env_db_fault E (w_tick w) = Some e" for e
    using run that by (auto simp: db_query_def db_action_def Let_def)
  moreover have "r = f (w_db t)" if "env_db_fault E (w_tick w) = None"
    using run that by (auto simp: db_query_def db_action_def Let_def)
  ultimately show "case r of Inl e \<Rightarrow> grown_from L d0 t
      | Inr x \<Rightarrow> grown_from L d0 t \<and> F (w_db t) \<and> Q x (w_db t)"
    using assms(1) [of "w_db t"]
    by (cases "env_db_fault E (w_tick w)") (auto simp: grown_from_def world_ok_def split: sum.split)
qed

text \<open>
  A statement that may do more than grow the table it sees, as long as no row is lost and the table
  has grown out of the one the caller started from.
\<close>

lemma db_action_triple:
  assumes F: "lasting F"
    and f: "\<And>d r d'. table_ok d \<Longrightarrow> txs_le d0 d \<Longrightarrow> F d \<Longrightarrow> f d = (r, d') \<Longrightarrow>
      table_ok d' \<and> txs_le d0 d' \<and> (\<forall>q \<in> set (db_transactions d). \<exists>q' \<in> set (db_transactions d'). row_le q q') \<and>
      (case r of Inl e \<Rightarrow> True | Inr x \<Rightarrow> Q x d')"
  shows "triple (\<lambda>w. grown_from L d0 w \<and> F (w_db w)) (db_action E f)
     (\<lambda>x w. grown_from L d0 w \<and> Q x (w_db w)) (\<lambda>_. grown_from L d0)"
  unfolding triple_def
proof (intro allI impI)
  fix w r t assume w: "grown_from L d0 w \<and> F (w_db w)" and run: "db_action E f w = (r, t)"
  let ?d = "seen_db E w"
  have ok: "table_ok (w_db w)" "txs_le d0 (w_db w)" using w by (simp_all add: grown_from_def world_ok_def)
  then have d: "table_ok ?d" "txs_le (w_db w) ?d"
    using grown.seen_db_keeps [of w "w_db w" E] by simp_all
  then have d0: "txs_le d0 ?d" "F ?d"
    using ok w F by (auto simp: lasting_def intro: txs_le_trans)
  have still: "unchanged (w_calls w) (w_clients w) t"
    using silent_primitives(5) run unfolding keeps_def by (metis snd_conv unchanged_def)
  have rec: "recorded L d' n s" if "recorded L ?d n s"
    and "\<forall>q \<in> set (db_transactions ?d). \<exists>q' \<in> set (db_transactions d'). row_le q q'" for n s d'
  proof -
    from that(1) obtain q x raw where q: "q \<in> set (db_transactions ?d)" "tx_Network q = n"
      "tx_SignedRawTx q = Some x" "eth_Decode L x = Inr raw" "eth_UnmarshalBinary L raw = Inr s"
      by (auto simp: recorded_def)
    with that(2) obtain q' where "q' \<in> set (db_transactions d')" "row_le q q'" by blast
    with q show ?thesis by (auto simp: recorded_def row_le_def payment_def)
  qed
  have "\<forall>n s. SendRaw n s \<in> set (w_calls w) \<longrightarrow> recorded L ?d n s"
    using w d(2) recorded_mono by (auto simp: grown_from_def world_ok_def sends_recorded_def)
  with still w have next_ok: "grown_from L d0 t" if "table_ok (w_db t)" "txs_le d0 (w_db t)"
    "\<forall>q \<in> set (db_transactions ?d). \<exists>q' \<in> set (db_transactions (w_db t)). row_le q q'"
    using that rec [of _ _ "w_db t"]
    by (simp add: grown_from_def world_ok_def clients_ok_def sends_recorded_def unchanged_def)
  show "case r of Inl e \<Rightarrow> grown_from L d0 t | Inr x \<Rightarrow> grown_from L d0 t \<and> Q x (w_db t)"
  proof (cases "env_db_fault E (w_tick w)")
    case (Some e)
    with run have t: "r = Inl e" "w_db t = ?d" by (auto simp: db_action_def Let_def)
    then have "grown_from L d0 t" using d(1) d0(1) by (intro next_ok) auto
    with t show ?thesis by simp
  next
    case None
    with run have "f ?d = (r, w_db t)"
      by (auto simp: db_action_def Let_def split: prod.splits)
    note post = f [OF d(1) d0 this]
    then have "grown_from L d0 t" by (intro next_ok) simp_all
    with post show ?thesis by (auto split: sum.splits)
  qed
qed

end
