(* ===== verification/Tx_Claim.thy ===== *)
theory Tx_Claim
  imports Tx_Store
begin

text \<open>
  \<open>ClaimForSending\<close> against the other goroutines: the chain it reads is read in two queries, other
  goroutines write between them and before the update, and still a row it claims has only ancestors
  that are proven to have failed on chain.
\<close>

section \<open>Rows held in memory\<close>

text \<open>A row in memory agrees with its row in the table in what never changes.\<close>

definition knows :: "btx \<Rightarrow> db \<Rightarrow> bool" where
  "knows tx d \<longleftrightarrow> (\<exists>r \<in> set (db_transactions d). identity r = identity tx \<and> payment r = payment tx \<and>
     (\<forall>x. tx_SignedRawTx tx = Some x \<longrightarrow> tx_SignedRawTx r = Some x))"

lemma knows_mono:
  assumes "txs_le d d'" and "knows tx d"
  shows "knows tx d'"
proof -
  from assms obtain r r' where "r \<in> set (db_transactions d)" "identity r = identity tx"
    "payment r = payment tx" "\<forall>x. tx_SignedRawTx tx = Some x \<longrightarrow> tx_SignedRawTx r = Some x"
    "r' \<in> set (db_transactions d')" "row_le r r'"
    unfolding knows_def by (blast dest: txs_leD(1))
  then show "knows tx d'" by (auto simp: knows_def row_le_def)
qed

lemma knows_lasting: "lasting (knows tx)"
  by (auto simp: lasting_def intro: knows_mono)

lemma row_known: "r \<in> set (db_transactions d) \<Longrightarrow> knows r d"
  by (auto simp: knows_def)

lemma first_transaction_row: "first_transaction i d = Inr r \<Longrightarrow> r \<in> set (db_transactions d)"
  by (auto simp: first_transaction_def find_transaction_def split: option.splits if_splits
      dest: find_Some_iff [THEN iffD1])

lemma first_transaction_id: "first_transaction i d = Inr r \<Longrightarrow> 0 < i \<Longrightarrow> tx_ID r = i"
  by (auto simp: first_transaction_def find_transaction_def split: option.splits if_splits
      dest: find_Some_iff [THEN iffD1])

lemma true_lasting: "lasting (\<lambda>_. True)"
  by (simp add: lasting_def)

lemma Sync_knows:
  "triple (grown_from L d0) (Sync E tx) (\<lambda>tx w. grown_from L d0 w \<and> knows tx (w_db w))
     (\<lambda>_. grown_from L d0)"
  unfolding Sync_def
  by (rule triple_weaken [OF query_triple [where F = "\<lambda>_. True" and Q = knows, OF _ true_lasting]])
    (auto intro: row_known first_transaction_row)

section \<open>The ancestors of a row\<close>

definition claimable :: "nat \<Rightarrow> db \<Rightarrow> bool" where
  "claimable i d \<longleftrightarrow> (\<exists>r \<in> set (db_transactions d). tx_ID r = i \<and> ancestors_proven r (db_transactions d))"

lemma proven_terminal: "IsProvenOnChainFailure r \<Longrightarrow> terminal r"
  by (simp add: IsProvenOnChainFailure_def terminal_def)

lemma claimable_lasting: "lasting (claimable i)"
  unfolding lasting_def
proof (intro allI impI)
  fix d d' assume ok: "table_ok d" "table_ok d'" and le: "txs_le d d'" and "claimable i d"
  then obtain r where r: "r \<in> set (db_transactions d)" "tx_ID r = i"
    "ancestors_proven r (db_transactions d)"
    by (auto simp: claimable_def)
  then obtain r' where r': "r' \<in> set (db_transactions d')" "row_le r r'"
    using le by (blast dest: txs_leD(1))
  have next_id: "i < db_next_transaction_id d"
    using ok(1) r by (auto simp: table_ok_def txs_ok_def ids_ok_def)
  have "IsProvenOnChainFailure s'" if s': "s' \<in> set (db_transactions d')"
    "RootTransactionID s' = RootTransactionID r'" "tx_ID s' < tx_ID r'" for s'
  proof -
    have "tx_ID s' < db_next_transaction_id d"
      using s'(3) r' r(2) next_id by (simp add: row_leD(1))
    then obtain s where s: "s \<in> set (db_transactions d)" "row_le s s'"
      using le s'(1) by (blast dest: txs_leD(2))
    then have "RootTransactionID s = RootTransactionID r" "tx_ID s < tx_ID r"
      using s' r' by (simp_all add: row_leD)
    with r(3) s(1) have "IsProvenOnChainFailure s" by (auto simp: ancestors_proven_def)
    moreover from this have "s' = s"
      using s(2) by (simp add: row_leD(3) proven_terminal)
    ultimately show ?thesis by simp
  qed
  then have "ancestors_proven r' (db_transactions d')"
    by (auto simp: ancestors_proven_def)
  moreover have "tx_ID r' = i" using r' r(2) by (simp add: row_leD(1))
  ultimately show "claimable i d'" using r'(1) by (auto simp: claimable_def)
qed

lemma claimable_root:
  assumes "table_ok d" and "knows tx d" and "tx_RetryTransactionID tx = None"
  shows "claimable (tx_ID tx) d"
proof -
  obtain r where r: "r \<in> set (db_transactions d)" "identity r = identity tx"
    using assms(2) by (auto simp: knows_def)
  have "tx_ID r \<le> tx_ID s" if "s \<in> set (db_transactions d)" "RootTransactionID s = tx_ID r" for s
    using assms(1) root_le_id [of d s] that by (simp add: table_ok_def txs_ok_def)
  moreover have "RootTransactionID r = tx_ID r"
    using r(2) assms(3) by (simp add: identity_def RootTransactionID_def)
  ultimately have "ancestors_proven r (db_transactions d)"
    by (fastforce simp: ancestors_proven_def)
  with r show ?thesis
    by (auto simp: claimable_def identity_def)
qed

lemma ancestors_safe_sorted:
  "sorted_wrt (<) (map tx_ID chain) \<Longrightarrow> ancestors_safe i chain \<Longrightarrow> c \<in> set chain \<Longrightarrow> tx_ID c < i \<Longrightarrow>
   IsProvenOnChainFailure c"
  by (induction i chain rule: ancestors_safe.induct) (fastforce split: if_splits)+

text \<open>
  The rows attached to an identifier: the row that has it and the retries that name it. This is what
  \<open>ListTransactionChain\<close> reads in two queries; its promise of the table it leaves is that every
  attached row was read, in the order of the keys, and has only moved on since.
\<close>

definition attached :: "nat \<Rightarrow> btx \<Rightarrow> bool" where
  "attached root r \<longleftrightarrow> tx_ID r = root \<or> tx_RetryTransactionID r = Some root"

definition chain_read :: "nat \<Rightarrow> btx list \<Rightarrow> db \<Rightarrow> bool" where
  "chain_read root chain d \<longleftrightarrow> sorted_wrt (<) (map tx_ID chain) \<and>
     (\<forall>s \<in> set (db_transactions d). attached root s \<longrightarrow> (\<exists>c \<in> set chain. row_le c s)) \<and>
     (\<forall>c \<in> set chain. attached root c \<and> (\<exists>s \<in> set (db_transactions d). row_le c s)) \<and>
     (\<exists>c \<in> set chain. tx_ID c = root)"

lemma root_attached: "RootTransactionID r = root \<Longrightarrow> attached root r"
  by (auto simp: attached_def RootTransactionID_def split: option.splits)

lemma chain_read_rows:
  assumes ok: "table_ok d" and q: "\<exists>q' \<in> set (db_transactions d). row_le q q'" and "tx_ID q = root"
  shows "chain_read root (q # retry_rows root (db_transactions d)) d"
proof -
  have ids: "ids_ok d" and roots: "roots_ok d" using ok by (simp_all add: table_ok_def txs_ok_def)
  have "sorted_wrt (<) (map tx_ID (retry_rows root (db_transactions d)))"
    using ids by (auto simp: ids_ok_def retry_rows_def sorted_wrt_map sorted_wrt_filter)
  moreover have "root < tx_ID s" if "s \<in> set (retry_rows root (db_transactions d))" for s
    using roots that by (auto simp: roots_ok_def retry_rows_def)
  ultimately have "sorted_wrt (<) (map tx_ID (q # retry_rows root (db_transactions d)))"
    using assms(3) by simp
  moreover have "\<exists>c \<in> set (q # retry_rows root (db_transactions d)). row_le c s"
    if s: "s \<in> set (db_transactions d)" "attached root s" for s
  proof (cases "tx_ID s = root")
    case True
    from q obtain q' where q': "q' \<in> set (db_transactions d)" "row_le q q'" by blast
    then have "tx_ID q' = tx_ID s" using assms(3) True by (simp add: row_leD(1))
    then have "q' = s" using same_row [OF ids q'(1) s(1)] by simp
    with q'(2) show ?thesis by simp
  next
    case False
    with s have "s \<in> set (retry_rows root (db_transactions d))"
      by (simp add: retry_rows_def attached_def)
    then show ?thesis by auto
  qed
  moreover have "attached root c \<and> (\<exists>s \<in> set (db_transactions d). row_le c s)"
    if "c \<in> set (q # retry_rows root (db_transactions d))" for c
    using that q assms(3) row_le_refl by (auto simp: attached_def retry_rows_def)
  ultimately show ?thesis using assms(3) by (simp add: chain_read_def)
qed

lemma claimable_if_safe:
  assumes ok: "table_ok d" and k: "knows tx d" and root: "tx_RetryTransactionID tx = Some root"
    and read: "chain_read root chain d" and safe: "ancestors_safe (tx_ID tx) chain"
  shows "claimable (tx_ID tx) d"
proof -
  obtain r where r: "r \<in> set (db_transactions d)" "identity r = identity tx"
    using k by (auto simp: knows_def)
  then have r': "RootTransactionID r = root" "tx_ID r = tx_ID tx"
    using root by (simp_all add: identity_def RootTransactionID_def)
  have "IsProvenOnChainFailure s" if s: "s \<in> set (db_transactions d)" "RootTransactionID s = root"
    "tx_ID s < tx_ID r" for s
  proof -
    obtain c where c: "c \<in> set chain" "row_le c s"
      using read s root_attached by (auto simp: chain_read_def)
    then have "tx_ID c < tx_ID tx" using s(3) r' by (simp add: row_leD(1))
    then have "IsProvenOnChainFailure c"
      using ancestors_safe_sorted [OF _ safe c(1)] read by (simp add: chain_read_def)
    with c(2) show ?thesis using row_leD(3) proven_terminal by metis
  qed
  with r r' show ?thesis by (auto simp: claimable_def ancestors_proven_def)
qed

section \<open>ClaimForSending\<close>

lemma lasting_row_le: "lasting (\<lambda>d. \<exists>q' \<in> set (db_transactions d). row_le q q')"
  unfolding lasting_def by (blast dest: txs_leD(1) intro: row_le_trans)

lemma ListTransactionChain_triple:
  assumes "0 < root" and F: "lasting F"
  shows "triple (\<lambda>w. grown_from L d0 w \<and> F (w_db w)) (ListTransactionChain E root)
     (\<lambda>chain w. grown_from L d0 w \<and> F (w_db w) \<and> chain_read root chain (w_db w))
     (\<lambda>_. grown_from L d0)"
  unfolding ListTransactionChain_def
proof (rule triple_and_then)
  let ?Q = "\<lambda>q d. tx_ID q = root \<and> (\<exists>q' \<in> set (db_transactions d). row_le q q')"
  show "triple (\<lambda>w. grown_from L d0 w \<and> F (w_db w)) (GetTransactionByID E root)
      (\<lambda>q w. grown_from L d0 w \<and> F (w_db w) \<and> ?Q q (w_db w)) (\<lambda>_. grown_from L d0)"
    unfolding GetTransactionByID_def using assms(1)
    by (intro query_triple F) (auto intro: first_transaction_row dest: first_transaction_id)
  fix q
  have F': "lasting (\<lambda>d. F d \<and> ?Q q d)"
    using F lasting_row_le [of q] unfolding lasting_def by blast
  have "triple (\<lambda>w. grown_from L d0 w \<and> (F (w_db w) \<and> ?Q q (w_db w))) (GetRetryTransactionsByID E root)
      (\<lambda>retries w. grown_from L d0 w \<and> (F (w_db w) \<and> ?Q q (w_db w)) \<and>
         chain_read root (q # retries) (w_db w)) (\<lambda>_. grown_from L d0)"
    unfolding GetRetryTransactionsByID_def
    by (intro query_triple F') (auto intro: chain_read_rows)
  from triple_and_then [OF this, where f = "\<lambda>retries. return_ok (q # retries)"]
  show "triple (\<lambda>w. grown_from L d0 w \<and> F (w_db w) \<and> ?Q q (w_db w))
      (and_then (GetRetryTransactionsByID E root) (\<lambda>retries. return_ok (q # retries)))
      (\<lambda>chain w. grown_from L d0 w \<and> F (w_db w) \<and> chain_read root chain (w_db w))
      (\<lambda>_. grown_from L d0)"
    by (rule triple_weaken) (auto intro: triple_return_ok)
qed

text \<open>The claim, and the row it leaves when it reports success.\<close>

definition claimed_row :: "nat \<Rightarrow> db \<Rightarrow> bool" where
  "claimed_row i d \<longleftrightarrow> (\<exists>r \<in> set (db_transactions d). tx_ID r = i \<and>
     tx_Status r = TransactionStatusSending \<and> ancestors_proven r (db_transactions d))"

lemma claim_step:
  assumes ok: "table_ok d" and c: "claimable i d"
  defines "d' \<equiv> update_transactions (claim_guard i) claim_set d"
  shows "table_ok d' \<and> txs_le d d' \<and>
    (0 < rows_affected (claim_guard i) (db_transactions d) \<longrightarrow> claimed_row i d')"
proof -
  obtain r where r: "r \<in> set (db_transactions d)" "tx_ID r = i" "ancestors_proven r (db_transactions d)"
    using c by (auto simp: claimable_def)
  have unique: "q = r" if "q \<in> set (db_transactions d)" "claim_guard i q" for q
    using ok r(1,2) that same_row [of d q r]
    by (auto simp: table_ok_def txs_ok_def claim_guard_def unbroadcasted_def)
  have "ancestors_ok d'"
    unfolding d'_def using ok r(3) unique
    by (intro claim.ancestors_ok_unless_claim) (auto simp: table_ok_def)
  moreover have "txs_ok d'" "txs_le d d'" "db_started d'"
    using ok by (simp_all add: d'_def table_ok_def claim.txs_ok_after claim.txs_le_after)
  moreover have "claimed_row i d'" if n: "0 < rows_affected (claim_guard i) (db_transactions d)"
  proof -
    obtain q where "q \<in> set (db_transactions d)" "claim_guard i q"
      using n rows_affected_0 [of "claim_guard i" "db_transactions d"] by auto
    then have g: "claim_guard i r" using unique by metis
    then have "claim.step_row i r \<in> set (db_transactions d')"
      using r(1) by (simp only: d'_def claim.set_after imageI)
    moreover have "claim.step_row i r = claim_set r" using g by (simp add: claim.step_row_def)
    moreover have "ancestors_proven (claim.step_row i r) (db_transactions d')"
      using claim.ancestors_proven_after [OF r(3), of i]
      by (simp add: d'_def update_where_def claim.step_row_def [abs_def])
    moreover have "tx_ID (claim.step_row i r) = i" using r(2) by simp
    moreover have "tx_Status (claim_set r) = TransactionStatusSending" by (simp add: claim_set_def)
    ultimately show ?thesis
      unfolding claimed_row_def by metis
  qed
  ultimately show ?thesis by (simp add: table_ok_def)
qed

lemma claim_update_triple:
  "triple (\<lambda>w. grown_from L d0 w \<and> claimable i (w_db w)) (db_update E (claim_guard i) claim_set)
     (\<lambda>n w. grown_from L d0 w \<and> (0 < n \<longrightarrow> claimed_row i (w_db w))) (\<lambda>_. grown_from L d0)"
  unfolding db_update_def
  by (rule db_action_triple [OF claimable_lasting])
    (auto dest: claim_step intro: txs_le_trans claim.txs_le_after [THEN txs_leD(1), simplified])

definition claim_check :: "env \<Rightarrow> btx \<Rightarrow> (world, unit) action" where
  "claim_check E tx =
     (case tx_RetryTransactionID tx of
        None \<Rightarrow> return_ok ()
      | Some root \<Rightarrow> and_then (ListTransactionChain E root) (\<lambda>chain.
          if ancestors_safe (tx_ID tx) chain then return_ok ()
          else return_err ErrRetryAncestorsUnsafe))"

lemma knows_root: "table_ok d \<Longrightarrow> knows tx d \<Longrightarrow> tx_RetryTransactionID tx = Some root \<Longrightarrow> 0 < root"
  by (fastforce simp: table_ok_def txs_ok_def roots_ok_def ids_ok_def knows_def identity_def)

lemma claim_check_triple:
  "triple (\<lambda>w. grown_from L d0 w \<and> knows tx (w_db w)) (claim_check E tx)
     (\<lambda>_ w. grown_from L d0 w \<and> claimable (tx_ID tx) (w_db w)) (\<lambda>_. grown_from L d0)"
proof (cases "tx_RetryTransactionID tx")
  case None
  then show ?thesis
    by (auto simp: claim_check_def grown_from_def world_ok_def intro!: triple_return_ok claimable_root)
next
  case (Some root)
  show ?thesis
  proof (cases "0 < root")
    case False
    with Some have "\<not> (grown_from L d0 w \<and> knows tx (w_db w))" for w
      using knows_root by (auto simp: grown_from_def world_ok_def)
    then show ?thesis by (auto simp: triple_def)
  next
    case True
    show ?thesis
      unfolding claim_check_def Some option.simps
      by (rule triple_and_then [OF ListTransactionChain_triple [OF True knows_lasting]])
        (auto simp: grown_from_def world_ok_def intro!: triple_return_ok triple_return_err triple_if
          intro: claimable_if_safe [OF _ _ Some])
  qed
qed

lemma silent_claim_check [silent]: "keeps (unchanged cs cl) (claim_check E tx)"
  unfolding claim_check_def ListTransactionChain_def GetTransactionByID_def GetRetryTransactionsByID_def
  by (intro safe silent)

definition claim_body :: "env \<Rightarrow> btx \<Rightarrow> (world, bool \<times> btx) action" where
  "claim_body E tx =
     and_then (claim_check E tx) (\<lambda>_.
     and_then (db_update E (claim_guard (tx_ID tx)) claim_set) (\<lambda>n.
       if n = 0 then return_ok (False, tx)
       else return_ok (True, tx\<lparr>tx_Status := TransactionStatusSending\<rparr>)))"

lemma ClaimForSending_eq:
  "ClaimForSending E tx =
     (if tx_ID tx = 0 then return_err ErrRecordNotFound else db_transaction E (claim_body E tx))"
  by (simp add: ClaimForSending_def claim_body_def claim_check_def)

lemma claim_body_triple:
  "triple (\<lambda>w. grown_from L d0 w \<and> knows tx (w_db w)) (claim_body E tx)
     (\<lambda>(claimed, tx') w. grown_from L d0 w \<and>
        (claimed \<longrightarrow> claimed_row (tx_ID tx) (w_db w)) \<and>
        tx' = (if claimed then tx\<lparr>tx_Status := TransactionStatusSending\<rparr> else tx))
     (\<lambda>_. grown_from L d0)"
  unfolding claim_body_def
  by (rule triple_and_then [OF claim_check_triple], rule triple_and_then [OF claim_update_triple])
    (auto intro!: triple_return_ok triple_if)

lemma claim_body_grows:
  assumes "knows tx d0"
  shows "keeps (grown_from L d0) (claim_body E tx)"
  unfolding keeps_triple
  by (rule triple_weaken [OF claim_body_triple])
    (use assms in \<open>auto simp: grown_from_def intro: knows_mono\<close>)

lemma silent_claim_body [silent]: "keeps (unchanged cs cl) (claim_body E tx)"
  unfolding claim_body_def by (intro safe silent)

lemma grows_ClaimForSending:
  "knows tx d0 \<Longrightarrow> keeps (grown_from L d0) (ClaimForSending E tx)"
  unfolding ClaimForSending_eq
  by (intro safe grows_transaction silent) (blast intro: claim_body_grows knows_mono)

end
