(* ===== verification/Eth_Client.thy ===== *)
theory Eth_Client
  imports Tx_Claim
begin

text \<open>
  \<open>blockchain/client.go\<close> and \<open>blockchain/benefitAddress.go\<close>: the client of one network with its
  cached nonce, the construction of payout rows and call messages, and the calls to the node. The
  node and the ABI codec are parameters; a time-out of a call is an error of the node.
\<close>

section \<open>Integers of math/big at 64 bits\<close>

definition Uint64 :: "int \<Rightarrow> 64 word" where
  "Uint64 x = word_of_int \<bar>x\<bar>"

definition Int64 :: "int \<Rightarrow> int" where
  "Int64 x = sint (word_of_int x :: 64 word)"

lemma uint_Uint64: "0 \<le> x \<Longrightarrow> x < 2 ^ 64 \<Longrightarrow> uint (Uint64 x) = x"
  by (simp add: Uint64_def uint_word_of_int)

lemma Int64_exact: "- (2 ^ 63) \<le> x \<Longrightarrow> x < 2 ^ 63 \<Longrightarrow> Int64 x = x"
  by (simp add: Int64_def sint_uint uint_word_of_int_eq signed_take_bit_take_bit
      signed_take_bit_int_eq_self)

section \<open>Clients\<close>

definition GetBlockchainClient :: "string \<Rightarrow> (world, client) action" where
  "GetBlockchainClient network =
     (\<lambda>w. case w_clients w network of
        None \<Rightarrow> (Inl ErrBlockchainNotFound, w)
      | Some client \<Rightarrow> (Inr client, w))"

definition set_nonce :: "client \<Rightarrow> 64 word option \<Rightarrow> (world, unit) action" where
  "set_nonce client nonce = writes (\<lambda>w.
     case w_clients w (cl_Network client) of
       None \<Rightarrow> w
     | Some c \<Rightarrow> w\<lparr>w_clients := (w_clients w)(cl_Network client \<mapsto> c\<lparr>cl_Nonce := nonce\<rparr>)\<rparr>)"

definition cached_nonce :: "client \<Rightarrow> (world, 64 word option) action" where
  "cached_nonce client = reads (\<lambda>w.
     case w_clients w (cl_Network client) of None \<Rightarrow> None | Some c \<Rightarrow> cl_Nonce c)"

definition optionalUint64BigInt :: "64 word \<Rightarrow> int option" where
  "optionalUint64BigInt value = (if value = 0 then None else Some (uint value))"

definition initChainID :: "env \<Rightarrow> string \<Rightarrow> 64 word \<Rightarrow> (world, int) action" where
  "initChainID E network chainIDNum =
     (if chainIDNum > 0 then return_ok (uint chainIDNum)
      else ask (\<lambda>t. env_ChainID E t network))"

definition initNonce :: "env \<Rightarrow> string \<Rightarrow> string \<Rightarrow> (world, 64 word) action" where
  "initNonce E network addr =
     ask (\<lambda>t. env_PendingNonceAt E t network (eth_HexToAddress (env_lib E) addr))"

text \<open>Dialling the endpoint opens no connection for HTTP and is part of the first call.\<close>

definition initBlockchainClient :: "env \<Rightarrow> string \<Rightarrow> (world, unit) action" where
  "initBlockchainClient E network =
     (case blockchain_of (env_cfg E) network of
        None \<Rightarrow> return_err ErrBlockchainNotFound
      | Some blockchain \<Rightarrow>
          and_then (initChainID E network (bc_ChainID blockchain)) (\<lambda>chainID.
          and_then (initNonce E network (acc_Address (bc_Account blockchain))) (\<lambda>nonce.
            writes (\<lambda>w. w\<lparr>w_clients := (w_clients w)(network \<mapsto>
              \<lparr>cl_Network = network, cl_ChainID = chainID, cl_GasLimit = bc_GasLimit blockchain,
               cl_GasLimitBufferPercent = bc_GasLimitBufferPercent blockchain,
               cl_MaxFeePerGas = optionalUint64BigInt (bc_MaxFeePerGas blockchain),
               cl_MaxPriorityFeePerGas = optionalUint64BigInt (bc_MaxPriorityFeePerGas blockchain),
               cl_Address = acc_Address (bc_Account blockchain),
               cl_PrivateKey = acc_PrivateKey (bc_Account blockchain),
               cl_Nonce = Some nonce,
               cl_SentTransactionCountLimit = bc_SentTransactionCountLimit blockchain\<rparr>)\<rparr>))))"

definition Init :: "env \<Rightarrow> (world, unit) action" where
  "Init E = for_each (map fst (cfg_Blockchains (env_cfg E))) (initBlockchainClient E)"

subsection \<open>The nonce\<close>

definition GetNonce :: "env \<Rightarrow> client \<Rightarrow> (world, 64 word) action" where
  "GetNonce E client =
     and_then (cached_nonce client) (\<lambda>cached.
       case cached of
         Some nonce \<Rightarrow> return_ok nonce
       | None \<Rightarrow>
           and_then (initNonce E (cl_Network client) (cl_Address client)) (\<lambda>nonce.
           and_then (set_nonce client (Some nonce)) (\<lambda>_. return_ok nonce)))"

definition IncrementNonce :: "client \<Rightarrow> (world, unit) action" where
  "IncrementNonce client =
     and_then (cached_nonce client) (\<lambda>cached.
       case cached of
         None \<Rightarrow> return_err (Panic ''nil pointer dereference'')
       | Some nonce \<Rightarrow> set_nonce client (Some (nonce + 1)))"

definition AdvanceNoncePast :: "client \<Rightarrow> int \<Rightarrow> (world, unit) action" where
  "AdvanceNoncePast client nonce =
     and_then (cached_nonce client) (\<lambda>cached.
       let next = word_of_int nonce + 1 in
       if (case cached of None \<Rightarrow> True | Some n \<Rightarrow> n < next) then set_nonce client (Some next)
       else return_ok ())"

definition resetNonce :: "client \<Rightarrow> (world, unit) action" where
  "resetNonce client = set_nonce client None"

text \<open>The pattern \<open>[Nn]once\<close>.\<close>

definition matchNonceError :: "string \<Rightarrow> bool" where
  "matchNonceError errStr \<longleftrightarrow> Contains errStr ''Nonce'' \<or> Contains errStr ''nonce''"

definition isAlreadyKnownTransactionError :: "go_error \<Rightarrow> bool" where
  "isAlreadyKnownTransactionError e =
     (let msg = ToLower (error_text e) in
      Contains msg ''already known'' \<or> Contains msg ''known transaction'' \<or>
      Contains msg ''already imported'')"

definition processSendingTxError :: "client \<Rightarrow> go_error \<Rightarrow> (world, go_error) action" where
  "processSendingTxError client e =
     (if matchNonceError (error_text e)
      then and_then (set_nonce client None) (\<lambda>_. return_ok e)
      else return_ok e)"

section \<open>Calls to the node\<close>

definition LimiterWait :: "env \<Rightarrow> (world, unit) action" where
  "LimiterWait E = ask_unit (env_LimiterWait E)"

definition send_to_node :: "env \<Rightarrow> client \<Rightarrow> signed_tx \<Rightarrow> (world, unit) action" where
  "send_to_node E client signedTx =
     and_then (tell (SendRaw (cl_Network client) signedTx)) (\<lambda>_.
       ask_unit (\<lambda>t. env_SendTransaction E t (cl_Network client) signedTx))"

definition SendSignedRawTransaction :: "env \<Rightarrow> client \<Rightarrow> string \<Rightarrow> (world, signed_tx) action" where
  "SendSignedRawTransaction E client signedRawTx =
     and_then (lift_sum (eth_Decode (env_lib E) signedRawTx)) (\<lambda>raw.
     and_then (lift_sum (eth_UnmarshalBinary (env_lib E) raw)) (\<lambda>signedTx.
     and_then (LimiterWait E) (\<lambda>_.
     and_then (try_result (send_to_node E client signedTx)) (\<lambda>sent.
       case sent of
         Inl e \<Rightarrow> and_then (processSendingTxError client e) return_err
       | Inr _ \<Rightarrow> return_ok signedTx))))"

definition EncodeSignedRawTransaction :: "ethlib \<Rightarrow> signed_tx \<Rightarrow> go_error + string" where
  "EncodeSignedRawTransaction L signedTx =
     bind_sum (eth_MarshalBinary L signedTx) (\<lambda>raw. Inr (eth_Encode L raw))"

definition BalanceAt :: "env \<Rightarrow> client \<Rightarrow> address \<Rightarrow> (world, int) action" where
  "BalanceAt E client a = ask (\<lambda>t. env_BalanceAt E t (cl_Network client) a)"

definition TokenBalanceAt :: "env \<Rightarrow> client \<Rightarrow> address \<Rightarrow> address \<Rightarrow> (world, int) action" where
  "TokenBalanceAt E client tokenAddress a =
     and_then (LimiterWait E) (\<lambda>_.
       ask (\<lambda>t. env_TokenBalance E t (cl_Network client) tokenAddress a))"

text \<open>
  The loop of \<open>WaitTxReceipt\<close> ends only when the node answers something else than \<open>NotFound\<close>: the
  fuel bounds the number of questions.
\<close>

fun WaitTxReceipt :: "env \<Rightarrow> nat \<Rightarrow> client \<Rightarrow> hash \<Rightarrow> (world, receipt) action" where
  "WaitTxReceipt E 0 client txHash = return_err OutOfFuel"
| "WaitTxReceipt E (Suc fuel) client txHash =
     and_then (try_result (ask (\<lambda>t. env_TransactionReceipt E t (cl_Network client) txHash)))
       (\<lambda>r. case r of
          Inr receipt \<Rightarrow> return_ok receipt
        | Inl e \<Rightarrow> if e = EthereumNotFound then WaitTxReceipt E fuel client txHash
                   else return_err e)"

section \<open>Transfers read back from the node\<close>

record transaction_transfer =
  tt_Hash :: hash
  tt_From :: address
  tt_To :: address
  tt_Value :: int
  tt_Input :: bytes

definition parseTransactionInput :: "ethlib \<Rightarrow> string \<Rightarrow> string \<Rightarrow> go_error + bytes" where
  "parseTransactionInput L input data =
     (let input = (if input = [] then data else input) in
      if input = [] then Inl (ErrorsNew ''transaction input field is empty'')
      else eth_Decode L input)"

definition parseRawTransactionTransfer ::
  "ethlib \<Rightarrow> raw_transaction_transfer option \<Rightarrow> hash \<Rightarrow> go_error + transaction_transfer" where
  "parseRawTransactionTransfer L raw expectedHash =
     (case raw of
        None \<Rightarrow> Inl EthereumNotFound
      | Some raw \<Rightarrow>
          if raw_Hash raw = [] \<or> eth_HexToHash L (raw_Hash raw) \<noteq> expectedHash then
            Inl (ErrorsNew ''transaction hash mismatch'')
          else if \<not> eth_IsHexAddress L (raw_From raw) then
            Inl (ErrorsNew ''transaction from address is invalid'')
          else if \<not> eth_IsHexAddress L (raw_To raw) then
            Inl (ErrorsNew ''transaction to address is invalid'')
          else bind_sum (eth_DecodeBig L (raw_Value raw)) (\<lambda>value.
            bind_sum (parseTransactionInput L (raw_Input raw) (raw_Data raw)) (\<lambda>input.
              Inr \<lparr>tt_Hash = eth_HexToHash L (raw_Hash raw),
                   tt_From = eth_HexToAddress L (raw_From raw),
                   tt_To = eth_HexToAddress L (raw_To raw),
                   tt_Value = value, tt_Input = input\<rparr>)))"

definition GetTransactionTransfer :: "env \<Rightarrow> client \<Rightarrow> hash \<Rightarrow> (world, transaction_transfer) action" where
  "GetTransactionTransfer E client txHash =
     and_then (ask (\<lambda>t. env_GetTransactionByHash E t (cl_Network client) txHash)) (\<lambda>raw.
       lift_sum (parseRawTransactionTransfer (env_lib E) raw txHash))"

section \<open>Payout rows\<close>

definition NewSendETHTransaction :: "env \<Rightarrow> address \<Rightarrow> int \<Rightarrow> string \<Rightarrow> go_error + btx" where
  "NewSendETHTransaction E to amount network =
     (case blockchain_of (env_cfg E) network of
        None \<Rightarrow> Inl ErrBlockchainNotFound
      | Some blockchain \<Rightarrow> Inr
          \<lparr>tx_ID = 0, tx_Network = network, tx_Type = ''SendETH'',
           tx_Status = TransactionStatusPending,
           tx_FromAddress = acc_Address (bc_Account blockchain),
           tx_ToAddress = eth_AddressHex (env_lib E) to, tx_Value = show_int amount,
           tx_Data = None, tx_TxHash = None, tx_BlockNumber = None, tx_Nonce = None,
           tx_GasUsed = None, tx_EffectiveGasPrice = None, tx_StatusMessage = None,
           tx_RetryCount = 0, tx_MaxRetries = bc_MaxRetries blockchain,
           tx_RetryTransactionID = None, tx_NextRetryAt = None, tx_SentAt = None,
           tx_ConfirmedAt = None, tx_FailedAt = None, tx_CancellationRequestedAt = None,
           tx_SignedRawTx = None\<rparr>)"

definition QueueSendETH :: "env \<Rightarrow> address \<Rightarrow> int \<Rightarrow> string \<Rightarrow> (world, btx) action" where
  "QueueSendETH E to amount network =
     and_then (lift_sum (NewSendETHTransaction E to amount network)) (Save E)"

definition NewSendERC20Transaction ::
  "env \<Rightarrow> address \<Rightarrow> address \<Rightarrow> int \<Rightarrow> string \<Rightarrow> go_error + btx" where
  "NewSendERC20Transaction E tokenAddress to amount network =
     (case blockchain_of (env_cfg E) network of
        None \<Rightarrow> Inl ErrBlockchainNotFound
      | Some blockchain \<Rightarrow>
          bind_sum (eth_PackTransfer (env_lib E) to amount) (\<lambda>data. Inr
          \<lparr>tx_ID = 0, tx_Network = network, tx_Type = ''ERC20::transfer'',
           tx_Status = TransactionStatusPending,
           tx_FromAddress = acc_Address (bc_Account blockchain),
           tx_ToAddress = eth_AddressHex (env_lib E) tokenAddress, tx_Value = ''0'',
           tx_Data = Some (eth_Encode (env_lib E) data), tx_TxHash = None,
           tx_BlockNumber = None, tx_Nonce = None,
           tx_GasUsed = None, tx_EffectiveGasPrice = None, tx_StatusMessage = None,
           tx_RetryCount = 0, tx_MaxRetries = bc_MaxRetries blockchain,
           tx_RetryTransactionID = None, tx_NextRetryAt = None, tx_SentAt = None,
           tx_ConfirmedAt = None, tx_FailedAt = None, tx_CancellationRequestedAt = None,
           tx_SignedRawTx = None\<rparr>))"

definition QueueSendERC20 ::
  "env \<Rightarrow> address \<Rightarrow> address \<Rightarrow> int \<Rightarrow> string \<Rightarrow> (world, btx) action" where
  "QueueSendERC20 E tokenAddress to amount network =
     and_then (lift_sum (NewSendERC20Transaction E tokenAddress to amount network)) (Save E)"

section \<open>Call messages\<close>

definition parseTransactionData :: "ethlib \<Rightarrow> string option \<Rightarrow> go_error + bytes" where
  "parseTransactionData L data =
     (case data of
        None \<Rightarrow> Inr []
      | Some s \<Rightarrow> if s = [] then Inr [] else eth_Decode L s)"

definition BuildCallMsgFromTransaction :: "ethlib \<Rightarrow> btx \<Rightarrow> go_error + call_msg" where
  "BuildCallMsgFromTransaction L transaction =
     (case parse_big (tx_Value transaction) of
        None \<Rightarrow> Inl (ErrorsNew ''transaction value is invalid'')
      | Some value \<Rightarrow>
          bind_sum (parseTransactionData L (tx_Data transaction)) (\<lambda>data.
            if \<not> eth_IsHexAddress L (tx_FromAddress transaction) then
              Inl (ErrorsNew ''transaction from address is invalid'')
            else if \<not> eth_IsHexAddress L (tx_ToAddress transaction) then
              Inl (ErrorsNew ''transaction to address is invalid'')
            else Inr \<lparr>msg_From = eth_HexToAddress L (tx_FromAddress transaction),
                      msg_To = eth_HexToAddress L (tx_ToAddress transaction),
                      msg_Value = value, msg_Data = data\<rparr>))"

definition errorSig :: bytes where
  "errorSig = [0x08, 0xc3, 0x79, 0xa0]"

definition unpackError :: "env \<Rightarrow> bytes \<Rightarrow> go_error + string" where
  "unpackError E result =
     (if length result < 4 then Inl (ErrorsNew ''tx result length too short'')
      else if take 4 result \<noteq> errorSig then
        Inl (ErrorsNew ''tx result not of type Error(string)'')
      else env_UnpackError E (drop 4 result))"

text \<open>
  When the result of the call cannot be unpacked, \<open>errMsg\<close> is set but the error is returned with it;
  the only caller discards the message then.
\<close>

definition GetErrorMessageFromTransaction ::
  "env \<Rightarrow> client \<Rightarrow> btx \<Rightarrow> receipt \<Rightarrow> (world, string) action" where
  "GetErrorMessageFromTransaction E client transaction receipt =
     and_then (lift_sum (BuildCallMsgFromTransaction (env_lib E) transaction)) (\<lambda>msg.
       case rc_BlockNumber receipt of
         None \<Rightarrow> return_err (Panic ''nil pointer dereference'')
       | Some n \<Rightarrow>
           and_then (ask (\<lambda>t. env_CallContract E t (cl_Network client) msg (n - 1))) (\<lambda>res.
             lift_sum (unpackError E res)))"

section \<open>blockchain/benefitAddress.go\<close>

definition GetBenefitAddress :: "env \<Rightarrow> address \<Rightarrow> string \<Rightarrow> (world, address) action" where
  "GetBenefitAddress E nodeAddress network =
     and_then (GetBlockchainClient network) (\<lambda>client.
     and_then (ask (\<lambda>t. env_BenefitAddress E t (cl_Network client) nodeAddress)) (\<lambda>ba.
       return_ok (if ba = 0 then nodeAddress else ba)))"

section \<open>Invariants and basic facts\<close>

lemma grows_GetBlockchainClient [grows]: "keeps (grown_from L d0) (GetBlockchainClient n)"
  by (simp add: GetBlockchainClient_def keeps_def split: option.split)

lemma grows_cached_nonce [grows]: "keeps (grown_from L d0) (cached_nonce c)"
  by (simp add: cached_nonce_def keeps_reads)

lemma grows_set_nonce [grows]: "keeps (grown_from L d0) (set_nonce c m)"
  unfolding set_nonce_def
  by (rule keeps_writes)
    (auto simp: grown_from_def world_ok_def clients_ok_def sends_recorded_def split: option.split)

lemma keeps_GetBlockchainClient [safe]: "keeps P (GetBlockchainClient n)"
  by (simp add: GetBlockchainClient_def keeps_def split: option.split)

lemma client_then_ok:
  "and_then (GetBlockchainClient n) f w = (Inr y, u) \<longleftrightarrow>
   (\<exists>c. w_clients w n = Some c \<and> f c w = (Inr y, u))"
  by (auto simp: and_then_ok GetBlockchainClient_def split: option.splits)

text \<open>The client of a network sends to that network.\<close>

lemma grows_with_client:
  assumes "\<And>c. cl_Network c = n \<Longrightarrow> keeps (grown_from L d0) (f c)"
  shows "keeps (grown_from L d0) (and_then (GetBlockchainClient n) f)"
  unfolding keeps_def
proof (intro allI impI)
  fix w assume w: "grown_from L d0 w"
  show "grown_from L d0 (snd (and_then (GetBlockchainClient n) f w))"
  proof (cases "w_clients w n")
    case None
    with w show ?thesis by (simp add: and_then_def GetBlockchainClient_def)
  next
    case (Some c)
    with w have "cl_Network c = n" by (simp add: grown_from_def world_ok_def clients_ok_def)
    with assms w have "grown_from L d0 (snd (f c w))" unfolding keeps_def by blast
    with Some show ?thesis by (simp add: and_then_def GetBlockchainClient_def)
  qed
qed

lemma grows_nonce [grows]:
  "keeps (grown_from L d0) (GetNonce E c)" "keeps (grown_from L d0) (IncrementNonce c)"
  "keeps (grown_from L d0) (AdvanceNoncePast c n)" "keeps (grown_from L d0) (resetNonce c)"
  "keeps (grown_from L d0) (processSendingTxError c e)"
  unfolding GetNonce_def IncrementNonce_def AdvanceNoncePast_def resetNonce_def initNonce_def
    processSendingTxError_def
  by (intro safe grows)+

lemma grows_calls [grows]:
  "keeps (grown_from L d0) (LimiterWait E)"
  "keeps (grown_from L d0) (BalanceAt E c a)" "keeps (grown_from L d0) (TokenBalanceAt E c k a)"
  "keeps (grown_from L d0) (GetTransactionTransfer E c h)"
  "keeps (grown_from L d0) (GetErrorMessageFromTransaction E c tx r)"
  "keeps (grown_from L d0) (GetBenefitAddress E a n)"
  unfolding LimiterWait_def BalanceAt_def TokenBalanceAt_def
    GetTransactionTransfer_def GetErrorMessageFromTransaction_def GetBenefitAddress_def
  by (intro safe grows)+

text \<open>Sending the signed payload of a row keeps the record of what was sent.\<close>

lemma grows_send_to_node:
  assumes "recorded L d0 (cl_Network c) s"
  shows "keeps (grown_from L d0) (send_to_node E c s)"
  unfolding send_to_node_def
proof (rule keeps_and_then)
  show "keeps (grown_from L d0) (tell (SendRaw (cl_Network c) s))"
    using recorded_mono [OF _ assms]
    by (auto simp: keeps_def tell_def writes_def grown_from_def world_ok_def clients_ok_def
        sends_recorded_def)
qed (rule grows)

lemma grows_SendSignedRawTransaction:
  assumes k: "knows tx d0" and x: "tx_SignedRawTx tx = Some x" and n: "cl_Network c = tx_Network tx"
  shows "keeps (grown_from (env_lib E) d0) (SendSignedRawTransaction E c x)"
proof -
  have "recorded (env_lib E) d0 (cl_Network c) s"
    if "eth_Decode (env_lib E) x = Inr raw" "eth_UnmarshalBinary (env_lib E) raw = Inr s" for raw s
  proof -
    from k x obtain r where r: "r \<in> set (db_transactions d0)" "payment r = payment tx"
      "tx_SignedRawTx r = Some x"
      by (auto simp: knows_def)
    with n that show ?thesis unfolding recorded_def payment_def by auto
  qed
  then have s: "keeps (grown_from (env_lib E) d0) (and_then (lift_sum (eth_Decode (env_lib E) x)) (\<lambda>raw.
      and_then (lift_sum (eth_UnmarshalBinary (env_lib E) raw)) (\<lambda>s. g raw s)))"
    if "\<And>raw s. recorded (env_lib E) d0 (cl_Network c) s \<Longrightarrow> keeps (grown_from (env_lib E) d0) (g raw s)" for g
      :: "bytes \<Rightarrow> signed_tx \<Rightarrow> (world, signed_tx) action"
    using that by (auto simp: keeps_def and_then_def lift_sum_def split: sum.splits)
  show ?thesis
    unfolding SendSignedRawTransaction_def
    by (rule s) (intro safe grows grows_send_to_node)
qed

lemma NewSendETHTransaction_ok:
  "NewSendETHTransaction E to amount network = Inr tx \<Longrightarrow>
   fresh_row tx \<and> tx_ID tx = 0 \<and> tx_RetryTransactionID tx = None \<and> tx_Network tx = network \<and>
   tx_ToAddress tx = eth_AddressHex (env_lib E) to \<and> parse_big (tx_Value tx) = Some amount"
  by (auto simp: NewSendETHTransaction_def fresh_row_def no_evidence_def split: option.splits)

lemma NewSendERC20Transaction_ok:
  "NewSendERC20Transaction E token to amount network = Inr tx \<Longrightarrow>
   fresh_row tx \<and> tx_ID tx = 0 \<and> tx_RetryTransactionID tx = None \<and> tx_Network tx = network \<and>
   tx_ToAddress tx = eth_AddressHex (env_lib E) token \<and>
   (\<exists>data. eth_PackTransfer (env_lib E) to amount = Inr data \<and>
      tx_Data tx = Some (eth_Encode (env_lib E) data))"
  by (auto simp: NewSendERC20Transaction_def fresh_row_def no_evidence_def bind_sum_Inr
      split: option.splits)

end
