(* ===== verification/Tx_Sender.thy ===== *)
theory Tx_Sender
  imports Eth_Client
begin

text \<open>
  \<open>blockchain/transaction_sender.go\<close>: the queue of the sender, the checks and the construction of a
  payout, and the handler that claims, prepares, sends and acknowledges a transaction, or recovers
  one that was already prepared.
\<close>

section \<open>The queue\<close>

text \<open>
  \<open>processingTxs\<close> and \<open>txQueue\<close>. \<open>stop\<close> says at which element the context is done while the sender
  waits for room in the channel.
\<close>

record sender_state =
  ss_processingTxs :: "nat list"
  ss_txQueue :: "btx list"

text \<open>\<open>collectTransactions\<close>: pages until an empty one; the fuel bounds the number of pages.\<close>

fun collectTransactions ::
  "(nat \<Rightarrow> nat \<Rightarrow> (world, btx list) action) \<Rightarrow> nat \<Rightarrow> nat \<Rightarrow> nat \<Rightarrow> (world, btx list) action" where
  "collectTransactions fetcher batchSize 0 offset = return_err OutOfFuel"
| "collectTransactions fetcher batchSize (Suc fuel) offset =
     and_then (fetcher offset batchSize) (\<lambda>transactions.
       if transactions = [] then return_ok []
       else and_then
         (collectTransactions fetcher batchSize fuel (offset + length transactions)) (\<lambda>rest.
           return_ok (transactions @ rest)))"

fun enqueueTransactions ::
  "(nat \<Rightarrow> bool) \<Rightarrow> nat \<Rightarrow> btx list \<Rightarrow> sender_state \<Rightarrow> nat \<times> sender_state" where
  "enqueueTransactions stop cnt [] S = (cnt, S)"
| "enqueueTransactions stop cnt (transaction # rest) S =
     (if tx_ID transaction \<in> set (ss_processingTxs S) then enqueueTransactions stop cnt rest S
      else if stop (tx_ID transaction) then (cnt, S)
      else enqueueTransactions stop (Suc cnt) rest
        (S\<lparr>ss_processingTxs := tx_ID transaction # ss_processingTxs S,
           ss_txQueue := ss_txQueue S @ [transaction]\<rparr>))"

section \<open>Gas and fees\<close>

definition addGasLimitBuffer :: "64 word \<Rightarrow> 64 word \<Rightarrow> go_error + 64 word" where
  "addGasLimitBuffer estimatedGas bufferPercent =
     (if 100 + bufferPercent = 0 then Inl (Panic ''integer divide by zero'')
      else if estimatedGas > (- 1) div (100 + bufferPercent) then
        Inl (ErrorsNew ''estimated gas limit is too large'')
      else
        (let gasLimit = estimatedGas * (100 + bufferPercent) div 100 in
         if gasLimit = 0 then Inl (ErrorsNew ''estimated gas limit is zero'') else Inr gasLimit))"

definition validateDynamicFeeCaps ::
  "int \<Rightarrow> int \<Rightarrow> int option \<Rightarrow> int option \<Rightarrow> go_error + unit" where
  "validateDynamicFeeCaps gasFeeCap gasTipCap maxFeePerGas maxPriorityFeePerGas =
     (if (case maxFeePerGas of None \<Rightarrow> False | Some cap \<Rightarrow> gasFeeCap > cap) then
        Inl (ErrorsNew (''estimated max fee per gas '' @ show_int gasFeeCap @
          '' exceeds configured cap '' @ show_int (the maxFeePerGas)))
      else if (case maxPriorityFeePerGas of None \<Rightarrow> False | Some cap \<Rightarrow> gasTipCap > cap) then
        Inl (ErrorsNew (''estimated max priority fee per gas '' @ show_int gasTipCap @
          '' exceeds configured cap '' @ show_int (the maxPriorityFeePerGas)))
      else Inr ())"

definition suggestDynamicFeeCaps :: "env \<Rightarrow> client \<Rightarrow> (world, int \<times> int) action" where
  "suggestDynamicFeeCaps E client =
     and_then (LimiterWait E) (\<lambda>_.
     and_then (ask (\<lambda>t. env_HeaderByNumber E t (cl_Network client) None)) (\<lambda>header.
       case hd_BaseFee header of
         None \<Rightarrow> return_err (ErrorsNew ''latest block does not include base fee'')
       | Some baseFee \<Rightarrow>
           and_then (LimiterWait E) (\<lambda>_.
           and_then (ask (\<lambda>t. env_SuggestGasTipCap E t (cl_Network client))) (\<lambda>gasTipCap.
             let gasFeeCap = baseFee * 2 + gasTipCap in
             and_then (lift_sum (validateDynamicFeeCaps gasFeeCap gasTipCap
                         (cl_MaxFeePerGas client) (cl_MaxPriorityFeePerGas client))) (\<lambda>_.
               return_ok (gasFeeCap, gasTipCap))))))"

definition estimateTransactionGasLimit :: "env \<Rightarrow> client \<Rightarrow> btx \<Rightarrow> (world, 64 word) action" where
  "estimateTransactionGasLimit E client transaction =
     and_then (lift_sum (BuildCallMsgFromTransaction (env_lib E) transaction)) (\<lambda>msg.
     and_then (LimiterWait E) (\<lambda>_.
     and_then (ask (\<lambda>t. env_EstimateGas E t (cl_Network client) msg)) (\<lambda>estimatedGas.
     and_then (lift_sum (addGasLimitBuffer estimatedGas (cl_GasLimitBufferPercent client))) (\<lambda>gasLimit.
       if cl_GasLimit client > 0 \<and> gasLimit > cl_GasLimit client then
         return_err (ErrorsNew (''estimated gas limit '' @ show_nat (unat gasLimit) @
           '' exceeds configured gas limit '' @ show_nat (unat (cl_GasLimit client))))
       else return_ok gasLimit))))"

definition ValidateTransactionFeeCaps :: "env \<Rightarrow> btx \<Rightarrow> (world, unit) action" where
  "ValidateTransactionFeeCaps E transaction =
     and_then (GetBlockchainClient (tx_Network transaction)) (\<lambda>client.
     and_then (estimateTransactionGasLimit E client transaction) (\<lambda>_.
     and_then (suggestDynamicFeeCaps E client) (\<lambda>_. return_ok ())))"

section \<open>Balances of the hot wallet\<close>

definition parseTransactionValue :: "btx \<Rightarrow> go_error + int" where
  "parseTransactionValue transaction =
     (case parse_big (tx_Value transaction) of
        None \<Rightarrow> Inl (ErrorsNew ''transaction value is invalid'')
      | Some value \<Rightarrow> Inr value)"

definition parseERC20TransferAmount :: "ethlib \<Rightarrow> btx \<Rightarrow> go_error + int" where
  "parseERC20TransferAmount L transaction =
     bind_sum (parseTransactionData L (tx_Data transaction)) (\<lambda>data.
       let method = eth_TransferMethodID L in
       if length data < length method \<or> take (length method) data \<noteq> method then
         Inl (ErrorsNew ''transaction data is not ERC20 transfer data'')
       else bind_sum (eth_UnpackTransfer L (drop (length method) data)) (\<lambda>values.
         Inr (snd values)))"

definition balance_detail :: "btx \<Rightarrow> int \<Rightarrow> int \<Rightarrow> string" where
  "balance_detail transaction balance required =
     '': network '' @ tx_Network transaction @ '', balance '' @ show_int balance @
     '', required '' @ show_int required"

definition validateHotWalletPayoutBalance :: "env \<Rightarrow> client \<Rightarrow> btx \<Rightarrow> (world, unit) action" where
  "validateHotWalletPayoutBalance E client transaction =
     (case blockchain_of (env_cfg E) (tx_Network transaction) of
        None \<Rightarrow> return_err ErrBlockchainNotFound
      | Some blockchainConfig \<Rightarrow>
          (let fromAddress = eth_HexToAddress (env_lib E) (cl_Address client) in
           if bc_TokenType blockchainConfig = TokenTypeNative then
             and_then (lift_sum (parseTransactionValue transaction)) (\<lambda>value.
             and_then (BalanceAt E client fromAddress) (\<lambda>balance.
               if balance < value then
                 return_err (HotWalletError ErrHotWalletNativeBalanceInsufficient
                   (balance_detail transaction balance value))
               else return_ok ()))
           else if bc_TokenType blockchainConfig = TokenTypeERC20 then
             and_then (lift_sum (parseERC20TransferAmount (env_lib E) transaction)) (\<lambda>amount.
             and_then (TokenBalanceAt E client
                 (eth_HexToAddress (env_lib E) (bc_TokenAddress blockchainConfig)) fromAddress)
               (\<lambda>tokenBalance.
                 if tokenBalance < amount then
                   return_err (HotWalletError ErrHotWalletERC20BalanceInsufficient
                     (balance_detail transaction tokenBalance amount))
                 else return_ok ()))
           else return_err ErrBlockchainNotFound))"

definition validateHotWalletGasBalance ::
  "env \<Rightarrow> client \<Rightarrow> btx \<Rightarrow> 64 word \<Rightarrow> int \<Rightarrow> (world, unit) action" where
  "validateHotWalletGasBalance E client transaction gasLimit gasFeeCap =
     (case blockchain_of (env_cfg E) (tx_Network transaction) of
        None \<Rightarrow> return_err ErrBlockchainNotFound
      | Some blockchainConfig \<Rightarrow>
          and_then
            (if bc_TokenType blockchainConfig = TokenTypeNative
             then and_then (lift_sum (parseTransactionValue transaction)) (\<lambda>value.
               return_ok (uint gasLimit * gasFeeCap + value))
             else return_ok (uint gasLimit * gasFeeCap))
            (\<lambda>required.
               and_then (BalanceAt E client (eth_HexToAddress (env_lib E) (cl_Address client)))
                 (\<lambda>balance.
                    if balance < required then
                      return_err (HotWalletError ErrHotWalletNativeGasFeeInsufficient
                        (balance_detail transaction balance required))
                    else return_ok ())))"

definition isHotWalletBalanceError :: "go_error \<Rightarrow> bool" where
  "isHotWalletBalanceError e = (case e of HotWalletError _ _ \<Rightarrow> True | _ \<Rightarrow> False)"

definition alertHotWalletBalanceError :: "btx \<Rightarrow> go_error \<Rightarrow> (world, unit) action" where
  "alertHotWalletBalanceError transaction e =
     (if \<not> isHotWalletBalanceError e then return_ok ()
      else if tx_StatusMessage transaction = Some (error_text e) then return_ok ()
      else tell (Alert ''TransactionSender''
        (''Hot wallet balance is insufficient for transaction '' @ show_nat (tx_ID transaction) @
         '' on network '' @ tx_Network transaction @ '': '' @ error_text e)))"

section \<open>Building the signed transaction\<close>

definition buildDynamicFeeTransaction ::
  "ethlib \<Rightarrow> btx \<Rightarrow> 64 word \<Rightarrow> 64 word \<Rightarrow> int \<Rightarrow> int \<Rightarrow> int \<Rightarrow> go_error + dynamic_fee_tx" where
  "buildDynamicFeeTransaction L transaction nonce gasLimit gasFeeCap gasTipCap chainID =
     bind_sum (parseTransactionValue transaction) (\<lambda>value.
       if \<not> eth_IsHexAddress L (tx_ToAddress transaction) then
         Inl (ErrorsNew ''transaction to address is invalid'')
       else bind_sum (parseTransactionData L (tx_Data transaction)) (\<lambda>data.
         Inr \<lparr>dft_ChainID = chainID, dft_Nonce = nonce, dft_GasTipCap = gasTipCap,
              dft_GasFeeCap = gasFeeCap, dft_Gas = gasLimit,
              dft_To = eth_HexToAddress L (tx_ToAddress transaction),
              dft_Value = value, dft_Data = data\<rparr>))"

definition buildSignedTransaction ::
  "env \<Rightarrow> client \<Rightarrow> btx \<Rightarrow> 64 word \<Rightarrow> (world, signed_tx) action" where
  "buildSignedTransaction E client transaction nonce =
     (if tx_FromAddress transaction \<noteq> cl_Address client then
        return_err (ErrorsNew ''from address is not the same as the client address'')
      else
        and_then (validateHotWalletPayoutBalance E client transaction) (\<lambda>_.
        and_then (estimateTransactionGasLimit E client transaction) (\<lambda>gasLimit.
        and_then (suggestDynamicFeeCaps E client) (\<lambda>(gasFeeCap, gasTipCap).
        and_then (validateHotWalletGasBalance E client transaction gasLimit gasFeeCap) (\<lambda>_.
        and_then (lift_sum (buildDynamicFeeTransaction (env_lib E) transaction nonce gasLimit
                    gasFeeCap gasTipCap (cl_ChainID client))) (\<lambda>rawTx.
        and_then (lift_sum (eth_HexToECDSA (env_lib E) (cl_PrivateKey client))) (\<lambda>privateKey.
          lift_sum (eth_SignTx (env_lib E) rawTx (cl_ChainID client) privateKey))))))))"

text \<open>
  \<open>SendETH\<close> of \<open>blockchain/client.go\<close> sends without the table; no goroutine of the program calls it. An
  error of the node is processed for its nonce; the nonce advances only when the node has accepted.
\<close>

definition zero_transaction :: btx where
  "zero_transaction =
     \<lparr>tx_ID = 0, tx_Network = [], tx_Type = [], tx_Status = TransactionStatusPending, tx_FromAddress = [],
      tx_ToAddress = [], tx_Value = [], tx_Data = None, tx_TxHash = None, tx_BlockNumber = None,
      tx_Nonce = None, tx_GasUsed = None, tx_EffectiveGasPrice = None, tx_StatusMessage = None,
      tx_RetryCount = 0, tx_MaxRetries = 0, tx_RetryTransactionID = None, tx_NextRetryAt = None,
      tx_SentAt = None, tx_ConfirmedAt = None, tx_FailedAt = None, tx_CancellationRequestedAt = None,
      tx_SignedRawTx = None\<rparr>"

definition SendETH :: "env \<Rightarrow> client \<Rightarrow> address \<Rightarrow> int \<Rightarrow> (world, signed_tx) action" where
  "SendETH E client to amount =
     and_then (GetNonce E client) (\<lambda>nonce.
     let transaction = zero_transaction\<lparr>tx_FromAddress := cl_Address client,
           tx_ToAddress := eth_AddressHex (env_lib E) to, tx_Value := show_int amount\<rparr> in
     and_then (estimateTransactionGasLimit E client transaction) (\<lambda>gasLimit.
     and_then (suggestDynamicFeeCaps E client) (\<lambda>(gasFeeCap, gasTipCap).
     and_then (lift_sum (buildDynamicFeeTransaction (env_lib E) transaction nonce gasLimit
                 gasFeeCap gasTipCap (cl_ChainID client))) (\<lambda>tx.
     and_then (lift_sum (eth_HexToECDSA (env_lib E) (cl_PrivateKey client))) (\<lambda>privateKey.
     and_then (lift_sum (eth_SignTx (env_lib E) tx (cl_ChainID client) privateKey)) (\<lambda>signedTx.
     and_then (LimiterWait E) (\<lambda>_.
     and_then (try_result (send_to_node E client signedTx)) (\<lambda>sent.
       case sent of
         Inl e \<Rightarrow> and_then (processSendingTxError client e) return_err
       | Inr _ \<Rightarrow> and_then (IncrementNonce client) (\<lambda>_. return_ok signedTx)))))))))"

section \<open>Acknowledging and recovering a broadcast\<close>

fun is_not_found :: "go_error \<Rightarrow> bool" where
  "is_not_found EthereumNotFound = True"
| "is_not_found (Wrapped _ e) = is_not_found e"
| "is_not_found _ = False"

definition isTransactionVisibleOnChain :: "env \<Rightarrow> client \<Rightarrow> string \<Rightarrow> (world, bool) action" where
  "isTransactionVisibleOnChain E client txHash =
     (let hash = eth_HexToHash (env_lib E) txHash in
      and_then (try_result (ask (\<lambda>t. env_TransactionReceipt E t (cl_Network client) hash))) (\<lambda>r.
        case r of
          Inr receipt \<Rightarrow> return_ok True
        | Inl e \<Rightarrow>
            if \<not> is_not_found e then return_err e
            else and_then (try_result (GetTransactionTransfer E client hash)) (\<lambda>r.
              case r of
                Inr transfer \<Rightarrow> return_ok True
              | Inl e \<Rightarrow> if is_not_found e then return_ok False else return_err e)))"

definition markBroadcastAcknowledged :: "env \<Rightarrow> client \<Rightarrow> btx \<Rightarrow> (world, unit) action" where
  "markBroadcastAcknowledged E client transaction =
     and_then (MarkSent E transaction) (\<lambda>(marked, transaction).
       if \<not> marked \<and> tx_Status transaction \<noteq> TransactionStatusSent then
         return_err (ErrorsNew (''transaction '' @ show_nat (tx_ID transaction) @
           '' could not be marked sent''))
       else case tx_Nonce transaction of
         None \<Rightarrow> return_ok ()
       | Some nonce \<Rightarrow> AdvanceNoncePast client nonce)"

definition acknowledgeBroadcast :: "env \<Rightarrow> client \<Rightarrow> btx \<Rightarrow> (world, unit) action" where
  "acknowledgeBroadcast E client transaction =
     and_then (try_result (SendSignedRawTransaction E client
                 (null_string (tx_SignedRawTx transaction)))) (\<lambda>r.
       case r of
         Inr _ \<Rightarrow> markBroadcastAcknowledged E client transaction
       | Inl e \<Rightarrow>
           if isAlreadyKnownTransactionError e then markBroadcastAcknowledged E client transaction
           else and_then (try_result (isTransactionVisibleOnChain E client
                   (null_string (tx_TxHash transaction)))) (\<lambda>r.
             case r of
               Inl visibilityErr \<Rightarrow> return_err e
             | Inr visible \<Rightarrow>
                 if visible then markBroadcastAcknowledged E client transaction
                 else return_err e))"

definition recoverBroadcastingTransaction :: "env \<Rightarrow> btx \<Rightarrow> (world, unit) action" where
  "recoverBroadcastingTransaction E transaction =
     (if tx_TxHash transaction = None \<or> tx_SignedRawTx transaction = None \<or>
         tx_Nonce transaction = None then
        (let msg = ''broadcasting transaction '' @ show_nat (tx_ID transaction) @
            '' is missing signed payload'' in
         and_then (tell (Alert ''TransactionSender'' msg)) (\<lambda>_. return_err (ErrorsNew msg)))
      else
        and_then (GetBlockchainClient (tx_Network transaction)) (\<lambda>client.
        and_then (isTransactionVisibleOnChain E client (null_string (tx_TxHash transaction)))
          (\<lambda>visible.
            if visible then markBroadcastAcknowledged E client transaction
            else and_then (try_result (SendSignedRawTransaction E client
                     (null_string (tx_SignedRawTx transaction)))) (\<lambda>r.
              case r of
                Inr _ \<Rightarrow> markBroadcastAcknowledged E client transaction
              | Inl e \<Rightarrow>
                  if isAlreadyKnownTransactionError e
                  then markBroadcastAcknowledged E client transaction
                  else and_then (isTransactionVisibleOnChain E client
                         (null_string (tx_TxHash transaction))) (\<lambda>visible.
                    if visible then markBroadcastAcknowledged E client transaction
                    else return_err e)))))"

section \<open>sendTransaction\<close>

text \<open>
  \<open>if err != nil { release; return err }\<close>: an error of the release is only logged.
\<close>

definition release_and_fail :: "env \<Rightarrow> btx \<Rightarrow> go_error \<Rightarrow> (world, 'a) action" where
  "release_and_fail E transaction e =
     and_then (try_result (ReleaseSending E transaction (error_text e))) (\<lambda>_. return_err e)"

definition or_release ::
  "env \<Rightarrow> btx \<Rightarrow> (world, 'a) action \<Rightarrow> ('a \<Rightarrow> (world, 'b) action) \<Rightarrow> (world, 'b) action" where
  "or_release E transaction m f =
     and_then (try_result m) (\<lambda>r. case r of
        Inl e \<Rightarrow> release_and_fail E transaction e
      | Inr x \<Rightarrow> f x)"

text \<open>From the claim on: \<open>client\<close> is locked by \<open>NonceMu\<close>.\<close>

definition prepare_and_send :: "env \<Rightarrow> client \<Rightarrow> btx \<Rightarrow> (world, unit) action" where
  "prepare_and_send E client transaction =
     or_release E transaction (GetNonce E client) (\<lambda>nonce.
     and_then (try_result (buildSignedTransaction E client transaction nonce)) (\<lambda>r.
       case r of
         Inl e \<Rightarrow>
           and_then (processSendingTxError client e) (\<lambda>e.
           and_then (alertHotWalletBalanceError transaction e) (\<lambda>_.
             release_and_fail E transaction e))
       | Inr signedTx \<Rightarrow>
           or_release E transaction (lift_sum (EncodeSignedRawTransaction (env_lib E) signedTx))
             (\<lambda>signedRawTx.
           or_release E transaction
             (PrepareBroadcast E transaction
                (eth_HashHex (env_lib E) (eth_TxHash (env_lib E) signedTx)) (sint nonce) signedRawTx)
             (\<lambda>(prepared, transaction).
                if \<not> prepared then
                  and_then (try_result (ReleaseSending E transaction
                      ''cancellation requested before broadcast'')) (\<lambda>_. return_ok ())
                else acknowledgeBroadcast E client transaction))))"

definition send_claimed :: "env \<Rightarrow> btx \<Rightarrow> (world, unit) action" where
  "send_claimed E transaction =
     or_release E transaction (GetSentTransactionCountByNetwork E (tx_Network transaction))
       (\<lambda>sentTransactionCount.
     or_release E transaction (GetBlockchainClient (tx_Network transaction)) (\<lambda>client.
       if of_nat sentTransactionCount \<ge> cl_SentTransactionCountLimit client then
         and_then (ReleaseSending E transaction ''sent transaction count limit reached'')
           (\<lambda>_. return_ok ())
       else prepare_and_send E client transaction))"

text \<open>\<open>%v\<close> of a \<open>sql.NullInt64\<close>.\<close>

definition show_null_int :: "int option \<Rightarrow> string" where
  "show_null_int n =
     (case n of None \<Rightarrow> ''{0 false}'' | Some k \<Rightarrow> ''{'' @ show_int k @ '' true}'')"

definition send_pending :: "env \<Rightarrow> btx \<Rightarrow> (world, unit) action" where
  "send_pending E transaction =
     and_then (GetBroadcastingTransactionCountByNetwork E (tx_Network transaction))
       (\<lambda>broadcastingCount.
        if broadcastingCount > 0 then return_ok ()
        else and_then (try_result (ClaimForSending E transaction)) (\<lambda>r.
          case r of
            Inl e \<Rightarrow>
              if e = ErrRetryAncestorsUnsafe then
                and_then (tell (Alert ''TransactionSender''
                  (''blocked retry broadcast because ancestors lack proven on-chain failure: transaction_id=''
                   @ show_nat (tx_ID transaction) @ '' network='' @ tx_Network transaction @
                   '' retry_transaction_id='' @ show_null_int (map_option int (tx_RetryTransactionID transaction)))))
                  (\<lambda>_. return_err e)
              else return_err e
          | Inr (claimed, transaction) \<Rightarrow>
              if \<not> claimed then return_ok () else send_claimed E transaction))"

definition sendTransaction :: "env \<Rightarrow> btx \<Rightarrow> (world, unit) action" where
  "sendTransaction E transaction =
     and_then (Sync E transaction) (\<lambda>transaction.
       if tx_Status transaction = TransactionStatusBroadcasting then
         recoverBroadcastingTransaction E transaction
       else if tx_Status transaction \<noteq> TransactionStatusPending then return_ok ()
       else if tx_TxHash transaction \<noteq> None \<or> tx_SignedRawTx transaction \<noteq> None then return_ok ()
       else case tx_NextRetryAt transaction of
         None \<Rightarrow> send_pending E transaction
       | Some nextRetryAt \<Rightarrow>
           and_then (time_now E) (\<lambda>now.
             if nextRetryAt > now then return_ok () else send_pending E transaction))"

text \<open>
  One round of \<open>processPendingTransactions\<close>: take the head of the queue, send it, forget that it is
  being processed. The error is only logged.
\<close>

definition process_next :: "env \<Rightarrow> sender_state \<Rightarrow> world \<Rightarrow> sender_state \<times> world" where
  "process_next E S w =
     (case ss_txQueue S of
        [] \<Rightarrow> (S, w)
      | transaction # rest \<Rightarrow>
          (S\<lparr>ss_txQueue := rest,
             ss_processingTxs := removeAll (tx_ID transaction) (ss_processingTxs S)\<rparr>,
           snd (sendTransaction E transaction w)))"

section \<open>The handler keeps the invariant of the world\<close>

lemma grows_parts [grows]:
  "keeps (grown_from L d0) (suggestDynamicFeeCaps E c)"
  "keeps (grown_from L d0) (estimateTransactionGasLimit E c tx)"
  "keeps (grown_from L d0) (validateHotWalletPayoutBalance E c tx)"
  "keeps (grown_from L d0) (validateHotWalletGasBalance E c tx g f)"
  "keeps (grown_from L d0) (alertHotWalletBalanceError tx e)"
  "keeps (grown_from L d0) (isTransactionVisibleOnChain E c h)"
  "keeps (grown_from L d0) (markBroadcastAcknowledged E c tx)"
  unfolding suggestDynamicFeeCaps_def estimateTransactionGasLimit_def
    validateHotWalletPayoutBalance_def validateHotWalletGasBalance_def Let_def
    alertHotWalletBalanceError_def isTransactionVisibleOnChain_def markBroadcastAcknowledged_def
  by (intro safe grows)+

lemma grows_ValidateTransactionFeeCaps [grows]:
  "keeps (grown_from L d0) (ValidateTransactionFeeCaps E tx)"
  unfolding ValidateTransactionFeeCaps_def by (intro safe grows)

lemma grows_buildSignedTransaction [grows]:
  "keeps (grown_from L d0) (buildSignedTransaction E c tx n)"
  unfolding buildSignedTransaction_def by (intro safe grows)

lemma grows_acknowledgeBroadcast:
  assumes "knows tx d0" and "tx_SignedRawTx tx = Some x" and "cl_Network c = tx_Network tx"
  shows "keeps (grown_from (env_lib E) d0) (acknowledgeBroadcast E c tx)"
  unfolding acknowledgeBroadcast_def using assms
  by (intro safe grows) (simp add: null_string_def grows_SendSignedRawTransaction)

lemma grows_recoverBroadcasting:
  assumes "knows tx d0"
  shows "keeps (grown_from (env_lib E) d0) (recoverBroadcastingTransaction E tx)"
proof (cases "tx_SignedRawTx tx")
  case None
  then show ?thesis
    unfolding recoverBroadcastingTransaction_def Let_def by (simp add: keeps_and_then grows safe)
next
  case (Some x)
  with assms have send: "keeps (grown_from (env_lib E) d0) (SendSignedRawTransaction E c
      (null_string (tx_SignedRawTx tx)))" if "cl_Network c = tx_Network tx" for c
    using that by (simp add: null_string_def grows_SendSignedRawTransaction)
  show ?thesis
    unfolding recoverBroadcastingTransaction_def Let_def
    by (rule keeps_if) (intro safe grows, rule grows_with_client, intro safe grows send)
qed

lemma grows_release_and_fail [grows]: "keeps (grown_from L d0) (release_and_fail E tx e)"
  unfolding release_and_fail_def by (intro safe grows)

lemma grows_or_release [grows]:
  "keeps (grown_from L d0) m \<Longrightarrow> (\<And>x. keeps (grown_from L d0) (f x)) \<Longrightarrow>
   keeps (grown_from L d0) (or_release E tx m f)"
  unfolding or_release_def by (intro safe grows)

lemma grows_or_release_client:
  assumes "\<And>c. cl_Network c = n \<Longrightarrow> keeps (grown_from L d0) (f c)"
  shows "keeps (grown_from L d0) (or_release E tx (GetBlockchainClient n) f)"
  unfolding keeps_def
proof (intro allI impI)
  fix w assume w: "grown_from L d0 w"
  show "grown_from L d0 (snd (or_release E tx (GetBlockchainClient n) f w))"
  proof (cases "w_clients w n")
    case None
    with w show ?thesis
      by (simp add: or_release_def and_then_def try_result_def GetBlockchainClient_def
          grows_release_and_fail [unfolded keeps_def, rule_format])
  next
    case (Some c)
    with w have "cl_Network c = n" by (simp add: grown_from_def world_ok_def clients_ok_def)
    with assms w have "grown_from L d0 (snd (f c w))" unfolding keeps_def by blast
    with Some show ?thesis
      by (simp add: or_release_def and_then_def try_result_def GetBlockchainClient_def)
  qed
qed

text \<open>A row that is reported prepared carries the payload, here and in the table.\<close>

lemma prepare_statement_knows:
  assumes ok: "table_ok d" and k: "knows tx d"
    and run: "prepare_statement (tx_ID tx) h n x d = (Inr m, d')" and "0 < m"
  shows "knows (prepare_set h n x tx) d'"
proof -
  obtain r where r: "r \<in> set (db_transactions d)" "identity r = identity tx" "payment r = payment tx"
    using k by (auto simp: knows_def)
  have d': "d' = update_transactions (prepare_guard (tx_ID tx)) (prepare_set h n x) d"
    and m: "m = rows_affected (prepare_guard (tx_ID tx)) (db_transactions d)"
    using run by (auto simp: prepare_statement_def Let_def split: if_splits)
  obtain q where q: "q \<in> set (db_transactions d)" "prepare_guard (tx_ID tx) q"
    using m \<open>0 < m\<close> rows_affected_0 [of "prepare_guard (tx_ID tx)" "db_transactions d"] by auto
  then have "tx_ID q = tx_ID r" using r(2) by (simp add: prepare_guard_def unbroadcasted_def identity_def)
  with ok q(1) r(1) have "q = r" by (auto simp: table_ok_def txs_ok_def dest: same_row)
  with q r d' have "prepare_set h n x r \<in> set (db_transactions d')" by (auto simp: set_update_where)
  moreover have "identity (prepare_set h n x r) = identity (prepare_set h n x tx)"
    "payment (prepare_set h n x r) = payment (prepare_set h n x tx)"
    using r by (simp_all add: prepare.keeps_identity prepare.keeps_payment)
  ultimately show ?thesis by (auto simp: knows_def prepare_set_def)
qed

lemma PrepareBroadcast_knows:
  assumes "knows tx d0"
  shows "triple (grown_from L d0) (PrepareBroadcast E tx h n x)
     (\<lambda>r w. fst r \<longrightarrow> knows (snd r) (w_db w) \<and> tx_SignedRawTx (snd r) = Some x \<and>
        tx_Network (snd r) = tx_Network tx) (\<lambda>_ _. True)"
proof -
  have stmt: "triple (grown_from L d0) (db_action E (prepare_statement (tx_ID tx) h n x))
      (\<lambda>m w. 0 < m \<longrightarrow> knows (prepare_set h n x tx) (w_db w)) (\<lambda>_ _. True)"
    unfolding triple_def
  proof (intro allI impI)
    fix w r t assume w: "grown_from L d0 w"
      and run: "db_action E (prepare_statement (tx_ID tx) h n x) w = (r, t)"
    have "table_ok (seen_db E w) \<and> txs_le d0 (seen_db E w)"
      using w by (intro grown.seen_db_keeps) (simp add: grown_from_def world_ok_def)
    then have "table_ok (seen_db E w)" "knows tx (seen_db E w)"
      using assms by (auto intro: knows_mono)
    with run show "case r of Inl e \<Rightarrow> True | Inr m \<Rightarrow> 0 < m \<longrightarrow> knows (prepare_set h n x tx) (w_db t)"
      by (auto simp: db_action_def Let_def split: option.splits prod.splits sum.split
          intro: prepare_statement_knows)
  qed
  have "triple (\<lambda>w. 0 < m \<longrightarrow> knows (prepare_set h n x tx) (w_db w))
      (if m = 0 then and_then (Sync E tx) (\<lambda>tx. return_ok (False, tx))
       else return_ok (True, prepare_set h n x tx))
      (\<lambda>r w. fst r \<longrightarrow> knows (snd r) (w_db w) \<and> tx_SignedRawTx (snd r) = Some x \<and>
         tx_Network (snd r) = tx_Network tx) (\<lambda>_ _. True)" for m :: nat
    by (auto simp: triple_def and_then_def return_ok_def prepare_set_def split: prod.splits sum.splits)
  from triple_and_then [OF stmt this] show ?thesis
    unfolding PrepareBroadcast_def by (intro triple_if triple_return_err) simp_all
qed

lemma grows_or_release_then:
  assumes m: "keeps (grown_from L d0) m"
    and K: "triple (grown_from L d0) m (\<lambda>x w. K x (w_db w)) (\<lambda>_ _. True)"
    and f: "\<And>x d1. txs_le d0 d1 \<Longrightarrow> K x d1 \<Longrightarrow> keeps (grown_from L d1) (f x)"
  shows "keeps (grown_from L d0) (or_release E tx m f)"
  unfolding or_release_def
proof (rule grows_then [where K = "\<lambda>r d. case r of Inl e \<Rightarrow> True | Inr x \<Rightarrow> K x d"])
  show "triple (grown_from L d0) (try_result m)
      (\<lambda>r w. case r of Inl e \<Rightarrow> True | Inr x \<Rightarrow> K x (w_db w)) (\<lambda>_ _. True)"
    by (rule triple_try, rule triple_weaken [OF K]) auto
qed (auto intro: keeps_try m f grows split: sum.split)

lemma grows_prepare_and_send:
  assumes k: "knows tx d0" and n: "cl_Network c = tx_Network tx"
  shows "keeps (grown_from (env_lib E) d0) (prepare_and_send E c tx)"
proof -
  have prepare: "keeps (grown_from (env_lib E) d0) (or_release E tx (PrepareBroadcast E tx h m x)
      (\<lambda>(prepared, tx').
         if \<not> prepared then
           and_then (try_result (ReleaseSending E tx' msg)) (\<lambda>_. return_ok ())
         else acknowledgeBroadcast E c tx'))" for h m x msg
    using n
    by (intro grows_or_release_then [where K = "\<lambda>r d. fst r \<longrightarrow> knows (snd r) d \<and>
          tx_SignedRawTx (snd r) = Some x \<and> tx_Network (snd r) = tx_Network tx",
          OF grows_PrepareBroadcast PrepareBroadcast_knows [OF k]])
      (auto intro!: safe grows grows_acknowledgeBroadcast)
  show ?thesis
    unfolding prepare_and_send_def by (intro safe grows prepare)
qed

lemma grows_send_claimed:
  "knows tx d0 \<Longrightarrow> keeps (grown_from (env_lib E) d0) (send_claimed E tx)"
  unfolding send_claimed_def
  by (rule grows_or_release, rule grows, rule grows_or_release_client)
    (intro safe grows grows_prepare_and_send)

lemma ClaimForSending_knows:
  assumes "knows tx d0"
  shows "triple (grown_from L d0) (ClaimForSending E tx) (\<lambda>(claimed, tx') w. knows tx' (w_db w)) (\<lambda>_ _. True)"
  unfolding triple_def
proof (intro allI impI)
  fix w r t assume w: "grown_from L d0 w" and run: "ClaimForSending E tx w = (r, t)"
  have "knows tx (w_db t)"
    using keepsD [OF grows_ClaimForSending [OF assms] w run] assms
    by (auto simp: grown_from_def intro: knows_mono)
  moreover have "tx' = tx \<or> tx' = tx\<lparr>tx_Status := TransactionStatusSending\<rparr>" if "r = Inr (b, tx')" for b tx'
  proof -
    have "db_transaction E (claim_body E tx) w = (Inr (b, tx'), t)"
      using run that by (simp add: ClaimForSending_eq return_err_def split: if_splits)
    then obtain v u where "claim_body E tx v = (Inr (b, tx'), u)" by (rule db_transaction_ok)
    then show ?thesis
      by (auto simp: claim_body_def and_then_def return_ok_def split: prod.splits sum.splits if_splits)
  qed
  moreover have "knows (tx\<lparr>tx_Status := TransactionStatusSending\<rparr>) d = knows tx d" for d
    by (simp add: knows_def identity_def payment_def)
  ultimately show "case r of Inl e \<Rightarrow> True | Inr x \<Rightarrow> (case x of (claimed, tx') \<Rightarrow> \<lambda>w. knows tx' (w_db w)) t"
    by (auto split: sum.split prod.split)
qed

lemma grows_send_pending:
  assumes k: "knows tx d0"
  shows "keeps (grown_from (env_lib E) d0) (send_pending E tx)"
proof -
  let ?K = "\<lambda>r d. case r of Inl e \<Rightarrow> True | Inr (claimed, tx') \<Rightarrow> knows tx' d"
  have claim: "triple (grown_from (env_lib E) d0) (try_result (ClaimForSending E tx))
      (\<lambda>r w. ?K r (w_db w)) (\<lambda>_ _. True)"
    by (rule triple_try, rule triple_weaken [OF ClaimForSending_knows [OF k]]) auto
  have claimed: "keeps (grown_from (env_lib E) d0) (and_then (try_result (ClaimForSending E tx)) (\<lambda>r.
      case r of
        Inl e \<Rightarrow> if e = ErrRetryAncestorsUnsafe then and_then (tell (Alert s (msg e))) (\<lambda>_. return_err e)
          else return_err e
      | Inr (claimed, tx') \<Rightarrow> if \<not> claimed then return_ok () else send_claimed E tx'))"
    for s and msg :: "go_error \<Rightarrow> string"
    by (rule grows_then [where K = ?K, OF keeps_try [OF grows_ClaimForSending [OF k]] claim])
      (auto intro!: safe grows grows_send_claimed split: sum.split prod.split)
  show ?thesis
    unfolding send_pending_def
    by (rule keeps_and_then [OF grows_reads(5)], rule keeps_if [OF keeps_return_ok], rule claimed)
qed

lemma grows_sendTransaction:
  "keeps (grown_from (env_lib E) d0) (sendTransaction E tx)"
  unfolding sendTransaction_def
proof (rule grows_then [where K = knows])
  show "triple (grown_from (env_lib E) d0) (Sync E tx) (\<lambda>x w. knows x (w_db w)) (\<lambda>_ _. True)"
    by (rule triple_weaken [OF Sync_knows]) auto
qed (auto intro!: safe grows grows_recoverBroadcasting grows_send_pending split: option.split)

end
