(* ===== verification/Tx_Confirmer.thy ===== *)
theory Tx_Confirmer
  imports Tx_Sender
begin

text \<open>
  \<open>blockchain/transaction_confirmer.go\<close> and \<open>blockchain/transaction_manager.go\<close>: settling a sent
  transaction by its receipt, and the life cycle of the two workers.
\<close>

section \<open>Confirmation\<close>

definition receiptHasRequiredConfirmations :: "64 word \<Rightarrow> 64 word \<Rightarrow> 64 word \<Rightarrow> bool" where
  "receiptHasRequiredConfirmations latestBlock receiptBlock required =
     (if latestBlock < receiptBlock then False else latestBlock - receiptBlock \<ge> required)"

definition block_Int64 :: "receipt \<Rightarrow> int" where
  "block_Int64 receipt = (case rc_BlockNumber receipt of None \<Rightarrow> 0 | Some n \<Rightarrow> Int64 n)"

definition handleSuccessfulTransaction :: "env \<Rightarrow> btx \<Rightarrow> receipt \<Rightarrow> (world, unit) action" where
  "handleSuccessfulTransaction E transaction receipt =
     and_then (MarkConfirmed E transaction (block_Int64 receipt) (sint (rc_GasUsed receipt))
                 (show_int (rc_EffectiveGasPrice receipt))) (\<lambda>_. return_ok ())"

definition settle_failure ::
  "env \<Rightarrow> btx \<Rightarrow> receipt \<Rightarrow> string \<Rightarrow> (world, unit) action" where
  "settle_failure E transaction receipt errorMsg =
     and_then (MarkFailedFromSent E transaction (block_Int64 receipt) (sint (rc_GasUsed receipt))
                 (show_int (rc_EffectiveGasPrice receipt)) errorMsg) (\<lambda>(marked, transaction).
       if \<not> marked then return_ok ()
       else if tx_RetryCount transaction < tx_MaxRetries transaction
       then CreateRetryTransaction E transaction
       else return_ok ())"

definition handleFailedTransaction ::
  "env \<Rightarrow> client \<Rightarrow> btx \<Rightarrow> receipt \<Rightarrow> (world, unit) action" where
  "handleFailedTransaction E client transaction receipt =
     and_then (try_result (GetErrorMessageFromTransaction E client transaction receipt)) (\<lambda>r.
       let errorMsg = (case r of
           Inl e \<Rightarrow> ''Transaction failed with status 0: '' @ error_text e
         | Inr m \<Rightarrow> m) in
       db_transaction E (settle_failure E transaction receipt errorMsg))"

definition handleDelayedReceipt :: "env \<Rightarrow> btx \<Rightarrow> (world, unit) action" where
  "handleDelayedReceipt E transaction =
     and_then (MarkReceiptDelayed E transaction) (\<lambda>(alerted, transaction).
       if \<not> alerted then return_ok ()
       else tell (Alert ''TransactionConfirmer''
         (''transaction receipt delayed without on-chain failure proof: transaction_id='' @
          show_nat (tx_ID transaction) @ '' network='' @ tx_Network transaction @ '' tx_hash='' @
          null_string (tx_TxHash transaction) @ '' nonce='' @ show_null_int (tx_Nonce transaction))))"

text \<open>With the receipt and the head of the chain in hand.\<close>

definition settle_by_receipt ::
  "env \<Rightarrow> blockchain_config \<Rightarrow> client \<Rightarrow> btx \<Rightarrow> receipt \<Rightarrow> (world, unit) action" where
  "settle_by_receipt E blockchain client transaction receipt =
     (case rc_BlockNumber receipt of
        None \<Rightarrow> return_err (ErrorsNew (''transaction '' @ show_nat (tx_ID transaction) @
          '' receipt has no block number''))
      | Some receiptBlock \<Rightarrow>
          and_then (ask (\<lambda>t. env_HeaderByNumber E t (cl_Network client) None)) (\<lambda>latestHeader.
            case hd_Number latestHeader of
              None \<Rightarrow> return_err (ErrorsNew (''latest block header unavailable for network '' @
                tx_Network transaction))
            | Some latestBlock \<Rightarrow>
                if \<not> receiptHasRequiredConfirmations (Uint64 latestBlock) (Uint64 receiptBlock)
                       (bc_ReceiptConfirmationBlocks blockchain) then return_ok ()
                else if rc_Status receipt = ReceiptStatusSuccessful then
                  handleSuccessfulTransaction E transaction receipt
                else handleFailedTransaction E client transaction receipt))"

definition confirmTransaction :: "env \<Rightarrow> btx \<Rightarrow> (world, unit) action" where
  "confirmTransaction E transaction =
     (case tx_TxHash transaction of
        None \<Rightarrow> return_ok ()
      | Some txHash \<Rightarrow>
     (case tx_SentAt transaction of
        None \<Rightarrow> return_ok ()
      | Some sentAt \<Rightarrow>
     (case blockchain_of (env_cfg E) (tx_Network transaction) of
        None \<Rightarrow> return_err (ErrorsNew (''network '' @ tx_Network transaction @ '' not found''))
      | Some blockchain \<Rightarrow>
          and_then (GetBlockchainClient (tx_Network transaction)) (\<lambda>client.
          and_then (try_result (ask (\<lambda>t. env_TransactionReceipt E t (cl_Network client)
                                          (eth_HexToHash (env_lib E) txHash)))) (\<lambda>r.
            case r of
              Inl e \<Rightarrow>
                if is_not_found e then
                  and_then (time_now E) (\<lambda>now.
                    if now > sentAt + go_seconds (bc_ReceiptWaitTime blockchain) then
                      handleDelayedReceipt E transaction
                    else return_ok ())
                else return_err e
            | Inr receipt \<Rightarrow> settle_by_receipt E blockchain client transaction receipt)))))"

section \<open>Settling a failure keeps the invariant\<close>

text \<open>
  After the failure is marked and before the retry is inserted, the row has failed, is the newest of
  its chain, and the chain was open when the transaction started.
\<close>

definition retryable :: "btx \<Rightarrow> db \<Rightarrow> bool" where
  "retryable tx d \<longleftrightarrow> (\<exists>r \<in> set (db_transactions d). identity r = identity tx \<and>
     payment r = payment tx \<and> tx_Status r = TransactionStatusFailed \<and>
     (\<forall>s. in_chain (RootTransactionID tx) d s \<longrightarrow> tx_ID s \<le> tx_ID r))"

lemma identity_root: "identity r = identity s \<Longrightarrow> RootTransactionID r = RootTransactionID s"
  by (auto simp: identity_def RootTransactionID_def split: option.splits)

lemma retryable_lasting: "lasting (retryable tx)"
  unfolding lasting_def
proof (intro allI impI)
  fix d d' assume ok: "table_ok d" and le: "txs_le d d'" and "retryable tx d"
  then obtain r where r: "r \<in> set (db_transactions d)" "identity r = identity tx"
    "payment r = payment tx" "tx_Status r = TransactionStatusFailed"
    and newest: "\<And>s. in_chain (RootTransactionID tx) d s \<Longrightarrow> tx_ID s \<le> tx_ID r"
    by (auto simp: retryable_def)
  have root: "RootTransactionID r = RootTransactionID tx" using r(2) by (rule identity_root)
  have "terminal s" if s: "in_chain (RootTransactionID tx) d s" for s
  proof (cases "tx_ID s = tx_ID r")
    case True
    with ok r(1,4) s have "s = r" by (auto simp: in_chain_def table_ok_def txs_ok_def dest: same_row)
    with r(4) show ?thesis by (simp add: terminal_def)
  next
    case False
    with newest [OF s] have "tx_ID s < tx_ID r" by simp
    with ok r(1) root s have "tx_Status s = TransactionStatusFailed"
      by (auto simp: table_ok_def txs_ok_def chains_ok_def in_chain_def)
    then show ?thesis by (simp add: terminal_def)
  qed
  moreover have "in_chain (RootTransactionID tx) d r" using r(1) root by (simp add: in_chain_def)
  ultimately have "settled (RootTransactionID tx) d" by (auto simp: settled_def)
  then have "in_chain (RootTransactionID tx) d' s \<longleftrightarrow> in_chain (RootTransactionID tx) d s" for s
    using txs_le_settled_chain [OF le] by simp
  with r root newest show "retryable tx d'"
    unfolding retryable_def in_chain_def by metis
qed

text \<open>The chain of a row that is still sent was not settled before.\<close>

lemma mark_failed_retryable:
  fixes now b g :: int and p msg :: string
  assumes ok: "table_ok d" and le: "txs_le d0 d" and k: "knows tx d0"
    and n: "0 < rows_affected (mark_failed_guard (tx_ID tx)) (db_transactions d)"
  defines "d' \<equiv> update_transactions (mark_failed_guard (tx_ID tx)) (mark_failed_set now b g p msg) d"
  shows "retryable tx d' \<and> \<not> settled (RootTransactionID tx) d0"
proof -
  let ?m = "mark_failed_guard (tx_ID tx)" and ?u = "mark_failed_set now b g p msg"
  obtain r where r: "r \<in> set (db_transactions d)" "?m r"
    using n rows_affected_0 [of ?m "db_transactions d"] by auto
  obtain q where q: "q \<in> set (db_transactions d)" "identity q = identity tx" "payment q = payment tx"
    using knows_mono [OF le k] by (auto simp: knows_def)
  have ids: "ids_ok d" and txs: "txs_ok d" using ok by (simp_all add: table_ok_def txs_ok_def)
  have "q = r" using same_row [OF ids q(1) r(1)] q(2) r(2) by (simp add: mark_failed_guard_def identity_def)
  with q have rt: "identity r = identity tx" "payment r = payment tx" by simp_all
  then have root: "RootTransactionID r = RootTransactionID tx" by (intro identity_root)
  have open_r: "tx_Status r \<noteq> TransactionStatusFailed" "\<not> terminal r"
    using r(2) by (auto simp: mark_failed_guard_def terminal_def)
  have "mark_failed.step_row (tx_ID tx) now b g p msg r \<in> set (db_transactions d')"
    unfolding d'_def mark_failed.set_after using r(1) by (rule imageI)
  then have "?u r \<in> set (db_transactions d')"
    using r(2) by (simp add: mark_failed.step_row_def)
  moreover have "tx_ID s \<le> tx_ID (?u r)" if "in_chain (RootTransactionID tx) d' s" for s
  proof -
    from that obtain s0 where "s0 \<in> set (db_transactions d)" "s = mark_failed.step_row (tx_ID tx) now b g p msg s0"
      unfolding in_chain_def d'_def mark_failed.set_after by auto
    with that newest_row_if_open [OF txs r(1) open_r(1), of s0] root show ?thesis
      by (simp add: in_chain_def mark_failed_set_def)
  qed
  ultimately have "retryable tx d'"
    unfolding retryable_def
    by (intro bexI [of _ "?u r"]) (simp_all add: rt mark_failed.keeps_identity mark_failed.keeps_payment,
        simp add: mark_failed_set_def)
  moreover have "\<not> settled (RootTransactionID tx) d0"
  proof -
    obtain r0 where r0: "r0 \<in> set (db_transactions d0)" "identity r0 = identity tx"
      using k by (auto simp: knows_def)
    then obtain r1 where r1: "r1 \<in> set (db_transactions d)" "row_le r0 r1"
      using txs_leD(1) [OF le] by blast
    then have "r1 = r" using same_row [OF ids r1(1) r(1)] r0(2) rt(1)
      by (simp add: row_leD(1) identity_def)
    with r1(2) open_r(2) have "\<not> terminal r0" using row_leD(3) by metis
    moreover have "RootTransactionID r0 = RootTransactionID tx" using r0(2) by (rule identity_root)
    ultimately show ?thesis using r0(1) by (auto simp: settled_def in_chain_def)
  qed
  ultimately show ?thesis by simp
qed

lemma insert_retry_step:
  assumes ok: "table_ok d" and le: "txs_le d0 d" and ret: "retryable tx d"
    and open_chain: "\<not> settled (RootTransactionID tx) d0"
    and count: "tx_RetryCount tx < tx_MaxRetries tx"
  shows "table_ok (insert_transaction (retry_transaction at tx) d) \<and>
    txs_le d0 (insert_transaction (retry_transaction at tx) d)"
proof -
  obtain r where r: "r \<in> set (db_transactions d)" "identity r = identity tx" "payment r = payment tx"
    "tx_Status r = TransactionStatusFailed"
    and newest: "\<And>s. in_chain (RootTransactionID tx) d s \<Longrightarrow> tx_ID s \<le> tx_ID r"
    using ret by (auto simp: retryable_def)
  have root: "RootTransactionID r = RootTransactionID tx" using r(2) by (rule identity_root)
  have count_r: "tx_RetryCount r < tx_MaxRetries r"
    using count r(2,3) by (simp add: identity_def payment_def)
  have txs: "txs_ok d" and anc: "ancestors_ok d" and st: "db_started d" and ids: "ids_ok d"
    using ok by (simp_all add: table_ok_def txs_ok_def)
  have "txs_ok (insert_transaction (retry_transaction at tx) d)"
    using newest root
    by (intro insert_retry_ok [OF txs r(1,4) _ count_r]) (simp_all add: r(2,3))
  moreover have "ancestors_ok (insert_transaction (retry_transaction at tx) d)"
    by (intro ancestors_ok_insert anc ids) (simp add: retry_transaction_def)
  moreover have "RootTransactionID ((retry_transaction at tx)\<lparr>tx_ID := n\<rparr>) = RootTransactionID tx" for n
    by (auto simp: retry_transaction_def RootTransactionID_def split: option.splits)
  then have "txs_le d0 (insert_transaction (retry_transaction at tx) d)"
    using le open_chain unfolding txs_le_def in_chain_def by auto
  ultimately show ?thesis using st by (simp add: table_ok_def db_started_def)
qed

lemma MarkFailedFromSent_triple:
  assumes k: "knows tx d0"
  shows "triple (grown_from L d0) (MarkFailedFromSent E tx b g p msg)
     (\<lambda>r w. grown_from L d0 w \<and> identity (snd r) = identity tx \<and> payment (snd r) = payment tx \<and>
        (fst r \<longrightarrow> retryable tx (w_db w) \<and> \<not> settled (RootTransactionID tx) d0))
     (\<lambda>_. grown_from L d0)"
proof -
  have upd: "triple (\<lambda>w. grown_from L d0 w \<and> True)
      (db_update E (mark_failed_guard (tx_ID tx)) (mark_failed_set now b g p msg))
      (\<lambda>n w. grown_from L d0 w \<and> (0 < n \<longrightarrow> retryable tx (w_db w) \<and> \<not> settled (RootTransactionID tx) d0))
      (\<lambda>_. grown_from L d0)" for now
    unfolding db_update_def
  proof (rule db_action_triple [OF true_lasting])
    fix d r d' assume d: "table_ok d" "txs_le d0 d"
      and run: "(Inr (rows_affected (mark_failed_guard (tx_ID tx)) (db_transactions d)),
        update_transactions (mark_failed_guard (tx_ID tx)) (mark_failed_set now b g p msg) d) = (r, d')"
    have "table_ok d' \<and> txs_le d d'"
      using d run by (auto simp: table_ok_def mark_failed.txs_ok_after mark_failed.txs_le_after
          mark_failed.ancestors_ok_after)
    then show "table_ok d' \<and> txs_le d0 d' \<and>
        (\<forall>q \<in> set (db_transactions d). \<exists>q' \<in> set (db_transactions d'). row_le q q') \<and>
        (case r of Inl e \<Rightarrow> True | Inr n \<Rightarrow>
           0 < n \<longrightarrow> retryable tx d' \<and> \<not> settled (RootTransactionID tx) d0)"
      using d run mark_failed_retryable [OF d k] by (auto intro: txs_le_trans dest: txs_leD(1))
  qed
  have upd': "triple (grown_from L d0)
      (db_update E (mark_failed_guard (tx_ID tx)) (mark_failed_set now b g p msg))
      (\<lambda>n w. grown_from L d0 w \<and> (0 < n \<longrightarrow> retryable tx (w_db w) \<and> \<not> settled (RootTransactionID tx) d0))
      (\<lambda>_. grown_from L d0)" for now
    by (rule triple_weaken [OF upd]) auto
  show ?thesis
    unfolding MarkFailedFromSent_def
    apply (rule triple_if, rule triple_return_err, simp)
    apply (rule triple_and_then, rule grows_primitives(3) [unfolded keeps_triple])
    apply (rule triple_and_then [OF upd'])
    by (auto intro!: triple_if triple_return_ok simp: mark_failed_set_def identity_def payment_def)
qed

lemma CreateRetryTransaction_grows:
  assumes "\<not> settled (RootTransactionID tx) d0" and "tx_RetryCount tx < tx_MaxRetries tx"
  shows "triple (\<lambda>w. grown_from L d0 w \<and> retryable tx (w_db w)) (CreateRetryTransaction E tx)
     (\<lambda>_. grown_from L d0) (\<lambda>_. grown_from L d0)"
proof -
  have save: "triple (\<lambda>w. grown_from L d0 w \<and> retryable tx (w_db w)) (Save E (retry_transaction at tx))
      (\<lambda>_ w. grown_from L d0 w \<and> True) (\<lambda>_. grown_from L d0)" for at
    unfolding Save_def
  proof (rule db_action_triple [OF retryable_lasting])
    fix d r d' assume d: "table_ok d" "txs_le d0 d" "retryable tx d"
      and run: "(if tx_ID (retry_transaction at tx) = 0 then
           (Inr ((retry_transaction at tx)\<lparr>tx_ID := db_next_transaction_id d\<rparr>),
            insert_transaction (retry_transaction at tx) d)
         else (Inr (retry_transaction at tx),
           update_transactions (\<lambda>r. tx_ID r = tx_ID (retry_transaction at tx))
             (\<lambda>_. retry_transaction at tx) d)) = (r, d')"
    have "tx_ID (retry_transaction at tx) = 0" by (simp add: retry_transaction_def)
    with run have d': "d' = insert_transaction (retry_transaction at tx) d" by simp
    then have "\<forall>q \<in> set (db_transactions d). \<exists>q' \<in> set (db_transactions d'). row_le q q'" by auto
    with insert_retry_step [OF d assms] d' show "table_ok d' \<and> txs_le d0 d' \<and>
        (\<forall>q \<in> set (db_transactions d). \<exists>q' \<in> set (db_transactions d'). row_le q q') \<and>
        (case r of Inl e \<Rightarrow> True | Inr x \<Rightarrow> True)"
      by (auto split: sum.split)
  qed
  have now: "triple (\<lambda>w. grown_from L d0 w \<and> retryable tx (w_db w)) (time_now E)
      (\<lambda>_ w. grown_from L d0 w \<and> retryable tx (w_db w)) (\<lambda>_. grown_from L d0)"
    by (rule triple_weaken [OF grows_lasting [OF grows_primitives(3) retryable_lasting,
          unfolded keeps_triple]]) auto
  show ?thesis
  proof (cases "blockchain_of (env_cfg E) (tx_Network tx)")
    case None
    then show ?thesis by (auto simp: CreateRetryTransaction_def intro: triple_return_err)
  next
    case (Some bc)
    show ?thesis
      unfolding CreateRetryTransaction_def Some option.simps
      by (rule triple_and_then [OF now], rule triple_and_then [OF save]) (simp add: triple_return_ok)
  qed
qed

lemma silent_tx_writes [silent]:
  "keeps (unchanged cs cl) (MarkFailedFromSent E tx b g p msg)"
  "keeps (unchanged cs cl) (CreateRetryTransaction E tx)"
  unfolding MarkFailedFromSent_def CreateRetryTransaction_def Save_def by (intro safe silent)+

lemma settle_failure_grows:
  assumes "knows tx d0"
  shows "keeps (grown_from L d0) (settle_failure E tx receipt msg)"
proof -
  have retry: "triple (\<lambda>w. grown_from L d0 w \<and> identity tx' = identity tx \<and> payment tx' = payment tx \<and>
        (marked \<longrightarrow> retryable tx (w_db w) \<and> \<not> settled (RootTransactionID tx) d0))
      (if \<not> marked then return_ok ()
       else if tx_RetryCount tx' < tx_MaxRetries tx' then CreateRetryTransaction E tx' else return_ok ())
      (\<lambda>_. grown_from L d0) (\<lambda>_. grown_from L d0)" for marked tx'
  proof (cases "marked \<and> identity tx' = identity tx \<and> payment tx' = payment tx \<and>
      \<not> settled (RootTransactionID tx) d0 \<and> tx_RetryCount tx' < tx_MaxRetries tx'")
    case True
    then have root: "RootTransactionID tx' = RootTransactionID tx" by (intro identity_root) simp
    with True have "retryable tx d = retryable tx' d" for d by (simp add: retryable_def)
    with True root CreateRetryTransaction_grows [of tx' d0 L E] show ?thesis
      by (auto intro: triple_weaken)
  next
    case False
    then show ?thesis by (auto simp: triple_def return_ok_def)
  qed
  show ?thesis
    unfolding settle_failure_def keeps_triple
    by (rule triple_and_then [OF MarkFailedFromSent_triple [OF assms]]) (use retry in \<open>simp add: case_prod_unfold\<close>)
qed

lemma silent_settle_failure [silent]: "keeps (unchanged cs cl) (settle_failure E tx receipt msg)"
  unfolding settle_failure_def by (intro safe silent)

lemma grows_handleFailed:
  "knows tx d0 \<Longrightarrow> keeps (grown_from L d0) (handleFailedTransaction E c tx receipt)"
  unfolding handleFailedTransaction_def Let_def
  by (intro keeps_and_then keeps_try grows grows_transaction silent) (blast intro: settle_failure_grows knows_mono)

lemma grows_handlers [grows]:
  "keeps (grown_from L d0) (handleSuccessfulTransaction E tx receipt)"
  "keeps (grown_from L d0) (handleDelayedReceipt E tx)"
  unfolding handleSuccessfulTransaction_def handleDelayedReceipt_def by (intro safe grows)+

lemma grows_confirmTransaction:
  "knows tx d0 \<Longrightarrow> keeps (grown_from L d0) (confirmTransaction E tx)"
  unfolding confirmTransaction_def settle_by_receipt_def
  by (intro safe grows grows_handleFailed)

section \<open>The life cycle of the workers\<close>

text \<open>
  A worker (sender or confirmer): whether it believes it runs, whether \<open>stopChan\<close> and \<open>txQueue\<close> are
  closed, and how many \<open>run\<close> goroutines wait on \<open>stopChan\<close>. Closing a closed channel panics.
\<close>

record worker =
  wk_isRunning :: bool
  wk_stopClosed :: bool
  wk_queueClosed :: bool
  wk_waiting :: nat

definition NewWorker :: worker where
  "NewWorker = \<lparr>wk_isRunning = False, wk_stopClosed = False, wk_queueClosed = False, wk_waiting = 0\<rparr>"

definition worker_Start :: "worker \<Rightarrow> worker" where
  "worker_Start k =
     (if wk_isRunning k then k else k\<lparr>wk_isRunning := True, wk_waiting := Suc (wk_waiting k)\<rparr>)"

definition worker_Stop :: "worker \<Rightarrow> go_error + worker" where
  "worker_Stop k =
     (if \<not> wk_isRunning k then Inr k
      else if wk_stopClosed k then Inl (Panic ''close of closed channel'')
      else Inr (k\<lparr>wk_stopClosed := True, wk_isRunning := False\<rparr>))"

text \<open>A waiting \<open>run\<close> goroutine wakes up when \<open>stopChan\<close> is closed or the context is done.\<close>

definition worker_run_exit :: "bool \<Rightarrow> worker \<Rightarrow> go_error + worker" where
  "worker_run_exit ctx_done k =
     (if wk_waiting k = 0 \<or> \<not> (wk_stopClosed k \<or> ctx_done) then Inr k
      else if wk_queueClosed k then Inl (Panic ''close of closed channel'')
      else Inr (k\<lparr>wk_queueClosed := True, wk_waiting := wk_waiting k - 1\<rparr>))"

record manager =
  mg_sender :: worker
  mg_confirmer :: worker
  mg_isRunning :: bool

definition NewTransactionManager :: manager where
  "NewTransactionManager = \<lparr>mg_sender = NewWorker, mg_confirmer = NewWorker, mg_isRunning = False\<rparr>"

definition manager_Start :: "env \<Rightarrow> manager \<Rightarrow> (world, manager) action" where
  "manager_Start E m =
     (if mg_isRunning m then return_ok m
      else and_then (RecoverLegacySendingTransactions E) (\<lambda>_.
        return_ok \<lparr>mg_sender = worker_Start (mg_sender m),
          mg_confirmer = worker_Start (mg_confirmer m), mg_isRunning = True\<rparr>))"

definition manager_Stop :: "manager \<Rightarrow> go_error + manager" where
  "manager_Stop m =
     (if \<not> mg_isRunning m then Inr m
      else bind_sum (worker_Stop (mg_sender m)) (\<lambda>s.
        bind_sum (worker_Stop (mg_confirmer m)) (\<lambda>c.
          Inr \<lparr>mg_sender = s, mg_confirmer = c, mg_isRunning = False\<rparr>)))"

definition IsRunning :: "manager \<Rightarrow> bool" where
  "IsRunning m = mg_isRunning m"

end
