(* ===== verification/Sample_World.thy ===== *)
theory Sample_World
  imports Tx_Confirmer
begin

text \<open>
  One concrete world for the witnesses: a library of Ethereum functions on a small alphabet of
  addresses, a configuration with one native-token network, an environment without faults, and a
  database with a first failed and a second claimed payout of one chain.
\<close>

section \<open>A library\<close>

text \<open>\<open>0xW\<close> is the wallet, \<open>0xA\<close> an account, \<open>0xB\<close> its benefit address, \<open>0xD\<close> the deposit address.\<close>

definition sample_addresses :: "(string \<times> address) list" where
  "sample_addresses = [(''0xW'', 1), (''0xA'', 2), (''0xB'', 3), (''0xD'', 4), (''0xV'', 5)]"

definition sample_address_hex :: "address \<Rightarrow> string" where
  "sample_address_hex a =
     (if a = 1 then ''0xW'' else if a = 2 then ''0xA'' else if a = 3 then ''0xB''
      else if a = 4 then ''0xD'' else if a = 5 then ''0xV'' else ''0x0'')"

definition sample_lib :: ethlib where
  "sample_lib =
     \<lparr>eth_IsHexAddress = (\<lambda>s. map_of sample_addresses s \<noteq> None),
      eth_HexToAddress = (\<lambda>s. case map_of sample_addresses s of Some a \<Rightarrow> a | None \<Rightarrow> 0),
      eth_AddressHex = sample_address_hex,
      eth_HexToHash = (\<lambda>s. of_nat (length s)),
      eth_HashHex = (\<lambda>h. replicate (unat h) (CHR ''h'')),
      eth_Decode = (\<lambda>s. if s = [] then Inl (External ''empty hex string'')
                        else Inr (replicate (length s) 1)),
      eth_Encode = (\<lambda>b. replicate (length b) (CHR ''r'')),
      eth_DecodeBig = (\<lambda>s. Inr (int (length s))),
      eth_Keccak256 = (\<lambda>s. replicate (length s) 2),
      eth_TransferTopic = 99,
      eth_Sha256Hex = (\<lambda>s. CHR ''f'' # s),
      eth_SigToPub = (\<lambda>digest sig. Inr (length sig)),
      eth_PubkeyToAddress = of_nat,
      eth_Sign = (\<lambda>digest k. Inr (replicate 3 7)),
      eth_HexToECDSA = (\<lambda>s. Inr (length s)),
      eth_Public = (\<lambda>k. k),
      eth_SignTx = (\<lambda>t chain k. Inr (replicate 3 (ucast (dft_Nonce t)))),
      eth_TxHash = (\<lambda>b. of_nat (length b)),
      eth_MarshalBinary = Inr,
      eth_UnmarshalBinary = Inr,
      eth_PackTransfer = (\<lambda>a v. Inr [1, 2, 3, 4]),
      eth_TransferMethodID = [1, 2, 3, 4],
      eth_UnpackTransfer = (\<lambda>b. Inr (3, 7))\<rparr>"

section \<open>A configuration\<close>

definition sample_blockchain :: blockchain_config where
  "sample_blockchain =
     \<lparr>bc_RPS = 10, bc_RpcEndpoint = ''http://node'', bc_TokenType = TokenTypeNative,
      bc_TokenAddress = [], bc_GasLimit = 500000, bc_GasLimitBufferPercent = 20,
      bc_MaxFeePerGas = 100, bc_MaxPriorityFeePerGas = 2, bc_ChainID = 8453,
      bc_Account = \<lparr>acc_Address = ''0xW'', acc_PrivateKey = ''k'', acc_PrivateKeyFile = ''key''\<rparr>,
      bc_Contracts_BenefitAddress = ''0xC'', bc_MaxRetries = 2, bc_RetryInterval = 60,
      bc_ReceiptWaitTime = 120, bc_ReceiptConfirmationBlocks = 3,
      bc_SentTransactionCountLimit = 5, bc_MaxWithdrawalsPerDay = 2\<rparr>"

definition sample_cfg :: app_config where
  "sample_cfg =
     \<lparr>cfg_Environment = EnvTest, cfg_DbDriver = ''mysql'', cfg_DbConnectionString = [],
      cfg_DbLog = \<lparr>lc_Level = ''info'', lc_Output = [], lc_MaxFileSize = 0, lc_MaxDays = 0, lc_MaxFileNum = 0\<rparr>,
      cfg_Log = \<lparr>lc_Level = ''info'', lc_Output = [], lc_MaxFileSize = 0, lc_MaxDays = 0, lc_MaxFileNum = 0\<rparr>,
      cfg_HeartbeatLogFile = ''heartbeat.log'', cfg_AlertLogFile = ''alert.log'',
      cfg_Blockchains = [(''base'', sample_blockchain)],
      cfg_Relay = \<lparr>rel_Api = \<lparr>api_Host = ''http://relay'', api_PrivateKey = ''k'',
                     api_PrivateKeyFile = []\<rparr>,
                   rel_DepositAddress = ''0xD'', rel_WithdrawalFeeAddress = ''0xA'',
                   rel_VestingSignerAddress = ''0xV''\<rparr>,
      cfg_SyncTaskFeeLogs = \<lparr>stf_IntervalSeconds = 5, stf_BatchSize = 10, stf_MaxTaskFeeAmount = 100,
        stf_MaxAddressLogsCountInBatch = 2, stf_MaxNewAddressCountInBatch = 2,
        stf_DepositMaxAgeSeconds = 3600\<rparr>,
      cfg_SyncWithdrawalRequests = \<lparr>swr_IntervalSeconds = 5, swr_BatchSize = 10,
        swr_MinWithdrawalAmount = 1\<rparr>,
      cfg_ProcessWithdrawalRequests = \<lparr>pwr_IntervalSeconds = 5, pwr_BatchSize = 10,
        pwr_Timeout = 3600, pwr_CancellationSettlementTimeoutSeconds = 60\<rparr>\<rparr>"

section \<open>An environment\<close>

text \<open>The payloads of the sample logs.\<close>

definition sample_json :: "string \<Rightarrow> go_error + json" where
  "sample_json s =
     (if s = ''deposit'' then
        Inr (JObj [(''tx_hash'', JStr (replicate 32 (CHR ''1''))), (''network'', JStr ''base'')])
      else if s = ''release'' then Inr (JObj [(''vesting_id'', JNum ''3'')])
      else if s = ''{}'' then Inr (JObj [])
      else Inl (External ''unexpected end of JSON input''))"

text \<open>The Relay accepts every request and has an empty list of logs and withdrawals.\<close>

definition sample_http :: "nat \<Rightarrow> http_request \<Rightarrow> go_error + http_response" where
  "sample_http t rq = Inr \<lparr>rs_Method = rq_Method rq, rs_RequestURI = rq_URL rq, rs_StatusCode = 200,
     rs_Status = ''200 OK'', rs_Body = Inr ''{}''\<rparr>"

text \<open>No faults; the clock advances a second per call; nobody else writes.\<close>

definition sample_env :: env where
  "sample_env =
     \<lparr>env_cfg = sample_cfg, env_lib = sample_lib, env_serializable = False,
      env_ParseJSON = sample_json,
      env_DecodeJSON = sample_json, env_FormatFloat = (\<lambda>s. s), env_now = (\<lambda>t. 1000000000 * int t), env_others = (\<lambda>t. []), env_db_fault = (\<lambda>t. None),
      env_commit_fault = (\<lambda>t. None), env_ctx = (\<lambda>t. None), env_LimiterWait = (\<lambda>t. None),
      env_ChainID = (\<lambda>t n. Inr 8453), env_PendingNonceAt = (\<lambda>t n a. Inr 7),
      env_TransactionReceipt = (\<lambda>t n h. Inl EthereumNotFound),
      env_GetTransactionByHash = (\<lambda>t n h. Inr None), env_SendTransaction = (\<lambda>t n x. None),
      env_EstimateGas = (\<lambda>t n m. Inr 21000),
      env_HeaderByNumber = (\<lambda>t n b. Inr \<lparr>hd_Number = Some 100, hd_Time = 1000, hd_BaseFee = Some 1\<rparr>),
      env_SuggestGasTipCap = (\<lambda>t n. Inr 1), env_BalanceAt = (\<lambda>t n a. Inr 1000000000000000000),
      env_TokenBalance = (\<lambda>t n k a. Inr 1000), env_CallContract = (\<lambda>t n m b. Inr []),
      env_UnpackError = (\<lambda>b. Inr ''reverted''), env_BenefitAddress = (\<lambda>t n a. Inr 3),
      env_NewRequest = (\<lambda>m u. None), env_HTTP = sample_http\<rparr>"

definition sample_record :: withdraw_record where
  "sample_record =
     \<lparr>wr_ID = 1, wr_CreatedAt = 0, wr_RemoteID = 4, wr_Address = ''0xA'', wr_BenefitAddress = ''0xB'',
      wr_Amount = 7, wr_WithdrawalFee = 1, wr_Network = ''base'', wr_Status = WithdrawStatusPending,
      wr_BlockchainTransactionID = None, wr_Timestamp = Some 5, wr_Signature = Some ''sig'',
      wr_AuthorizationFingerprint = None\<rparr>"

definition world_of :: "db \<Rightarrow> world" where
  "world_of d =
     \<lparr>w_tick = 0, w_in_tx = False, w_db = d, w_clients = (\<lambda>_. None), w_record = sample_record,
      w_calls = []\<rparr>"

section \<open>A database\<close>

definition sample_tx :: btx where
  "sample_tx =
     \<lparr>tx_ID = 0, tx_Network = ''base'', tx_Type = ''SendETH'', tx_Status = TransactionStatusPending,
      tx_FromAddress = ''0xW'', tx_ToAddress = ''0xB'', tx_Value = ''7'', tx_Data = None,
      tx_TxHash = None, tx_BlockNumber = None, tx_Nonce = None, tx_GasUsed = None,
      tx_EffectiveGasPrice = None, tx_StatusMessage = None, tx_RetryCount = 0, tx_MaxRetries = 2,
      tx_RetryTransactionID = None, tx_NextRetryAt = None, tx_SentAt = None, tx_ConfirmedAt = None,
      tx_FailedAt = None, tx_CancellationRequestedAt = None, tx_SignedRawTx = None\<rparr>"

text \<open>Queue, claim, prepare, send, fail on chain, and claim the retry.\<close>

definition sample_run :: "other_step list" where
  "sample_run = [OtherQueue sample_tx, OtherClaim 1, OtherPrepare 1 ''0xh1'' 5 ''0xr1'',
     OtherMarkSent 1 100, OtherFail 1 200 50 21000 ''9'' ''reverted'' 300, OtherClaim 2]"

lemmas sample_step_simps = run_steps_def fresh_row_def no_evidence_def
  empty_db_def insert_transaction_def update_transactions_def update_where_def claim_guard_def
  claim_set_def unbroadcasted_def ancestors_proven_def prepare_guard_def prepare_set_def
  mark_sent_guard_def mark_sent_set_def fail_with_retry_def find_transaction_def
  mark_failed_guard_def mark_failed_set_def mark_confirmed_guard_def mark_confirmed_set_def
  request_cancellation_guard_def request_cancellation_set_def release_guard_def release_set_def
  cancel_guard_def cancel_set_def retry_transaction_def sql_null_def
  RootTransactionID_def IsProvenOnChainFailure_def IsReceiptTimeoutFailure_def
  TransactionTimedOutMessage_def

definition sample_db :: db where
  "sample_db = run_steps sample_run empty_db"

definition failed_tx :: btx where
  "failed_tx = sample_tx\<lparr>tx_ID := 1, tx_Status := TransactionStatusFailed, tx_TxHash := Some ''0xh1'',
     tx_Nonce := Some 5, tx_SignedRawTx := Some ''0xr1'', tx_SentAt := Some 100,
     tx_FailedAt := Some 200, tx_BlockNumber := Some 50, tx_GasUsed := Some 21000,
     tx_EffectiveGasPrice := Some ''9'', tx_StatusMessage := Some ''reverted''\<rparr>"

definition retried_tx :: btx where
  "retried_tx = sample_tx\<lparr>tx_ID := 2, tx_Status := TransactionStatusSending, tx_RetryCount := 1,
     tx_RetryTransactionID := Some 1\<rparr>"

lemma sample_db_eq:
  "sample_db = empty_db\<lparr>db_transactions := [failed_tx, retried_tx], db_next_transaction_id := 3\<rparr>"
  by (simp add: sample_db_def sample_run_def sample_tx_def failed_tx_def retried_tx_def
      sample_step_simps)

lemma sample_chain:
  "in_chain 1 sample_db r \<longleftrightarrow> r = failed_tx \<or> r = retried_tx"
  by (auto simp: sample_db_eq in_chain_def failed_tx_def retried_tx_def sample_tx_def
      RootTransactionID_def)

lemma retried_tx_simps [simp]:
  "tx_ID retried_tx = 2" "tx_Status retried_tx = TransactionStatusSending"
  "tx_MaxRetries retried_tx = 2" "tx_RetryTransactionID retried_tx = Some 1"
  "tx_RetryCount retried_tx = 1"
  by (simp_all add: retried_tx_def sample_tx_def)

lemma sample_env_simps [simp]:
  "env_others sample_env t = []" "env_db_fault sample_env t = None"
  "env_commit_fault sample_env t = None" "env_ctx sample_env t = None"
  "env_now sample_env t = 1000000000 * int t" "env_serializable sample_env = False"
  "env_cfg sample_env = sample_cfg" "env_lib sample_env = sample_lib"
  by (simp_all add: sample_env_def)

lemma run_steps_Nil [simp]: "run_steps [] d = d"
  by (simp add: run_steps_def)

lemma world_of_simps [simp]:
  "w_db (world_of d) = d" "w_tick (world_of d) = 0" "w_in_tx (world_of d) = False"
  "w_record (world_of d) = sample_record" "w_calls (world_of d) = []"
  "w_clients (world_of d) = (\<lambda>_. None)"
  by (simp_all add: world_of_def)

text \<open>A prepared row that the sender recovers, and the client of the network.\<close>

definition sample_client :: client where
  "sample_client =
     \<lparr>cl_Network = ''base'', cl_ChainID = 8453, cl_GasLimit = 500000, cl_GasLimitBufferPercent = 20,
      cl_MaxFeePerGas = Some 100, cl_MaxPriorityFeePerGas = Some 2, cl_Address = ''0xW'',
      cl_PrivateKey = ''k'', cl_Nonce = Some 5, cl_SentTransactionCountLimit = 5\<rparr>"

definition prepared_tx :: btx where
  "prepared_tx = sample_tx\<lparr>tx_ID := 1, tx_Status := TransactionStatusBroadcasting,
     tx_TxHash := Some ''0xh1'', tx_Nonce := Some 5, tx_SignedRawTx := Some ''0xr1''\<rparr>"

definition prepared_db :: db where
  "prepared_db = run_steps (take 3 sample_run) empty_db"

lemma prepared_db_eq:
  "prepared_db = empty_db\<lparr>db_transactions := [prepared_tx], db_next_transaction_id := 2\<rparr>"
  by (simp add: prepared_db_def sample_run_def sample_tx_def prepared_tx_def sample_step_simps)

text \<open>The same row once the node has taken it.\<close>

definition sent_tx :: btx where
  "sent_tx = prepared_tx\<lparr>tx_Status := TransactionStatusSent, tx_SentAt := Some 100\<rparr>"

definition sent_db :: db where
  "sent_db = run_steps (take 4 sample_run) empty_db"

lemma sent_db_eq:
  "sent_db = empty_db\<lparr>db_transactions := [sent_tx], db_next_transaction_id := 2\<rparr>"
  by (simp add: sent_db_def sample_run_def sample_tx_def prepared_tx_def sent_tx_def sample_step_simps)

definition client_world :: "db \<Rightarrow> world" where
  "client_world d = (world_of d)\<lparr>w_clients := [''base'' \<mapsto> sample_client]\<rparr>"

lemma client_world_ok: "table_ok d \<Longrightarrow> world_ok L (client_world d)"
  by (simp add: world_ok_def client_world_def clients_ok_def sends_recorded_def sample_client_def)

text \<open>Evaluating the sender on these worlds.\<close>

lemmas world_eval = action_defs Sync_def db_query_def db_update_def seen_db_def Let_def
  first_transaction_def find_transaction_def time_now_def ask_unit_def rows_affected_def
  client_world_def world_of_def GetBlockchainClient_def cached_nonce_def set_nonce_def

lemmas sender_eval = world_eval sendTransaction_def recoverBroadcastingTransaction_def
  isTransactionVisibleOnChain_def GetTransactionTransfer_def parseRawTransactionTransfer_def
  SendSignedRawTransaction_def null_string_def LimiterWait_def send_to_node_def
  markBroadcastAcknowledged_def MarkSent_def AdvanceNoncePast_def mark_sent_guard_def

end
