(* ===== verification/Tx_Properties.thy ===== *)
theory Tx_Properties
  imports Sample_World
begin

text \<open>
  What the transaction table promises under every interleaving of the goroutines: reachable tables,
  one open payout per chain, bounded chains, frozen outcomes, and the handshake between a
  cancellation request and the preparation of a broadcast.
\<close>

section \<open>Reachable databases\<close>

inductive reachable :: "db \<Rightarrow> bool" where
  start: "reachable empty_db"
| step: "reachable d \<Longrightarrow> reachable (run_step s d)"

lemma table_ok_empty: "table_ok empty_db"
  unfolding table_ok_def
  by (simp add: txs_ok_empty) (simp add: ancestors_ok_def db_started_def empty_db_def)

lemma reachable_table_ok: "reachable d \<Longrightarrow> table_ok d"
  by (induction rule: reachable.induct) (rule table_ok_empty, rule table.step)

lemma reachable_run_steps: "reachable d \<Longrightarrow> reachable (run_steps ss d)"
  unfolding run_steps_def by (induction ss arbitrary: d) (auto intro: reachable.step)

lemma run_steps_txs_le: "table_ok d \<Longrightarrow> txs_le d (run_steps ss d)"
  using grown.run_steps_keeps [of d d ss] by simp

lemma sample_reachable: "reachable sample_db"
  unfolding sample_db_def by (rule reachable_run_steps [OF reachable.start])

section \<open>One payout per withdrawal\<close>

text \<open>
  C1: in every database that the goroutines of the program can produce together, a retry chain has
  at most one row that has not failed; so at most one payout of a withdrawal is pending, on its way
  or confirmed at any time.
\<close>
theorem one_open_payout:
  assumes "reachable d" and "in_chain k d r" and "tx_Status r \<noteq> TransactionStatusFailed"
  shows "{s. in_chain k d s \<and> tx_Status s \<noteq> TransactionStatusFailed} = {r}"
  using assms reachable_table_ok [of d] by (auto simp: table_ok_def intro: one_open_row)

theorem one_open_payout_witness:
  "{s. in_chain 1 sample_db s \<and> tx_Status s \<noteq> TransactionStatusFailed} = {retried_tx}"
  using sample_chain [of retried_tx] by (intro one_open_payout [OF sample_reachable]) simp_all

lemma chain_length:
  assumes ok: "txs_ok d" and c: "in_chain k d q"
  shows "card {r. in_chain k d r} \<le> unat (tx_MaxRetries q) + 1"
proof -
  let ?C = "{r. in_chain k d r}"
  have max: "tx_MaxRetries r = tx_MaxRetries q" if "r \<in> ?C" for r
  proof -
    have "\<exists>p. p \<in> set (db_transactions d) \<and> tx_ID p = k \<and> payment p = payment s"
      if "in_chain k d s" for s
      using ok that by (cases "tx_RetryTransactionID s")
        (auto simp: in_chain_def RootTransactionID_def txs_ok_def roots_ok_def)
    with that c have "payment r = payment q"
      using ok same_row [of d] by (metis mem_Collect_eq txs_ok_def)
    then show ?thesis by (simp add: payment_def)
  qed
  have "inj_on (\<lambda>r. unat (tx_RetryCount r)) ?C"
  proof (rule inj_onI)
    fix r s assume rs: "r \<in> ?C" "s \<in> ?C" and eq: "unat (tx_RetryCount r) = unat (tx_RetryCount s)"
    then have lt: "a \<in> ?C \<Longrightarrow> b \<in> ?C \<Longrightarrow> tx_ID a < tx_ID b \<Longrightarrow>
        unat (tx_RetryCount a) < unat (tx_RetryCount b)" for a b
      using ok by (simp add: txs_ok_def chains_ok_def in_chain_def flip: word_less_nat_alt)
    have "\<not> tx_ID r < tx_ID s" "\<not> tx_ID s < tx_ID r"
      using lt [of r s] lt [of s r] rs eq by auto
    then have "tx_ID r = tx_ID s" by simp
    with rs ok show "r = s" by (auto simp: in_chain_def txs_ok_def intro: same_row)
  qed
  moreover have "(\<lambda>r. unat (tx_RetryCount r)) ` ?C \<subseteq> {.. unat (tx_MaxRetries q)}"
    using ok max by (auto simp: txs_ok_def rows_ok_def in_chain_def word_le_nat_alt [symmetric])
  ultimately have "card ?C \<le> card {.. unat (tx_MaxRetries q)}"
    by (intro card_inj_on_le) auto
  then show ?thesis by simp
qed

text \<open>
  C7: a retry chain never grows beyond the first attempt and \<open>MaxRetries\<close> retries, whatever the
  goroutines do in whatever order; the 8-bit retry counter does not wrap.
\<close>
theorem chain_length_bounded:
  "reachable d \<Longrightarrow> in_chain k d q \<Longrightarrow> card {r. in_chain k d r} \<le> unat (tx_MaxRetries q) + 1"
  using chain_length [of d k q] reachable_table_ok [of d] by (simp add: table_ok_def)

theorem chain_length_bounded_witness: "card {r. in_chain 1 sample_db r} \<le> 3"
  using chain_length_bounded [OF sample_reachable, of 1 retried_tx] sample_chain [of retried_tx]
  by simp

section \<open>Retries wait for proof\<close>



section \<open>Outcomes are final\<close>

text \<open>
  C8: whatever the goroutines do next, a row of the table keeps its identity, payee and amount, its
  hash and signed payload once it has them, and a cancellation request; its status only moves along
  the state machine; and a confirmed, failed or cancelled row never changes again.
\<close>
theorem outcome_final:
  assumes "reachable d" and "r \<in> set (db_transactions d)"
  shows "\<exists>r' \<in> set (db_transactions (run_steps ss d)). row_le r r' \<and> row_ok r' \<and>
           (terminal r \<longrightarrow> r' = r)"
proof -
  have "table_ok d" using assms(1) by (rule reachable_table_ok)
  then have "txs_le d (run_steps ss d)" "table_ok (run_steps ss d)"
    by (simp_all add: run_steps_txs_le table.run_steps_keeps)
  with assms(2) show ?thesis
    by (auto simp: txs_le_def table_ok_def txs_ok_def rows_ok_def) (metis row_leD(3))
qed

theorem outcome_final_witness:
  "failed_tx \<in> set (db_transactions (run_steps [OtherFail 1 9 9 9 ''9'' ''again'' 9, OtherClaim 1]
     sample_db))"
proof -
  have "failed_tx \<in> set (db_transactions sample_db)" by (simp add: sample_db_eq)
  moreover have "terminal failed_tx" by (simp add: terminal_def failed_tx_def)
  ultimately show ?thesis
    using outcome_final [OF sample_reachable, of failed_tx
        "[OtherFail 1 9 9 9 ''9'' ''again'' 9, OtherClaim 1]"] by auto
qed

text \<open>
  C9: once every row of a chain is confirmed, failed or cancelled, no goroutine adds a row to the
  chain or changes one: a decision taken on a settled chain stays right.
\<close>
theorem settled_chain_final:
  assumes "reachable d" and "settled k d"
  shows "in_chain k (run_steps ss d) r \<longleftrightarrow> in_chain k d r"
  using assms by (intro txs_le_settled_chain run_steps_txs_le reachable_table_ok)

definition settled_run :: "other_step list" where
  "settled_run = sample_run @ [OtherPrepare 2 ''0xh2'' 6 ''0xr2'', OtherMarkSent 2 400,
     OtherMarkConfirmed 2 500 60 21000 ''9'']"

lemma settled_run_rows:
  "map (\<lambda>r. (RootTransactionID r, tx_Status r)) (db_transactions (run_steps settled_run empty_db)) =
     [(1, TransactionStatusFailed), (1, TransactionStatusConfirmed)]"
  by (simp add: settled_run_def sample_run_def sample_tx_def sample_step_simps)

theorem settled_chain_final_witness:
  "\<forall>r. in_chain 1 (run_steps [OtherClaim 2, OtherFail 2 9 9 9 ''9'' ''again'' 9]
     (run_steps settled_run empty_db)) r \<longleftrightarrow> in_chain 1 (run_steps settled_run empty_db) r"
proof -
  have m: "(RootTransactionID r, tx_Status r) \<in> {(1, TransactionStatusFailed), (1, TransactionStatusConfirmed)}"
    if "r \<in> set (db_transactions (run_steps settled_run empty_db))" for r
    using imageI [OF that, of "\<lambda>r. (RootTransactionID r, tx_Status r)"] settled_run_rows
    by (simp flip: set_map)
  have "db_transactions (run_steps settled_run empty_db) \<noteq> []"
    using settled_run_rows by auto
  then have "settled 1 (run_steps settled_run empty_db)"
    using m by (auto simp: settled_def in_chain_def terminal_def) (metis Pair_inject list.set_sel(1))
  then show ?thesis
    by (intro allI settled_chain_final [OF reachable_run_steps [OF reachable.start]])
qed

section \<open>Cancellation against broadcast\<close>

definition cancellation_requested :: "nat \<Rightarrow> db \<Rightarrow> bool" where
  "cancellation_requested i d \<longleftrightarrow>
     (\<exists>r \<in> set (db_transactions d). tx_ID r = i \<and> tx_CancellationRequestedAt r \<noteq> None)"

definition broadcast_prepared :: "nat \<Rightarrow> string \<Rightarrow> db \<Rightarrow> bool" where
  "broadcast_prepared i x d \<longleftrightarrow>
     (\<exists>r \<in> set (db_transactions d). tx_ID r = i \<and> tx_SignedRawTx r = Some x)"

lemma cancellation_requested_txs_le:
  assumes "txs_le d d'" and "cancellation_requested i d"
  shows "cancellation_requested i d'"
proof -
  from assms(2) obtain r where r: "r \<in> set (db_transactions d)" "tx_ID r = i"
    "tx_CancellationRequestedAt r \<noteq> None"
    by (auto simp: cancellation_requested_def)
  with assms(1) obtain r' where "r' \<in> set (db_transactions d')" "row_le r r'"
    by (auto simp: txs_le_def)
  with r show ?thesis
    by (auto simp: cancellation_requested_def row_le_def identity_def)
qed

interpretation cancelling: db_invariant "\<lambda>d. table_ok d \<and> cancellation_requested i d" for i
  by unfold_locales (blast intro: table.step cancellation_requested_txs_le run_step_txs_le)

lemma requested_row:
  assumes "table_ok d" and "cancellation_requested i d" and "r \<in> set (db_transactions d)"
    and "tx_ID r = i"
  shows "tx_CancellationRequestedAt r \<noteq> None" and "row_ok r"
proof -
  from assms(2) obtain q where "q \<in> set (db_transactions d)" "tx_ID q = i"
    "tx_CancellationRequestedAt q \<noteq> None"
    by (auto simp: cancellation_requested_def)
  moreover have "ids_ok d" using assms(1) by (simp add: table_ok_def txs_ok_def)
  ultimately show "tx_CancellationRequestedAt r \<noteq> None"
    using assms(3,4) same_row by metis
  show "row_ok r" using assms(1,3) by (simp add: table_ok_def txs_ok_def rows_ok_def)
qed

lemma requested_no_evidence:
  "row_ok r \<Longrightarrow> tx_CancellationRequestedAt r \<noteq> None \<Longrightarrow> no_evidence r"
  by (cases "tx_Status r") (simp_all add: row_ok_def)

lemmas cancellation_no_evidence = requested_no_evidence [OF requested_row(2) requested_row(1)]

lemma prepare_after_cancellation:
  assumes "table_ok d" and "cancellation_requested i d"
  shows "prepare_statement i h n x d = (Inr 0, d)"
proof -
  have none: "\<forall>r \<in> set (db_transactions d). \<not> prepare_guard i r"
    using requested_row(1) [OF assms] by (auto simp: prepare_guard_def unbroadcasted_def)
  then have "rows_affected (prepare_guard i) (db_transactions d) = 0"
    by (simp add: rows_affected_0)
  moreover have "update_transactions (prepare_guard i) (prepare_set h n x) d = d"
    using none by (simp add: update_transactions_def update_where_none)
  ultimately show ?thesis by (simp add: prepare_statement_def)
qed

text \<open>
  C6: once a cancellation request is recorded on a row, \<open>PrepareBroadcast\<close> never reports that the
  row is prepared, whatever the other goroutines do during the call, and the row carries neither a
  hash nor a signed payload: no signed transfer can leave the wallet for it.
\<close>
theorem cancellation_blocks_broadcast:
  assumes ok: "table_ok (w_db w)" and c: "cancellation_requested (tx_ID tx) (w_db w)"
    and run: "PrepareBroadcast E tx h n x w = (res, w')"
  shows "(\<forall>tx'. res \<noteq> Inr (True, tx')) \<and> cancellation_requested (tx_ID tx) (w_db w') \<and>
    (\<forall>r \<in> set (db_transactions (w_db w')). tx_ID r = tx_ID tx \<longrightarrow> no_evidence r)"
proof -
  let ?I = "\<lambda>w. table_ok (w_db w) \<and> cancellation_requested (tx_ID tx) (w_db w)"
  let ?P = "\<lambda>m. triple ?I m (\<lambda>(b, _) w. \<not> b \<and> ?I w) (\<lambda>_. ?I)"
  have stmt: "triple ?I (db_action E (prepare_statement (tx_ID tx) h n x))
      (\<lambda>k w. k = 0 \<and> ?I w) (\<lambda>_. ?I)"
    unfolding triple_def
    using cancelling.seen_db_keeps [of _ "tx_ID tx" E]
    by (auto simp: db_action_def Let_def prepare_after_cancellation split: option.splits)
  have sync: "triple ?I (Sync E tx) (\<lambda>_. ?I) (\<lambda>_. ?I)"
    unfolding keeps_triple [symmetric] Sync_def by (rule cancelling.keeps_db_query)
  have "?P (PrepareBroadcast E tx h n x)"
    unfolding PrepareBroadcast_def
  proof (rule triple_if [OF triple_return_err], simp, rule triple_if [OF triple_return_err], simp,
      rule triple_and_then [OF stmt])
    fix k
    have after: "triple ?I (and_then (Sync E tx) (\<lambda>tx. return_ok (False, tx)))
        (\<lambda>(b, _) w. \<not> b \<and> ?I w) (\<lambda>_. ?I)"
      by (rule triple_and_then [OF sync]) (simp add: triple_return_ok)
    show "triple (\<lambda>w. k = 0 \<and> ?I w)
        (if k = 0 then and_then (Sync E tx) (\<lambda>tx. return_ok (False, tx))
         else return_ok (True, prepare_set h n x tx))
        (\<lambda>(b, _) w. \<not> b \<and> ?I w) (\<lambda>_. ?I)"
      by (rule triple_if) (rule triple_weaken [OF after], auto intro: triple_return_ok)
  qed
  then have "(\<forall>tx'. res \<noteq> Inr (True, tx')) \<and> ?I w'"
    using ok c run by (cases res) (auto dest: tripleD_ok tripleD_err)
  then show ?thesis by (auto intro: cancellation_no_evidence)
qed

definition requested_db :: db where
  "requested_db = run_steps (sample_run @ [OtherRequestCancellation 2 250 ''late'']) empty_db"

lemma requested_db_eq:
  "requested_db = empty_db\<lparr>db_transactions := [failed_tx, request_cancellation_set 250 ''late'' retried_tx],
     db_next_transaction_id := 3\<rparr>"
  by (simp add: requested_db_def sample_run_def sample_tx_def failed_tx_def retried_tx_def
      sample_step_simps)

theorem cancellation_blocks_broadcast_witness:
  "(\<forall>tx'. fst (PrepareBroadcast sample_env retried_tx ''0xh2'' 6 ''0xr2'' (world_of requested_db))
      \<noteq> Inr (True, tx'))"
proof -
  have "table_ok requested_db"
    unfolding requested_db_def by (intro reachable_table_ok reachable_run_steps reachable.start)
  moreover have "cancellation_requested (tx_ID retried_tx) requested_db"
    by (simp add: cancellation_requested_def requested_db_eq request_cancellation_set_def retried_tx_def)
  ultimately show ?thesis
    using cancellation_blocks_broadcast
      [of "world_of requested_db" retried_tx sample_env "''0xh2''" 6 "''0xr2''",
       OF _ _ surjective_pairing]
    by simp
qed

end
