(* ===== verification/Payout_Properties.thy ===== *)
theory Payout_Properties
  imports Tx_Properties
begin

text \<open>
  What the sender and the confirmer promise: only recorded payloads leave the wallet, a retry is
  claimed only after proof of failure, a payout is affordable and within the fee caps, a receipt
  settles a transaction as the abstract step says, and the life cycle of the workers.
\<close>

section \<open>What leaves the wallet\<close>

text \<open>
  C3: whatever the other goroutines, the node and the database do while \<open>sendTransaction\<close> handles a
  queue entry, every transaction it hands to a node is the decoded signed payload of a row of that
  network, the row has its hash on record and no cancellation request, and the table invariant holds.
\<close>
theorem sends_only_recorded_payloads:
  assumes "world_ok (env_lib E) w" and "sendTransaction E tx w = (res, w')"
    and "SendRaw network signedTx \<in> set (w_calls w')"
  shows "table_ok (w_db w') \<and> (\<exists>r \<in> set (db_transactions (w_db w')).
    tx_Network r = network \<and> tx_TxHash r \<noteq> None \<and> tx_CancellationRequestedAt r = None \<and>
    (\<exists>x raw. tx_SignedRawTx r = Some x \<and> eth_Decode (env_lib E) x = Inr raw \<and>
       eth_UnmarshalBinary (env_lib E) raw = Inr signedTx))"
proof -
  have "grown_from (env_lib E) (w_db w) w'"
    using keepsD [OF grows_sendTransaction grown_from_self [OF assms(1)] assms(2)] .
  then have ok: "table_ok (w_db w')" and "recorded (env_lib E) (w_db w') network signedTx"
    using assms(3) by (simp_all add: grown_from_def world_ok_def sends_recorded_def)
  then obtain r x raw where r: "r \<in> set (db_transactions (w_db w'))" "tx_Network r = network"
    "tx_SignedRawTx r = Some x" "eth_Decode (env_lib E) x = Inr raw"
    "eth_UnmarshalBinary (env_lib E) raw = Inr signedTx"
    by (auto simp: recorded_def)
  have "row_ok r" using ok r(1) by (simp add: table_ok_def txs_ok_def rows_ok_def)
  with r(3) have "tx_TxHash r \<noteq> None \<and> tx_CancellationRequestedAt r = None"
    by (cases "tx_Status r") (auto simp: row_ok_defs)
  with r ok show ?thesis by blast
qed

lemma sample_send:
  "w_calls (snd (sendTransaction sample_env prepared_tx (client_world prepared_db))) =
     [SendRaw ''base'' [1, 1, 1, 1]]"
  by (simp add: sender_eval prepared_db_eq prepared_tx_def sample_tx_def sample_client_def
      sample_env_def sample_lib_def empty_db_def)

lemma prepared_db_ok: "table_ok prepared_db"
  unfolding prepared_db_def by (intro reachable_table_ok reachable_run_steps reachable.start)

theorem sends_only_recorded_payloads_witness:
  "\<exists>r \<in> set (db_transactions (w_db (snd (sendTransaction sample_env prepared_tx
     (client_world prepared_db))))). tx_Network r = ''base'' \<and> tx_SignedRawTx r \<noteq> None"
  using sends_only_recorded_payloads
    [OF client_world_ok [OF prepared_db_ok] surjective_pairing, of "''base''" "[1, 1, 1, 1]" sample_env prepared_tx]
  by (auto simp: sample_send)

text \<open>
  C4: when \<open>ClaimForSending\<close> reports success, the row is \<open>sending\<close> in the committed table and every
  earlier attempt of its chain is proven to have failed on chain, although the chain is read in two
  queries and other goroutines write between them and before the claim.
\<close>
theorem claim_after_proven_failures:
  assumes "world_ok L w" and "knows tx (w_db w)" and "ClaimForSending E tx w = (Inr (True, tx'), w')"
  shows "claimed_row (tx_ID tx) (w_db w') \<and> tx' = tx\<lparr>tx_Status := TransactionStatusSending\<rparr>"
proof -
  have "db_transaction E (claim_body E tx) w = (Inr (True, tx'), w')"
    using assms(3) by (simp add: ClaimForSending_eq return_err_def split: if_splits)
  then obtain v u where run: "claim_body E tx v = (Inr (True, tx'), u)" and u: "w_db w' = w_db u"
    and v: "v = (snd (db_query E (\<lambda>_. Inr () :: go_error + unit) w))\<lparr>w_in_tx := True\<rparr>"
    by (rule db_transaction_ok)
  have "grown_from L (w_db w) (snd (db_query E (\<lambda>_. Inr () :: go_error + unit) w))"
    using grows_primitives(5) grown_from_self [OF assms(1)] unfolding keeps_def by blast
  then have "grown_from L (w_db w) v"
    by (simp add: v grown_from_def world_ok_def clients_ok_def sends_recorded_def)
  moreover from this have "knows tx (w_db v)"
    using assms(2) by (auto simp: grown_from_def intro: knows_mono)
  ultimately show ?thesis
    using tripleD_ok [OF claim_body_triple _ run, of L "w_db w"] u by simp
qed

definition retry_db :: db where
  "retry_db = run_steps (take 5 sample_run) empty_db"

definition retry_tx :: btx where
  "retry_tx = retried_tx\<lparr>tx_Status := TransactionStatusPending\<rparr>"

lemma retry_db_eq:
  "retry_db = empty_db\<lparr>db_transactions := [failed_tx, retry_tx], db_next_transaction_id := 3\<rparr>"
  by (simp add: retry_db_def sample_run_def sample_tx_def failed_tx_def retried_tx_def retry_tx_def
      sample_step_simps)

lemma sample_claim:
  "fst (ClaimForSending sample_env retry_tx (client_world retry_db)) =
     Inr (True, retry_tx\<lparr>tx_Status := TransactionStatusSending\<rparr>)"
  by (simp add: ClaimForSending_def ListTransactionChain_def GetTransactionByID_def
      GetRetryTransactionsByID_def retry_rows_def commit_or_rollback_def world_eval retry_db_eq
      retry_tx_def retried_tx_def failed_tx_def sample_tx_def empty_db_def update_transactions_def
      update_where_def claim_guard_def unbroadcasted_def IsProvenOnChainFailure_def
      IsReceiptTimeoutFailure_def TransactionTimedOutMessage_def)

theorem claim_after_proven_failures_witness:
  "claimed_row 2 (w_db (snd (ClaimForSending sample_env retry_tx (client_world retry_db))))"
proof -
  have "table_ok retry_db"
    unfolding retry_db_def by (intro reachable_table_ok reachable_run_steps reachable.start)
  moreover have "knows retry_tx retry_db" by (rule row_known) (simp add: retry_db_eq)
  moreover have "ClaimForSending sample_env retry_tx (client_world retry_db) =
      (Inr (True, retry_tx\<lparr>tx_Status := TransactionStatusSending\<rparr>),
       snd (ClaimForSending sample_env retry_tx (client_world retry_db)))"
    using sample_claim by (metis prod.collapse)
  ultimately show ?thesis
    using claim_after_proven_failures [OF client_world_ok, of retry_db retry_tx sample_env]
    by (simp add: client_world_def retry_tx_def)
qed

section \<open>Gas and fees\<close>

lemma unat_max: "unat (- 1 :: 64 word) = 2 ^ 64 - 1"
  by (simp add: unat_eq_nat_uint uint_word_ariths)

lemma unat_buffer:
  "unat b < 2 ^ 64 - 100 \<Longrightarrow> unat (100 + b :: 64 word) = 100 + unat b"
  by (subst unat_plus_if') simp

text \<open>
  C11: unless the configured percentage is within 100 of the largest 64-bit number, the gas limit is
  exactly the estimate plus the percentage, rounded down, and is rejected exactly when the product
  does not fit 64 bits or the limit is zero: no limit is ever the result of a wrap-around.
\<close>
theorem addGasLimitBuffer_exact:
  assumes b: "unat b < 2 ^ 64 - 100"
  shows "addGasLimitBuffer e b = Inr g \<longleftrightarrow>
    unat e * (100 + unat b) < 2 ^ 64 \<and> unat g = unat e * (100 + unat b) div 100 \<and> 0 < unat g"
proof -
  let ?k = "100 + unat b"
  have k: "unat (100 + b) = ?k" using b by (rule unat_buffer)
  then have nz: "100 + b \<noteq> 0" by (metis add_is_0 unat_0 zero_neq_numeral)
  have "unat ((- 1) div (100 + b)) = (2 ^ 64 - 1) div ?k"
    unfolding unat_div_distrib k unat_max ..
  then have gt: "e > (- 1) div (100 + b) \<longleftrightarrow> \<not> unat e * ?k < 2 ^ 64"
    using less_eq_div_iff_mult_less_eq [of ?k "unat e" "2 ^ 64 - 1"]
    unfolding word_less_nat_alt by (simp add: mult.commute) linarith
  show ?thesis
  proof (cases "unat e * ?k < 2 ^ 64")
    case True
    have "unat (e * (100 + b)) = unat e * ?k"
      using True k by (subst unat_mult_lem [THEN iffD1]) simp_all
    then have q: "unat (e * (100 + b) div 100) = unat e * ?k div 100"
      unfolding unat_div_distrib by simp
    have "addGasLimitBuffer e b = Inr g \<longleftrightarrow> g = e * (100 + b) div 100 \<and> g \<noteq> 0"
      using True gt nz by (auto simp: addGasLimitBuffer_def Let_def)
    also have "\<dots> \<longleftrightarrow> unat g = unat e * ?k div 100 \<and> 0 < unat g"
      using q by (metis unat_gt_0 word_unat_eq_iff)
    finally show ?thesis using True by simp
  next
    case False
    with gt nz show ?thesis by (simp add: addGasLimitBuffer_def)
  qed
qed

theorem addGasLimitBuffer_exact_witness: "addGasLimitBuffer 21000 20 = Inr 25200"
  using addGasLimitBuffer_exact [of 20 21000 25200] by simp

text \<open>
  A configured percentage of \<open>2 ^ 64 - 100\<close> makes the divisor wrap to zero: every estimate then
  panics, and no other percentage does.
\<close>
theorem addGasLimitBuffer_panics: "addGasLimitBuffer e b = Inl (Panic ''integer divide by zero'') \<longleftrightarrow> b = - 100"
proof -
  have "100 + b = 0 \<longleftrightarrow> b = - 100" by (metis add.inverse_inverse add_eq_0_iff)
  then show ?thesis by (simp add: addGasLimitBuffer_def Let_def)
qed

section \<open>Receipts\<close>

text \<open>
  The confirmation test on unsigned 64-bit block numbers is the comparison of the numbers
  themselves: a head behind the receipt, or an overflow of block plus confirmations, never counts as
  confirmed.
\<close>
theorem confirmations_exact:
  "receiptHasRequiredConfirmations l r k \<longleftrightarrow> unat r + unat k \<le> unat l"
  unfolding receiptHasRequiredConfirmations_def
  by (auto simp: word_less_nat_alt word_le_nat_alt unat_sub_if')

section \<open>The signed payout\<close>

definition capped :: "int option \<Rightarrow> int \<Rightarrow> bool" where
  "capped cap x \<longleftrightarrow> (case cap of None \<Rightarrow> True | Some c \<Rightarrow> x \<le> c)"

lemma validateDynamicFeeCaps_ok:
  "validateDynamicFeeCaps fee tip maxFee maxTip = Inr () \<longleftrightarrow> capped maxFee fee \<and> capped maxTip tip"
  by (auto simp: validateDynamicFeeCaps_def capped_def split: option.splits)

lemma suggestDynamicFeeCaps_returns:
  "returns (suggestDynamicFeeCaps E c)
     (\<lambda>(fee, tip). capped (cl_MaxFeePerGas c) fee \<and> capped (cl_MaxPriorityFeePerGas c) tip)"
  by (auto simp: returns_def suggestDynamicFeeCaps_def Let_def and_then_ok return_err_def return_ok_def
      lift_sum_def validateDynamicFeeCaps_ok split: option.splits)

lemma estimateTransactionGasLimit_returns:
  "returns (estimateTransactionGasLimit E c tx)
     (\<lambda>gas. 0 < cl_GasLimit c \<longrightarrow> gas \<le> cl_GasLimit c)"
  by (auto simp: returns_def estimateTransactionGasLimit_def and_then_ok return_err_def return_ok_def
      split: if_splits)

definition native_network :: "env \<Rightarrow> btx \<Rightarrow> bool" where
  "native_network E tx \<longleftrightarrow> (\<exists>bc. blockchain_of (env_cfg E) (tx_Network tx) = Some bc \<and>
     bc_TokenType bc = TokenTypeNative)"

text \<open>The hot wallet holds the gas, and on a native network the payout with it.\<close>

definition gas_covered :: "env \<Rightarrow> client \<Rightarrow> btx \<Rightarrow> 64 word \<Rightarrow> int \<Rightarrow> bool" where
  "gas_covered E c tx gas fee \<longleftrightarrow> (\<exists>t balance.
     env_BalanceAt E t (cl_Network c) (eth_HexToAddress (env_lib E) (cl_Address c)) = Inr balance \<and>
     (if native_network E tx
      then \<exists>value. parse_big (tx_Value tx) = Some value \<and> uint gas * fee + value \<le> balance
      else uint gas * fee \<le> balance))"

lemma parseTransactionValue_ok: "parseTransactionValue tx = Inr v \<longleftrightarrow> parse_big (tx_Value tx) = Some v"
  by (simp add: parseTransactionValue_def split: option.split)

lemma validateHotWalletGasBalance_returns:
  "returns (validateHotWalletGasBalance E c tx gas fee) (\<lambda>_. gas_covered E c tx gas fee)"
proof (cases "blockchain_of (env_cfg E) (tx_Network tx)")
  case None
  then show ?thesis by (simp add: validateHotWalletGasBalance_def returns_return_err)
next
  case (Some bc)
  show ?thesis
    unfolding returns_def
  proof (intro allI impI)
    fix w u w' assume run: "validateHotWalletGasBalance E c tx gas fee w = (Inr u, w')"
    show "gas_covered E c tx gas fee"
    proof (cases "bc_TokenType bc = TokenTypeNative")
      case True
      with Some run have "\<exists>v b t. parse_big (tx_Value tx) = Some v \<and> uint gas * fee + v \<le> b \<and>
        env_BalanceAt E t (cl_Network c) (eth_HexToAddress (env_lib E) (cl_Address c)) = Inr b"
        by (auto simp: validateHotWalletGasBalance_def and_then_ok lift_sum_def return_ok_def
            return_err_def BalanceAt_def ask_def parseTransactionValue_ok not_less split: if_splits)
      with True Some show ?thesis by (auto simp: gas_covered_def native_network_def)
    next
      case False
      with Some run have "\<exists>b t. uint gas * fee \<le> b \<and>
        env_BalanceAt E t (cl_Network c) (eth_HexToAddress (env_lib E) (cl_Address c)) = Inr b"
        by (auto simp: validateHotWalletGasBalance_def and_then_ok lift_sum_def return_ok_def
            return_err_def BalanceAt_def ask_def not_less split: if_splits)
      with False Some show ?thesis by (auto simp: gas_covered_def native_network_def)
    qed
  qed
qed

text \<open>
  C10: a transaction is signed only for the payee, amount and call data of its row, under the nonce
  and chain of the client, within the configured fee caps and gas limit, and only when a balance the
  node reported for the hot wallet covers the gas at that fee, and on a native network the amount too.
\<close>
theorem signed_payout:
  assumes "buildSignedTransaction E c tx nonce w = (Inr signedTx, w')"
  shows "\<exists>t key. eth_SignTx (env_lib E) t (cl_ChainID c) key = Inr signedTx \<and>
    tx_FromAddress tx = cl_Address c \<and>
    dft_To t = eth_HexToAddress (env_lib E) (tx_ToAddress tx) \<and>
    parse_big (tx_Value tx) = Some (dft_Value t) \<and>
    parseTransactionData (env_lib E) (tx_Data tx) = Inr (dft_Data t) \<and>
    dft_Nonce t = nonce \<and> dft_ChainID t = cl_ChainID c \<and>
    capped (cl_MaxFeePerGas c) (dft_GasFeeCap t) \<and> capped (cl_MaxPriorityFeePerGas c) (dft_GasTipCap t) \<and>
    (cl_GasLimit c = 0 \<or> dft_Gas t \<le> cl_GasLimit c) \<and>
    gas_covered E c tx (dft_Gas t) (dft_GasFeeCap t)"
proof -
  have from_ok: "tx_FromAddress tx = cl_Address c"
    using assms by (auto simp: buildSignedTransaction_def return_err_def split: if_splits)
  with assms obtain gas w1 w2 fee tip w3 u w4 t key where
    gas: "estimateTransactionGasLimit E c tx w1 = (Inr gas, w2)"
    and fees: "suggestDynamicFeeCaps E c w2 = (Inr (fee, tip), w3)"
    and bal: "validateHotWalletGasBalance E c tx gas fee w3 = (Inr u, w4)"
    and t: "buildDynamicFeeTransaction (env_lib E) tx nonce gas fee tip (cl_ChainID c) = Inr t"
    and sign: "eth_SignTx (env_lib E) t (cl_ChainID c) key = Inr signedTx"
    by (auto simp: buildSignedTransaction_def and_then_ok lift_sum_def)
  have "capped (cl_MaxFeePerGas c) fee \<and> capped (cl_MaxPriorityFeePerGas c) tip"
    using returnsD [OF suggestDynamicFeeCaps_returns fees] by simp
  moreover have "cl_GasLimit c = 0 \<or> gas \<le> cl_GasLimit c"
    using returnsD [OF estimateTransactionGasLimit_returns gas] by (auto simp: word_gt_0)
  moreover have "gas_covered E c tx gas fee"
    using returnsD [OF validateHotWalletGasBalance_returns bal] .
  ultimately show ?thesis
    using t sign from_ok
    by (intro exI [of _ t] exI [of _ key])
      (auto simp: buildDynamicFeeTransaction_def bind_sum_Inr parseTransactionValue_ok split: if_splits)
qed

definition sample_build :: "(go_error + signed_tx) \<times> world" where
  "sample_build = buildSignedTransaction sample_env sample_client retried_tx 6 (client_world sample_db)"

lemma sample_build_ok: "fst sample_build = Inr [6, 6, 6]"
  by (simp add: sample_build_def buildSignedTransaction_def validateHotWalletPayoutBalance_def
      estimateTransactionGasLimit_def suggestDynamicFeeCaps_def validateHotWalletGasBalance_def
      buildDynamicFeeTransaction_def BuildCallMsgFromTransaction_def BalanceAt_def LimiterWait_def
      parseTransactionValue_def parseTransactionData_def addGasLimitBuffer_def
      validateDynamicFeeCaps_def blockchain_of_def sample_cfg_def sample_blockchain_def
      TokenTypeNative_def sample_env_def sample_lib_def sample_addresses_def sample_client_def
      retried_tx_def sample_tx_def parse_big_def parse_nat_def digit_value_def ascii_def world_eval)
    (simp add: eval_nat_numeral)

theorem signed_payout_witness:
  "\<exists>t key. eth_SignTx sample_lib t 8453 key = Inr [6, 6, 6] \<and> dft_To t = 3 \<and> dft_Nonce t = 6"
proof -
  have "buildSignedTransaction sample_env sample_client retried_tx 6 (client_world sample_db) =
      (Inr [6, 6, 6], snd sample_build)"
    using sample_build_ok unfolding sample_build_def by (metis prod.collapse)
  from signed_payout [OF this] show ?thesis
    by (auto simp: sample_client_def retried_tx_def sample_tx_def sample_lib_def sample_addresses_def)
qed

section \<open>Settling by receipt\<close>

lemma MarkFailedFromSent_alone:
  assumes "alone E" and "MarkFailedFromSent E tx b g p msg w = (Inr (marked, tx'), w')"
  shows "\<exists>now. marked = (0 < rows_affected (mark_failed_guard (tx_ID tx)) (db_transactions (w_db w))) \<and>
    w_db w' = update_transactions (mark_failed_guard (tx_ID tx)) (mark_failed_set now b g p msg) (w_db w) \<and>
    tx' = (if marked then mark_failed_set now b g p msg tx else tx)"
proof -
  from assms(2) obtain now v n where t: "time_now E w = (Inr now, v)"
    and u: "db_update E (mark_failed_guard (tx_ID tx)) (mark_failed_set now b g p msg) v = (Inr n, w')"
    and m: "marked = (n \<noteq> 0)" "tx' = (if marked then mark_failed_set now b g p msg tx else tx)"
    by (auto simp: MarkFailedFromSent_def and_then_ok return_err_def return_ok_def split: if_splits)
  from alone_update [OF assms(1) u] time_now_db [OF t] m show ?thesis by (intro exI [of _ now]) auto
qed

lemma CreateRetryTransaction_alone:
  assumes "alone E" and "CreateRetryTransaction E tx w = (Inr (), w')"
  shows "\<exists>at. w_db w' = insert_transaction (retry_transaction at tx) (w_db w)"
proof -
  have "tx_ID (retry_transaction at tx) = 0" for at by (simp add: retry_transaction_def)
  then have "\<exists>at now v. time_now E w = (Inr now, v) \<and>
      w_db w' = insert_transaction (retry_transaction at tx) (w_db v)"
    using assms
    by (auto simp: CreateRetryTransaction_def and_then_ok return_err_def return_ok_def Save_def
        db_action_def Let_def split: option.splits)
  then show ?thesis using time_now_db by metis
qed

lemma settle_failure_refines:
  assumes al: "alone E" and ok: "table_ok (w_db w)" and k: "knows tx (w_db w)"
    and run: "settle_failure E tx receipt msg w = (Inr (), w')"
  shows "\<exists>now at. w_db w' = fail_with_retry (tx_ID tx) now (block_Int64 receipt)
    (sint (rc_GasUsed receipt)) (show_int (rc_EffectiveGasPrice receipt)) msg at (w_db w)"
proof -
  let ?b = "block_Int64 receipt" and ?g = "sint (rc_GasUsed receipt)" and ?p = "show_int (rc_EffectiveGasPrice receipt)"
  let ?i = "tx_ID tx" and ?d = "w_db w"
  obtain r where r: "r \<in> set (db_transactions ?d)" "identity r = identity tx" "payment r = payment tx"
    using k by (auto simp: knows_def)
  have ids: "ids_ok ?d" using ok by (simp add: table_ok_def txs_ok_def)
  have f: "find_transaction ?i ?d = Some r" using find_transaction_Some [OF ids] r by (simp add: identity_def)
  have unique: "\<forall>q \<in> set (db_transactions ?d). mark_failed_guard ?i q \<longrightarrow> q = r"
    using same_row [OF ids _ r(1)] r(2) by (simp add: mark_failed_guard_def identity_def)
  have m: "0 < rows_affected (mark_failed_guard ?i) (db_transactions ?d) \<longleftrightarrow> mark_failed_guard ?i r"
    unfolding neq0_conv [symmetric] rows_affected_0 using r(1) unique by blast
  from run obtain marked tx' v where
    mk: "MarkFailedFromSent E tx ?b ?g ?p msg w = (Inr (marked, tx'), v)"
    and rest: "(if \<not> marked then return_ok ()
       else if tx_RetryCount tx' < tx_MaxRetries tx' then CreateRetryTransaction E tx'
       else return_ok ()) v = (Inr (), w')"
    by (auto simp: settle_failure_def and_then_ok)
  from MarkFailedFromSent_alone [OF al mk] obtain now where now:
    "marked = mark_failed_guard ?i r"
    "w_db v = update_transactions (mark_failed_guard ?i) (mark_failed_set now ?b ?g ?p msg) ?d"
    "tx' = (if marked then mark_failed_set now ?b ?g ?p msg tx else tx)"
    using m by auto
  have retry: "retry_transaction at tx' = retry_transaction at r" for at
    using r(2,3) now(3) by (auto simp: retry_transaction_def mark_failed_set_def identity_def payment_def
        split: option.split)
  have count: "tx_RetryCount tx' = tx_RetryCount r" "tx_MaxRetries tx' = tx_MaxRetries r"
    using r(2,3) now(3) by (auto simp: mark_failed_set_def identity_def payment_def)
  show ?thesis
  proof (cases marked)
    case False
    then have "\<not> mark_failed_guard ?i q" if "q \<in> set (db_transactions ?d)" for q
      using now(1) that unique by blast
    then have "w_db v = ?d" using now(2) by (simp add: update_transactions_def update_where_none)
    with False rest now(1) f show ?thesis by (simp add: return_ok_def fail_with_retry_def)
  next
    case True
    show ?thesis
    proof (cases "tx_RetryCount r < tx_MaxRetries r")
      case False
      with True rest now f count show ?thesis
        by (intro exI [of _ now]) (simp add: return_ok_def fail_with_retry_def)
    next
      case less: True
      with True rest count have "CreateRetryTransaction E tx' v = (Inr (), w')" by simp
      from CreateRetryTransaction_alone [OF al this] obtain at where
        "w_db w' = insert_transaction (retry_transaction at tx') (w_db v)" by blast
      with True less now f retry show ?thesis
        by (intro exI [of _ now] exI [of _ at]) (simp add: fail_with_retry_def Let_def)
    qed
  qed
qed

text \<open>
  What the confirmer may do to the table, and what it must have read to do it: the delayed mark after
  the waiting time, the confirmation and the failure with its retry by a receipt deep enough.
\<close>

inductive confirmation_step :: "env \<Rightarrow> blockchain_config \<Rightarrow> client \<Rightarrow> btx \<Rightarrow> db \<Rightarrow> db \<Rightarrow> bool"
  for E bc c tx where
  idle: "confirmation_step E bc c tx d d"
| delayed: "tx_TxHash tx = Some h \<Longrightarrow> tx_SentAt tx = Some sentAt \<Longrightarrow>
    env_TransactionReceipt E t (cl_Network c) (eth_HexToHash (env_lib E) h) = Inl e \<Longrightarrow> is_not_found e \<Longrightarrow>
    env_now E k > sentAt + go_seconds (bc_ReceiptWaitTime bc) \<Longrightarrow>
    confirmation_step E bc c tx d (update_transactions (mark_delayed_guard (tx_ID tx)) mark_delayed_set d)"
| confirmed: "tx_TxHash tx = Some h \<Longrightarrow>
    env_TransactionReceipt E t (cl_Network c) (eth_HexToHash (env_lib E) h) = Inr receipt \<Longrightarrow>
    rc_BlockNumber receipt = Some b \<Longrightarrow> env_HeaderByNumber E k (cl_Network c) None = Inr latestHeader \<Longrightarrow>
    hd_Number latestHeader = Some latest \<Longrightarrow>
    unat (Uint64 b) + unat (bc_ReceiptConfirmationBlocks bc) \<le> unat (Uint64 latest) \<Longrightarrow>
    rc_Status receipt = ReceiptStatusSuccessful \<Longrightarrow>
    confirmation_step E bc c tx d (update_transactions (mark_confirmed_guard (tx_ID tx))
      (mark_confirmed_set now (Int64 b) (sint (rc_GasUsed receipt)) (show_int (rc_EffectiveGasPrice receipt))) d)"
| failed: "tx_TxHash tx = Some h \<Longrightarrow>
    env_TransactionReceipt E t (cl_Network c) (eth_HexToHash (env_lib E) h) = Inr receipt \<Longrightarrow>
    rc_BlockNumber receipt = Some b \<Longrightarrow> env_HeaderByNumber E k (cl_Network c) None = Inr latestHeader \<Longrightarrow>
    hd_Number latestHeader = Some latest \<Longrightarrow>
    unat (Uint64 b) + unat (bc_ReceiptConfirmationBlocks bc) \<le> unat (Uint64 latest) \<Longrightarrow>
    rc_Status receipt \<noteq> ReceiptStatusSuccessful \<Longrightarrow>
    confirmation_step E bc c tx d (fail_with_retry (tx_ID tx) now (Int64 b) (sint (rc_GasUsed receipt))
      (show_int (rc_EffectiveGasPrice receipt)) msg at d)"

lemma and_then_cases:
  assumes "and_then m f w = (r, w')"
  obtains (err) e where "m w = (Inl e, w')" "r = Inl e" | (ok) x v where "m w = (Inr x, v)" "f x v = (r, w')"
  using assms by (auto simp: and_then_def split: prod.splits sum.splits)

named_theorems reads_only \<open>actions that leave the database alone when nobody else writes\<close>

lemma reads_only_primitives [reads_only]:
  "keeps (\<lambda>w. w_db w = d) (ask f)" "keeps (\<lambda>w. w_db w = d) (ask_unit g)"
  "keeps (\<lambda>w. w_db w = d) (time_now E)" "keeps (\<lambda>w. w_db w = d) (tell c)"
  "keeps (\<lambda>w. w_db w = d) (GetBlockchainClient n)"
  by (auto simp: keeps_def ask_def ask_unit_def time_now_def tell_def writes_def
      GetBlockchainClient_def split: option.split)

lemma reads_only_query [reads_only]: "alone E \<Longrightarrow> keeps (\<lambda>w. w_db w = d) (db_query E f)"
  by (simp add: keeps_def alone_query [OF _ surjective_pairing])

lemma reads_only_Sync [reads_only]: "alone E \<Longrightarrow> keeps (\<lambda>w. w_db w = d) (Sync E tx)"
  by (simp add: Sync_def reads_only)

lemma reads_only_error_message [reads_only]:
  "keeps (\<lambda>w. w_db w = d) (GetErrorMessageFromTransaction E c tx receipt)"
  unfolding GetErrorMessageFromTransaction_def by (intro safe reads_only)

lemma keeps_db: "keeps (\<lambda>w. w_db w = d) m \<Longrightarrow> m w = (r, w') \<Longrightarrow> w_db w = d \<Longrightarrow> w_db w' = d"
  using keepsD [of "\<lambda>w. w_db w = d" m w r w'] by simp

lemma alone_update_then:
  assumes al: "alone E"
    and run: "and_then (db_update E g s) rest w = (r, w')"
    and rest: "\<And>n d. keeps (\<lambda>w. w_db w = d) (rest n)"
  shows "w_db w' = w_db w \<or> w_db w' = update_transactions g s (w_db w)"
  using run
proof (cases rule: and_then_cases)
  case (err e)
  with alone_update [OF al] show ?thesis by blast
next
  case (ok n v)
  then have "w_db v = update_transactions g s (w_db w)" using alone_update [OF al] by blast
  with keeps_db [OF rest ok(2)] show ?thesis by blast
qed

lemma alone_timed_update_then:
  assumes al: "alone E"
    and run: "and_then (time_now E) (\<lambda>now. and_then (db_update E g (s now)) (rest now)) w = (r, w')"
    and rest: "\<And>now n d. keeps (\<lambda>w. w_db w = d) (rest now n)"
  shows "w_db w' = w_db w \<or> (\<exists>now. w_db w' = update_transactions g (s now) (w_db w))"
  using run
proof (cases rule: and_then_cases)
  case (err e)
  then show ?thesis by (simp add: time_now_db)
next
  case (ok now v)
  then have "w_db v = w_db w" by (simp add: time_now_db)
  with alone_update_then [OF al ok(2) rest] show ?thesis by auto
qed

lemma MarkConfirmed_alone:
  assumes al: "alone E" and run: "MarkConfirmed E tx b g p w = (r, w')"
  shows "w_db w' = w_db w \<or> (\<exists>now. w_db w' =
    update_transactions (mark_confirmed_guard (tx_ID tx)) (mark_confirmed_set now b g p) (w_db w))"
proof (cases "tx_ID tx = 0")
  case True
  with run show ?thesis by (simp add: MarkConfirmed_def return_err_def)
next
  case False
  with run show ?thesis
    unfolding MarkConfirmed_def
    by (simp, intro alone_timed_update_then [OF al]) (assumption, intro safe reads_only al)
qed

lemma MarkReceiptDelayed_alone:
  assumes al: "alone E" and run: "MarkReceiptDelayed E tx w = (r, w')"
  shows "w_db w' = w_db w \<or>
    w_db w' = update_transactions (mark_delayed_guard (tx_ID tx)) mark_delayed_set (w_db w)"
proof (cases "tx_ID tx = 0")
  case True
  with run show ?thesis by (simp add: MarkReceiptDelayed_def return_err_def)
next
  case False
  with run show ?thesis
    unfolding MarkReceiptDelayed_def
    by (simp, intro alone_update_then [OF al]) (assumption, intro safe reads_only al)
qed

lemma handleFailed_alone:
  assumes al: "alone E" and ok: "table_ok (w_db w)" and k: "knows tx (w_db w)"
    and run: "handleFailedTransaction E c tx receipt w = (r, w')"
  shows "w_db w' = w_db w \<or> (\<exists>now msg at. w_db w' = fail_with_retry (tx_ID tx) now
    (block_Int64 receipt) (sint (rc_GasUsed receipt)) (show_int (rc_EffectiveGasPrice receipt)) msg at (w_db w))"
proof -
  have start: "keeps (\<lambda>w. w_db w = d) (try_result (GetErrorMessageFromTransaction E c tx receipt))" for d
    by (intro safe reads_only)
  from run [unfolded handleFailedTransaction_def] show ?thesis
  proof (cases rule: and_then_cases)
    case (err e)
    with keeps_db [OF start] show ?thesis by blast
  next
    case (ok x v)
    from keeps_db [OF start ok(1)] have v: "w_db v = w_db w" by blast
    from ok(2) obtain msg where "db_transaction E (settle_failure E tx receipt msg) v = (r, w')"
      by (auto simp: Let_def)
    from alone_transaction [OF al this] show ?thesis
    proof
      assume "(\<exists>e. r = Inl e) \<and> w_db w' = w_db v"
      with v show ?thesis by simp
    next
      assume "\<exists>x u z. r = Inr x \<and> w_db u = w_db v \<and> settle_failure E tx receipt msg u = (Inr x, z) \<and> w_db w' = w_db z"
      then obtain u z where "w_db u = w_db v" "settle_failure E tx receipt msg u = (Inr (), z)" "w_db w' = w_db z"
        by auto
      with settle_failure_refines [OF al, of u tx receipt msg z] assms(2,3) v show ?thesis by metis
    qed
  qed
qed
lemma settle_by_receipt_step:
  assumes al: "alone E" and ok: "table_ok (w_db w)" and k: "knows tx (w_db w)"
    and h: "tx_TxHash tx = Some h"
    and rc: "env_TransactionReceipt E t (cl_Network c) (eth_HexToHash (env_lib E) h) = Inr receipt"
    and run: "settle_by_receipt E bc c tx receipt w = (r, w')"
  shows "confirmation_step E bc c tx (w_db w) (w_db w')"
proof (cases "rc_BlockNumber receipt")
  case None
  with run show ?thesis by (auto simp: settle_by_receipt_def return_err_def intro: idle)
next
  case (Some b)
  then have b: "block_Int64 receipt = Int64 b" by (simp add: block_Int64_def)
  from run [unfolded settle_by_receipt_def Some option.simps] show ?thesis
  proof (cases rule: and_then_cases)
    case (err e)
    then show ?thesis by (auto simp: ask_db intro: idle)
  next
    case (ok header v)
    then have hdr: "env_HeaderByNumber E (w_tick w) (cl_Network c) None = Inr header" and v: "w_db v = w_db w"
      by (auto simp: ask_def)
    show ?thesis
    proof (cases "hd_Number header")
      case None
      with ok(2) v show ?thesis by (auto simp: return_err_def intro: idle)
    next
      case latest: (Some latest)
      show ?thesis
      proof (cases "receiptHasRequiredConfirmations (Uint64 latest) (Uint64 b) (bc_ReceiptConfirmationBlocks bc)")
        case False
        with ok(2) latest v show ?thesis by (auto simp: return_ok_def intro: idle)
      next
        case True
        then have deep: "unat (Uint64 b) + unat (bc_ReceiptConfirmationBlocks bc) \<le> unat (Uint64 latest)"
          unfolding receiptHasRequiredConfirmations_def
          by (auto simp: word_less_nat_alt word_le_nat_alt unat_sub_if' split: if_splits)
        show ?thesis
        proof (cases "rc_Status receipt = ReceiptStatusSuccessful")
          case success: True
          with ok(2) latest True have "handleSuccessfulTransaction E tx receipt v = (r, w')" by simp
          then have "\<exists>r'. MarkConfirmed E tx (Int64 b) (sint (rc_GasUsed receipt))
              (show_int (rc_EffectiveGasPrice receipt)) v = (r', w')"
            unfolding handleSuccessfulTransaction_def b
            by (elim and_then_cases) (auto simp: return_ok_def)
          then obtain r' where "MarkConfirmed E tx (Int64 b) (sint (rc_GasUsed receipt))
              (show_int (rc_EffectiveGasPrice receipt)) v = (r', w')" ..
          from MarkConfirmed_alone [OF al this] v show ?thesis
            using confirmed [OF h rc Some hdr latest deep success] idle by metis
        next
          case failure: False
          with ok(2) latest True have f: "handleFailedTransaction E c tx receipt v = (r, w')" by simp
          from handleFailed_alone [OF al _ _ f] v assms(2,3) b show ?thesis
            using failed [OF h rc Some hdr latest deep failure] idle by metis
        qed
      qed
    qed
  qed
qed

text \<open>
  C5: when nobody else writes, whatever the node answers and whichever statement or commit fails,
  \<open>confirmTransaction\<close> does one of four things to the table: nothing; the delayed mark, after the
  waiting time without a receipt; the confirmation, by a successful receipt with the required
  confirmations; or the failure together with its retry in one piece, by a failed receipt with the
  required confirmations. It never confirms or fails a transaction on less.
\<close>
theorem confirmation_refines:
  assumes al: "alone E" and "world_ok L w" and "knows tx (w_db w)"
    and "blockchain_of (env_cfg E) (tx_Network tx) = Some bc" and "w_clients w (tx_Network tx) = Some c"
    and run: "confirmTransaction E tx w = (r, w')"
  shows "confirmation_step E bc c tx (w_db w) (w_db w')"
proof (cases "tx_TxHash tx = None \<or> tx_SentAt tx = None")
  case True
  with run show ?thesis
    by (auto simp: confirmTransaction_def return_ok_def intro: idle split: option.splits)
next
  case False
  then obtain h sentAt where h: "tx_TxHash tx = Some h" and s: "tx_SentAt tx = Some sentAt" by auto
  let ?rc = "env_TransactionReceipt E (w_tick w) (cl_Network c) (eth_HexToHash (env_lib E) h)"
  let ?v = "w\<lparr>w_tick := Suc (w_tick w)\<rparr>"
  have ok: "table_ok (w_db w)" using assms(2) by (simp add: world_ok_def)
  show ?thesis
  proof (cases ?rc)
    case (Inr receipt)
    with run h s assms(4,5) have "settle_by_receipt E bc c tx receipt ?v = (r, w')"
      by (simp add: confirmTransaction_def and_then_def GetBlockchainClient_def try_result_def ask_def)
    from settle_by_receipt_step [OF al _ _ h Inr this] ok assms(3) show ?thesis by simp
  next
    case (Inl e)
    show ?thesis
    proof (cases "is_not_found e \<and> env_now E (Suc (w_tick w)) > sentAt + go_seconds (bc_ReceiptWaitTime bc)")
      case True
      then have na: "\<not> aborts e" by (cases e) auto
      from run h s assms(4,5) Inl True na have "handleDelayedReceipt E tx (?v\<lparr>w_tick := Suc (Suc (w_tick w))\<rparr>) = (r, w')"
        by (simp add: confirmTransaction_def and_then_def GetBlockchainClient_def try_result_def
            ask_def time_now_def)
      then have "\<exists>r'' w''. MarkReceiptDelayed E tx (?v\<lparr>w_tick := Suc (Suc (w_tick w))\<rparr>) = (r'', w'') \<and> w_db w'' = w_db w'"
        unfolding handleDelayedReceipt_def
        by (elim and_then_cases) (auto simp: return_ok_def tell_def writes_def split: if_splits)
      with MarkReceiptDelayed_alone [OF al] have "w_db w' = w_db w \<or>
          w_db w' = update_transactions (mark_delayed_guard (tx_ID tx)) mark_delayed_set (w_db w)"
        by fastforce
      with delayed [OF h s Inl] True idle show ?thesis by metis
    next
      case False
      with run h s assms(4,5) Inl have "w_db w' = w_db w"
        by (auto simp: confirmTransaction_def and_then_def GetBlockchainClient_def try_result_def
            ask_def time_now_def return_ok_def return_err_def split: if_splits)
      then show ?thesis by (simp add: idle)
    qed
  qed
qed

definition receipt_env :: env where
  "receipt_env = sample_env\<lparr>env_TransactionReceipt := (\<lambda>t n h. Inr
     \<lparr>rc_Status = 1, rc_BlockNumber = Some 50, rc_GasUsed = 21000, rc_EffectiveGasPrice = 9, rc_Logs = []\<rparr>)\<rparr>"

theorem confirmation_refines_witness:
  "confirmation_step receipt_env sample_blockchain sample_client sent_tx sent_db
     (w_db (snd (confirmTransaction receipt_env sent_tx (client_world sent_db))))"
proof -
  have "table_ok sent_db"
    unfolding sent_db_def by (intro reachable_table_ok reachable_run_steps reachable.start)
  moreover have "knows sent_tx sent_db" by (rule row_known) (simp add: sent_db_eq)
  moreover have "alone receipt_env" by (simp add: alone_def receipt_env_def sample_env_def)
  moreover have "tx_Network sent_tx = ''base''" by (simp add: sent_tx_def prepared_tx_def sample_tx_def)
  moreover have "blockchain_of (env_cfg receipt_env) ''base'' = Some sample_blockchain"
    by (simp add: receipt_env_def sample_env_def sample_cfg_def blockchain_of_def)
  ultimately show ?thesis
    using confirmation_refines [OF _ client_world_ok, of receipt_env sent_db sent_tx sample_blockchain
        sample_client, OF _ _ _ _ _ surjective_pairing]
    by (simp add: client_world_def)
qed

section \<open>Retries and restarts\<close>

text \<open>
  Whatever time \<open>CreateRetryTransaction\<close> computes from the configured retry interval, the row it
  builds has no \<open>NextRetryAt\<close>, so the sender never waits for it: the interval has no effect.
\<close>
theorem retry_interval_ignored:
  "tx_NextRetryAt (retry_transaction nextRetryAt tx) = None \<and>
   retry_transaction nextRetryAt tx = retry_transaction 0 tx"
  by (simp add: retry_transaction_def sql_null_def)

text \<open>
  A worker that is started, stopped and left to wake up closes its queue once and does not panic;
  started again after that, its new goroutine finds both channels closed and panics.
\<close>
theorem restart_panics:
  "bind_sum (worker_Stop (worker_Start NewWorker)) (worker_run_exit False) =
     Inr \<lparr>wk_isRunning = False, wk_stopClosed = True, wk_queueClosed = True, wk_waiting = 0\<rparr> \<and>
   bind_sum (bind_sum (worker_Stop (worker_Start NewWorker)) (worker_run_exit False))
     (\<lambda>k. worker_run_exit False (worker_Start k)) = Inl (Panic ''close of closed channel'')"
  by (simp add: worker_Start_def worker_Stop_def worker_run_exit_def NewWorker_def)

end
