(* ===== verification/Vesting.thy ===== *)
theory Vesting
  imports Eth_Client
begin

text \<open>
  \<open>models/vesting.go\<close> and the vesting part of \<open>tasks/sync_task_fee_logs.go\<close>: the release schedule, the
  payloads of vesting events, the signature of a vesting, and the two events on the vesting table.
\<close>

section \<open>Time\<close>

text \<open>
  \<open>time.Unix(s, 0)\<close> keeps the seconds since year 1 in 64 bits; \<open>Sub\<close> saturates; instants are
  nanoseconds, days are days since the epoch, UTC.
\<close>

definition Unix :: "int \<Rightarrow> int" where
  "Unix s = (sint (word_of_int (s + 62135596800) :: 64 word) - 62135596800) * 1000000000"

definition unix_seconds :: "int \<Rightarrow> int" where
  "unix_seconds t = t div 1000000000"

definition day :: int where
  "day = 86400000000000"

definition saturated_Sub :: "int \<Rightarrow> int \<Rightarrow> int" where
  "saturated_Sub t u = max (- (2 ^ 63)) (min (2 ^ 63 - 1) (t - u))"

lemma Unix_exact:
  assumes "- (2 ^ 62) \<le> s" and "s \<le> 2 ^ 62"
  shows "Unix s = s * 1000000000"
proof -
  have "Int64 (s + 62135596800) = s + 62135596800"
    using assms by (intro Int64_exact) simp_all
  then show ?thesis by (simp add: Unix_def Int64_def)
qed

section \<open>models/vesting.go\<close>

definition VestingTypeNode :: string where "VestingTypeNode = ''node''"
definition VestingTypeDelegation :: string where "VestingTypeDelegation = ''delegation''"
definition VestingTypeOther :: string where "VestingTypeOther = ''other''"

record vesting_sign_payload =
  vs_Address :: string
  vs_TotalAmount :: string
  vs_StartTime :: int
  vs_DurationDays :: nat
  vs_Type :: string

definition newline :: string where
  "newline = [char_of (10::nat)]"

definition BuildVestingSignMessage :: "vesting_sign_payload \<Rightarrow> string" where
  "BuildVestingSignMessage payload =
     ''Crynux Relay Vesting'' @ newline @ ''Address: '' @ vs_Address payload @ newline @
     ''TotalAmount: '' @ vs_TotalAmount payload @ newline @
     ''StartTime: '' @ show_int (vs_StartTime payload) @ newline @
     ''DurationDays: '' @ show_nat (vs_DurationDays payload) @ newline @
     ''Type: '' @ vs_Type payload"

definition elapsed_days :: "int \<Rightarrow> int \<Rightarrow> int" where
  "elapsed_days startTime now =
     saturated_Sub (now div day * day) (startTime div day * day) div day"

definition ComputeVestingShouldReleased :: "int \<Rightarrow> int \<Rightarrow> nat \<Rightarrow> int \<Rightarrow> int" where
  "ComputeVestingShouldReleased totalAmount startTime durationDays now =
     (if totalAmount \<le> 0 \<or> durationDays = 0 then 0
      else if now < startTime then 0
      else
        (let elapsedDays = elapsed_days startTime now in
         if elapsedDays \<ge> int durationDays then totalAmount
         else totalAmount * elapsedDays div int durationDays))"

section \<open>Payloads\<close>

record vesting_payload =
  vp_VestingID :: nat
  vp_Address :: string
  vp_TotalAmount :: string
  vp_ReleasedAmount :: string
  vp_StartTime :: int
  vp_DurationDays :: nat
  vp_Type :: string
  vp_AdminSignature :: string

definition isValidVestingType :: "string \<Rightarrow> bool" where
  "isValidVestingType vestingType \<longleftrightarrow>
     vestingType \<in> {VestingTypeNode, VestingTypeDelegation, VestingTypeOther}"

definition decode_vesting_payload :: "(string \<times> json) list \<Rightarrow> go_error + vesting_payload" where
  "decode_vesting_payload pairs =
     bind_sum (json_uint ''vesting_id'' pairs) (\<lambda>vestingID.
     bind_sum (json_string ''address'' [] pairs) (\<lambda>addr.
     bind_sum (json_string ''total_amount'' [] pairs) (\<lambda>totalAmount.
     bind_sum (json_string ''released_amount'' [] pairs) (\<lambda>releasedAmount.
     bind_sum (json_int64 ''start_time'' pairs) (\<lambda>startTime.
     bind_sum (json_uint ''duration_days'' pairs) (\<lambda>durationDays.
     bind_sum (json_string ''type'' [] pairs) (\<lambda>vestingType.
     bind_sum (json_string ''admin_signature'' [] pairs) (\<lambda>adminSignature.
       Inr \<lparr>vp_VestingID = vestingID, vp_Address = addr, vp_TotalAmount = totalAmount,
            vp_ReleasedAmount = releasedAmount, vp_StartTime = startTime,
            vp_DurationDays = durationDays, vp_Type = vestingType,
            vp_AdminSignature = adminSignature\<rparr>))))))))"

definition parseVestingPayload :: "env \<Rightarrow> task_fee_log \<Rightarrow> go_error + vesting_payload" where
  "parseVestingPayload E eventLog =
     (if TrimSpace (tfl_Payload eventLog) = [] then Inl (TaskFeeError ErrTaskFeeVestingPayloadInvalid)
      else case bind_sum (Unmarshal (env_ParseJSON E) (tfl_Payload eventLog)) decode_vesting_payload of
        Inl e \<Rightarrow> Inl (TaskFeeError ErrTaskFeeVestingPayloadInvalid)
      | Inr payload \<Rightarrow>
          if vp_VestingID payload = 0 \<or> vp_Address payload = [] \<or> vp_TotalAmount payload = [] \<or>
             vp_ReleasedAmount payload = [] \<or> vp_StartTime payload \<le> 0 \<or>
             vp_DurationDays payload = 0 \<or> vp_Type payload = [] \<or> vp_AdminSignature payload = []
          then Inl (TaskFeeError ErrTaskFeeVestingPayloadInvalid)
          else if \<not> eth_IsHexAddress (env_lib E) (vp_Address payload) then
            Inl (TaskFeeError ErrTaskFeeVestingPayloadInvalid)
          else if \<not> isValidVestingType (vp_Type payload) then
            Inl (TaskFeeError ErrTaskFeeVestingPayloadInvalid)
          else Inr payload)"

text \<open>The release payload is the identifier alone.\<close>

definition parseVestingReleasePayload :: "env \<Rightarrow> task_fee_log \<Rightarrow> go_error + nat" where
  "parseVestingReleasePayload E eventLog =
     (if TrimSpace (tfl_Payload eventLog) = [] then Inl (TaskFeeError ErrTaskFeeVestingPayloadInvalid)
      else case bind_sum (Unmarshal (env_ParseJSON E) (tfl_Payload eventLog)) (json_uint ''vesting_id'') of
        Inl e \<Rightarrow> Inl (TaskFeeError ErrTaskFeeVestingPayloadInvalid)
      | Inr vestingID \<Rightarrow>
          if vestingID = 0 then Inl (TaskFeeError ErrTaskFeeVestingPayloadInvalid) else Inr vestingID)"

text \<open>The recovery identifier of the signature may be 27 or 28.\<close>

definition normalize_signature :: "bytes \<Rightarrow> bytes" where
  "normalize_signature sigBytes =
     (if sigBytes ! 64 = 27 \<or> sigBytes ! 64 = 28 then sigBytes[64 := sigBytes ! 64 - 27]
      else sigBytes)"

definition eth_message_prefix :: "nat \<Rightarrow> string" where
  "eth_message_prefix n =
     [char_of (25::nat)] @ ''Ethereum Signed Message:'' @ newline @ show_nat n"

definition recoverVestingSigner :: "env \<Rightarrow> vesting_payload \<Rightarrow> go_error + string" where
  "recoverVestingSigner E payload =
     (let L = env_lib E; signature = TrimPrefix (vp_AdminSignature payload) ''0x'' in
      case eth_Decode L (''0x'' @ signature) of
        Inl e \<Rightarrow> Inl (TaskFeeError ErrTaskFeeVestingSignatureInvalid)
      | Inr sigBytes \<Rightarrow>
          if length sigBytes \<noteq> 65 then Inl (TaskFeeError ErrTaskFeeVestingSignatureInvalid)
          else
            (let message = BuildVestingSignMessage
                   \<lparr>vs_Address = vp_Address payload, vs_TotalAmount = vp_TotalAmount payload,
                    vs_StartTime = vp_StartTime payload, vs_DurationDays = vp_DurationDays payload,
                    vs_Type = vp_Type payload\<rparr>;
                 messageHash = eth_Keccak256 L (eth_message_prefix (length message) @ message)
             in case eth_SigToPub L messageHash (normalize_signature sigBytes) of
                  Inl e \<Rightarrow> Inl (TaskFeeError ErrTaskFeeVestingSignatureInvalid)
                | Inr pubKey \<Rightarrow> Inr (eth_AddressHex L (eth_PubkeyToAddress L pubKey))))"

section \<open>The vesting table\<close>

definition find_vesting :: "nat \<Rightarrow> db \<Rightarrow> go_error + vesting_record" where
  "find_vesting relayID d =
     (case find (\<lambda>r. vr_RelayVestingID r = relayID \<and> vr_DeletedAt r = None) (db_vesting_records d) of
        None \<Rightarrow> Inl ErrRecordNotFound
      | Some r \<Rightarrow> Inr r)"

text \<open>The unique index on \<open>relay_vesting_id\<close> also holds deleted rows.\<close>

definition create_vesting :: "vesting_record \<Rightarrow> db \<Rightarrow> (go_error + unit) \<times> db" where
  "create_vesting r d =
     (if \<exists>q \<in> set (db_vesting_records d). vr_RelayVestingID q = vr_RelayVestingID r
      then (Inl ErrDuplicatedKey, d)
      else (Inr (),
        d\<lparr>db_vesting_records := db_vesting_records d @ [r\<lparr>vr_ID := db_next_vesting_record_id d\<rparr>],
          db_next_vesting_record_id := Suc (db_next_vesting_record_id d)\<rparr>))"

definition update_vesting :: "nat \<Rightarrow> int \<Rightarrow> vesting_status \<Rightarrow> db \<Rightarrow> (go_error + unit) \<times> db" where
  "update_vesting i released status d =
     (Inr (), d\<lparr>db_vesting_records := update_where (\<lambda>r. vr_ID r = i \<and> vr_DeletedAt r = None)
        (\<lambda>r. r\<lparr>vr_ReleasedAmount := released, vr_Status := status\<rparr>) (db_vesting_records d)\<rparr>)"

text \<open>The parts of a create event that are checked before the table is read.\<close>

definition check_create_amounts ::
  "task_fee_log \<Rightarrow> vesting_payload \<Rightarrow> go_error + (int \<times> int)" where
  "check_create_amounts eventLog payload =
     (case parse_big (tfl_Amount eventLog) of
        None \<Rightarrow> Inl (TaskFeeError ErrTaskFeeVestingPayloadInvalid)
      | Some eventAmount \<Rightarrow>
     (if eventAmount \<noteq> 0 then Inl (TaskFeeError ErrTaskFeeVestingPayloadInvalid)
      else case parse_big (vp_TotalAmount payload) of
        None \<Rightarrow> Inl (TaskFeeError ErrTaskFeeVestingPayloadInvalid)
      | Some totalAmount \<Rightarrow>
     (if totalAmount \<le> 0 then Inl (TaskFeeError ErrTaskFeeVestingPayloadInvalid)
      else case parse_big (vp_ReleasedAmount payload) of
        None \<Rightarrow> Inl (TaskFeeError ErrTaskFeeVestingPayloadInvalid)
      | Some releasedAmount \<Rightarrow>
          if releasedAmount < 0 \<or> releasedAmount > totalAmount
          then Inl (TaskFeeError ErrTaskFeeVestingPayloadInvalid)
          else Inr (totalAmount, releasedAmount))))"

definition new_vesting :: "vesting_payload \<Rightarrow> int \<Rightarrow> int \<Rightarrow> vesting_record" where
  "new_vesting payload totalAmount releasedAmount =
     \<lparr>vr_ID = 0, vr_DeletedAt = None, vr_RelayVestingID = vp_VestingID payload,
      vr_Address = vp_Address payload, vr_TotalAmount = totalAmount,
      vr_ReleasedAmount = releasedAmount, vr_StartTime = Unix (vp_StartTime payload),
      vr_DurationDays = vp_DurationDays payload, vr_Type = vp_Type payload,
      vr_AdminSignature = vp_AdminSignature payload,
      vr_Status = (if releasedAmount = totalAmount then VestingStatusCompleted
                   else VestingStatusActive)\<rparr>"

definition upsertVestingCreateLog ::
  "env \<Rightarrow> task_fee_log \<Rightarrow> vesting_payload \<Rightarrow> (world, unit) action" where
  "upsertVestingCreateLog E eventLog payload =
     and_then (lift_sum (check_create_amounts eventLog payload)) (\<lambda>(totalAmount, releasedAmount).
     and_then (lift_sum (recoverVestingSigner E payload)) (\<lambda>recoveredSigner.
       if \<not> EqualFold recoveredSigner (rel_VestingSignerAddress (cfg_Relay (env_cfg E))) then
         return_err (TaskFeeError ErrTaskFeeVestingSignerMismatch)
       else and_then (try_result (db_query E (find_vesting (vp_VestingID payload)))) (\<lambda>r.
         case r of
           Inl e \<Rightarrow>
             if e = ErrRecordNotFound then
               db_action E (create_vesting (new_vesting payload totalAmount releasedAmount))
             else return_err e
         | Inr rcd \<Rightarrow>
             if \<not> EqualFold (vr_Address rcd) (vp_Address payload) \<or>
                show_int (vr_TotalAmount rcd) \<noteq> show_int totalAmount \<or>
                unix_seconds (vr_StartTime rcd) \<noteq> vp_StartTime payload \<or>
                vr_DurationDays rcd \<noteq> vp_DurationDays payload \<or> vr_Type rcd \<noteq> vp_Type payload
             then return_err (TaskFeeError ErrTaskFeeVestingPayloadInvalid)
             else return_ok ())))"

text \<open>What a release event does to the record it finds, at the time of the event.\<close>

definition release_vesting ::
  "task_fee_log \<Rightarrow> int \<Rightarrow> int \<Rightarrow> vesting_record \<Rightarrow> go_error + (int \<times> vesting_status)" where
  "release_vesting eventLog eventAmount eventCreatedAt rcd =
     (if vr_Status rcd \<noteq> VestingStatusActive then Inl (TaskFeeError ErrTaskFeeVestingReleaseInvalid)
      else if \<not> EqualFold (vr_Address rcd) (tfl_Address eventLog) then
        Inl (TaskFeeError ErrTaskFeeVestingReleaseInvalid)
      else
        (let releaseTo = vr_ReleasedAmount rcd + eventAmount in
         if releaseTo > vr_TotalAmount rcd then Inl (TaskFeeError ErrTaskFeeVestingReleaseInvalid)
         else if releaseTo > ComputeVestingShouldReleased (vr_TotalAmount rcd) (vr_StartTime rcd)
                   (vr_DurationDays rcd) eventCreatedAt
         then Inl (TaskFeeError ErrTaskFeeVestingReleaseInvalid)
         else Inr (releaseTo, if releaseTo = vr_TotalAmount rcd then VestingStatusCompleted
                              else VestingStatusActive)))"

definition maxTaskFeeLogFutureDrift :: int where
  "maxTaskFeeLogFutureDrift = 3600 * 1000000000"

definition applyVestingReleaseLog :: "env \<Rightarrow> task_fee_log \<Rightarrow> nat \<Rightarrow> (world, unit) action" where
  "applyVestingReleaseLog E eventLog vestingID =
     (case parse_big (tfl_Amount eventLog) of
        None \<Rightarrow> return_err (TaskFeeError ErrTaskFeeVestingReleaseInvalid)
      | Some eventAmount \<Rightarrow>
          if eventAmount \<le> 0 then return_err (TaskFeeError ErrTaskFeeVestingReleaseInvalid)
          else
            (let eventCreatedAt = Unix (sint (tfl_CreatedAt eventLog)) in
             and_then (time_now E) (\<lambda>now.
               if eventCreatedAt > now + maxTaskFeeLogFutureDrift then
                 return_err (TaskFeeError ErrTaskFeeVestingReleaseInvalid)
               else and_then (try_result (db_query E (find_vesting vestingID))) (\<lambda>r.
                 case r of
                   Inl e \<Rightarrow>
                     if e = ErrRecordNotFound then
                       return_err (TaskFeeError ErrTaskFeeVestingRecordNotFound)
                     else return_err e
                 | Inr rcd \<Rightarrow>
                     and_then (lift_sum (release_vesting eventLog eventAmount eventCreatedAt rcd))
                       (\<lambda>(releaseTo, newStatus).
                          db_action E (update_vesting (vr_ID rcd) releaseTo newStatus))))))"

definition is_vesting_log :: "task_fee_log \<Rightarrow> bool" where
  "is_vesting_log eventLog \<longleftrightarrow> tfl_Type eventLog = TaskFeeLogTypeVestingCreated \<or>
     tfl_Type eventLog = TaskFeeLogTypeVestingRelease"

definition apply_vesting_log :: "env \<Rightarrow> task_fee_log \<Rightarrow> (world, unit) action" where
  "apply_vesting_log E eventLog =
     (if \<not> is_vesting_log eventLog then return_ok ()
      else if tfl_Type eventLog = TaskFeeLogTypeVestingCreated then
        and_then (lift_sum (parseVestingPayload E eventLog)) (\<lambda>payload.
          if \<not> EqualFold (vp_Address payload) (tfl_Address eventLog) then
            return_err (TaskFeeError ErrTaskFeeVestingPayloadInvalid)
          else upsertVestingCreateLog E eventLog payload)
      else
        and_then (lift_sum (parseVestingReleasePayload E eventLog)) (\<lambda>vestingID.
          applyVestingReleaseLog E eventLog vestingID))"

definition applyVestingLogs :: "env \<Rightarrow> task_fee_log list \<Rightarrow> (world, unit) action" where
  "applyVestingLogs E logs =
     (if filter is_vesting_log logs = [] then return_ok ()
      else if TrimSpace (rel_VestingSignerAddress (cfg_Relay (env_cfg E))) = [] then
        return_err (TaskFeeError ErrTaskFeeVestingSignerMismatch)
      else for_each logs (apply_vesting_log E))"

section \<open>The schedule\<close>

lemma day_pos: "0 < day"
  by (simp add: day_def)

lemma saturated_Sub_eq: "0 \<le> t - u \<Longrightarrow> t - u < 2 ^ 63 \<Longrightarrow> saturated_Sub t u = t - u"
  unfolding saturated_Sub_def by linarith

lemma elapsed_days_eq:
  assumes "start \<le> now" and "now div day - start div day \<le> 106751"
  shows "elapsed_days start now = now div day - start div day"
proof -
  let ?n = "now div day - start div day"
  have eq: "now div day * day - start div day * day = ?n * day"
    by (simp add: left_diff_distrib)
  have "0 \<le> ?n" using assms(1) day_pos by (simp add: zdiv_mono1)
  then have low: "0 \<le> ?n * day" using day_pos by simp
  have "?n * day \<le> 106751 * day"
    using assms(2) day_pos by (intro mult_right_mono) simp_all
  also have "106751 * day < 2 ^ 63" by (simp add: day_def)
  finally have "saturated_Sub (now div day * day) (start div day * day) = ?n * day"
    using low by (subst saturated_Sub_eq) (simp_all only: eq)
  then show ?thesis
    using day_pos by (simp add: elapsed_days_def)
qed

lemma elapsed_days_bounds:
  assumes "start \<le> now"
  shows "0 \<le> elapsed_days start now \<and> elapsed_days start now \<le> 106751"
proof -
  note pos = day_pos
  have "start div day * day \<le> now div day * day"
    using assms pos by (simp add: zdiv_mono1)
  then have b: "0 \<le> saturated_Sub (now div day * day) (start div day * day)"
    "saturated_Sub (now div day * day) (start div day * day) \<le> 2 ^ 63 - 1"
    by (simp_all add: saturated_Sub_def)
  have "elapsed_days start now \<le> (2 ^ 63 - 1) div day"
    unfolding elapsed_days_def by (rule zdiv_mono1 [OF b(2) pos])
  also have "(2 ^ 63 - 1) div day = 106751" by (simp add: day_def)
  finally show ?thesis using b(1) pos by (simp add: elapsed_days_def pos_imp_zdiv_nonneg_iff)
qed

lemma elapsed_days_mono: "now \<le> later \<Longrightarrow> elapsed_days start now \<le> elapsed_days start later"
  unfolding elapsed_days_def saturated_Sub_def
  by (intro zdiv_mono1 max.mono min.mono diff_mono mult_right_mono) (simp_all add: day_def)

lemma schedule_bounds:
  "0 \<le> ComputeVestingShouldReleased amount start n now \<and>
   ComputeVestingShouldReleased amount start n now \<le> max 0 amount"
proof -
  have "amount * e div int n \<le> amount \<and> 0 \<le> amount * e div int n"
    if "0 < amount" "0 \<le> e" "e < int n" for e
  proof -
    have "amount * e \<le> amount * int n" using that by (simp add: mult_left_mono)
    then have "amount * e div int n \<le> amount * int n div int n"
      using that by (intro zdiv_mono1) simp_all
    with that show ?thesis by (simp add: pos_imp_zdiv_nonneg_iff)
  qed
  then show ?thesis
    using elapsed_days_bounds [of start now]
    by (auto simp: ComputeVestingShouldReleased_def Let_def max_def not_le)
qed

lemma schedule_mono:
  assumes "now \<le> later"
  shows "ComputeVestingShouldReleased amount start n now \<le> ComputeVestingShouldReleased amount start n later"
proof (cases "0 < amount \<and> 0 < n \<and> start \<le> now")
  case False
  then show ?thesis using schedule_bounds [of amount start n later]
    by (auto simp: ComputeVestingShouldReleased_def not_less not_le)
next
  case True
  let ?e = "elapsed_days start now" and ?f = "elapsed_days start later"
  have le: "?e \<le> ?f" using assms by (rule elapsed_days_mono)
  have "start \<le> later" using True assms by simp
  show ?thesis
  proof (cases "int n \<le> ?f")
    case True
    then have "ComputeVestingShouldReleased amount start n later = max 0 amount"
      using \<open>0 < amount \<and> 0 < n \<and> start \<le> now\<close> \<open>start \<le> later\<close>
      by (simp add: ComputeVestingShouldReleased_def Let_def)
    then show ?thesis using schedule_bounds [of amount start n now] by simp
  next
    case False
    with le True \<open>start \<le> later\<close> show ?thesis
      by (auto simp: ComputeVestingShouldReleased_def Let_def intro!: zdiv_mono1 mult_left_mono)
  qed
qed
section \<open>What an event may do to the vesting table\<close>

definition vesting_ok :: "vesting_record \<Rightarrow> bool" where
  "vesting_ok r \<longleftrightarrow> 0 \<le> vr_ReleasedAmount r \<and> vr_ReleasedAmount r \<le> vr_TotalAmount r \<and>
     0 < vr_TotalAmount r \<and> 0 < vr_DurationDays r \<and>
     (vr_Status r = VestingStatusActive \<longrightarrow> vr_ReleasedAmount r < vr_TotalAmount r) \<and>
     (vr_Status r = VestingStatusCompleted \<longrightarrow> vr_ReleasedAmount r = vr_TotalAmount r)"

definition vestings_ok :: "db \<Rightarrow> bool" where
  "vestings_ok d \<longleftrightarrow> (\<forall>r \<in> set (db_vesting_records d). vesting_ok r \<and> vr_ID r < db_next_vesting_record_id d) \<and>
     distinct (map vr_ID (db_vesting_records d)) \<and>
     distinct (map vr_RelayVestingID (db_vesting_records d))"

definition release_row :: "int \<Rightarrow> vesting_record \<Rightarrow> vesting_record" where
  "release_row a r =
     r\<lparr>vr_ReleasedAmount := vr_ReleasedAmount r + a,
       vr_Status := (if vr_ReleasedAmount r + a = vr_TotalAmount r then VestingStatusCompleted
                     else VestingStatusActive)\<rparr>"

text \<open>
  \<open>vesting_event E T log V V'\<close>: with a clock that has not passed \<open>T\<close>, the event takes the table \<open>V\<close>
  to \<open>V'\<close>. A signed vesting is created once; an active vesting releases what the schedule allows.
\<close>

inductive vesting_event ::
  "env \<Rightarrow> int \<Rightarrow> task_fee_log \<Rightarrow> vesting_record list \<Rightarrow> vesting_record list \<Rightarrow> bool" for E T where
  skip: "tfl_Type eventLog \<noteq> TaskFeeLogTypeVestingRelease \<Longrightarrow> vesting_event E T eventLog V V"
| create: "tfl_Type eventLog = TaskFeeLogTypeVestingCreated \<Longrightarrow>
    parseVestingPayload E eventLog = Inr payload \<Longrightarrow>
    EqualFold (vp_Address payload) (tfl_Address eventLog) \<Longrightarrow>
    check_create_amounts eventLog payload = Inr (totalAmount, releasedAmount) \<Longrightarrow>
    recoverVestingSigner E payload = Inr signer \<Longrightarrow>
    EqualFold signer (rel_VestingSignerAddress (cfg_Relay (env_cfg E))) \<Longrightarrow>
    \<forall>r \<in> set V. vr_RelayVestingID r \<noteq> vp_VestingID payload \<and> vr_ID r \<noteq> i \<Longrightarrow>
    vesting_event E T eventLog V (V @ [(new_vesting payload totalAmount releasedAmount)\<lparr>vr_ID := i\<rparr>])"
| release: "tfl_Type eventLog = TaskFeeLogTypeVestingRelease \<Longrightarrow>
    parseVestingReleasePayload E eventLog = Inr vestingID \<Longrightarrow>
    parse_big (tfl_Amount eventLog) = Some a \<Longrightarrow> 0 < a \<Longrightarrow>
    r \<in> set V \<Longrightarrow> vr_RelayVestingID r = vestingID \<Longrightarrow> vr_Status r = VestingStatusActive \<Longrightarrow>
    EqualFold (vr_Address r) (tfl_Address eventLog) \<Longrightarrow>
    vr_ReleasedAmount r + a \<le> vr_TotalAmount r \<Longrightarrow>
    vr_ReleasedAmount r + a \<le> ComputeVestingShouldReleased (vr_TotalAmount r) (vr_StartTime r)
      (vr_DurationDays r) (Unix (sint (tfl_CreatedAt eventLog))) \<Longrightarrow>
    Unix (sint (tfl_CreatedAt eventLog)) \<le> T + maxTaskFeeLogFutureDrift \<Longrightarrow>
    vesting_event E T eventLog V
      (update_where (\<lambda>q. vr_RelayVestingID q = vestingID) (release_row a) V)"

definition clock_before :: "env \<Rightarrow> int \<Rightarrow> bool" where
  "clock_before E T \<longleftrightarrow> (\<forall>t. env_now E t \<le> T)"

section \<open>The code only does such events\<close>

lemma find_vesting_seen [simp]: "find_vesting v (seen_db E w) = find_vesting v (w_db w)"
  by (simp add: find_vesting_def)

lemma find_vesting_Inr:
  "find_vesting v d = Inr r \<Longrightarrow>
   r \<in> set (db_vesting_records d) \<and> vr_RelayVestingID r = v \<and> vr_DeletedAt r = None"
  by (auto simp: find_vesting_def find_Some_iff split: option.splits)

lemma create_vesting_ok:
  "create_vesting r d = (Inr (), d') \<Longrightarrow>
   (\<forall>q \<in> set (db_vesting_records d). vr_RelayVestingID q \<noteq> vr_RelayVestingID r) \<and>
   db_vesting_records d' = db_vesting_records d @ [r\<lparr>vr_ID := db_next_vesting_record_id d\<rparr>] \<and>
   db_next_vesting_record_id d' = Suc (db_next_vesting_record_id d)"
  by (auto simp: create_vesting_def split: if_splits)

lemma create_amounts_ok:
  "check_create_amounts eventLog payload = Inr (t, a) \<Longrightarrow> 0 < t \<and> 0 \<le> a \<and> a \<le> t"
  by (auto simp: check_create_amounts_def split: option.splits if_splits)

lemma vesting_payload_ok:
  "parseVestingPayload E eventLog = Inr payload \<Longrightarrow> 0 < vp_DurationDays payload \<and> vp_VestingID payload \<noteq> 0"
  by (auto simp: parseVestingPayload_def split: sum.splits if_splits)

lemma new_vesting_ok:
  "0 < t \<Longrightarrow> 0 \<le> a \<Longrightarrow> a \<le> t \<Longrightarrow> 0 < vp_DurationDays payload \<Longrightarrow> vesting_ok (new_vesting payload t a\<lparr>vr_ID := i\<rparr>)"
  by (simp add: vesting_ok_def new_vesting_def)

text \<open>A failed event leaves the table alone; the sync is its only writer.\<close>

definition same_vestings :: "db \<Rightarrow> db \<Rightarrow> bool" where
  "same_vestings d d' \<longleftrightarrow> db_vesting_records d' = db_vesting_records d \<and>
     db_next_vesting_record_id d' = db_next_vesting_record_id d"

lemma same_vestings_simps [simp]:
  "same_vestings d d" "same_vestings d (run_steps ss d)" "same_vestings (w_db w) (seen_db E w)"
  by (simp_all add: same_vestings_def)

lemma upsert_outcome:
  assumes "upsertVestingCreateLog E eventLog payload w = (Inr (), w')"
  shows "same_vestings (w_db w) (w_db w') \<or>
    (\<exists>t a signer. check_create_amounts eventLog payload = Inr (t, a) \<and>
       recoverVestingSigner E payload = Inr signer \<and>
       EqualFold signer (rel_VestingSignerAddress (cfg_Relay (env_cfg E))) \<and>
       (\<exists>d0. same_vestings (w_db w) d0 \<and> create_vesting (new_vesting payload t a) d0 = (Inr (), w_db w')))"
proof -
  from assms obtain t a signer where c: "check_create_amounts eventLog payload = Inr (t, a)"
    "recoverVestingSigner E payload = Inr signer"
    "EqualFold signer (rel_VestingSignerAddress (cfg_Relay (env_cfg E)))"
    and rest: "and_then (try_result (db_query E (find_vesting (vp_VestingID payload)))) (\<lambda>r.
         case r of
           Inl e \<Rightarrow>
             if e = ErrRecordNotFound then
               db_action E (create_vesting (new_vesting payload t a))
             else return_err e
         | Inr rcd \<Rightarrow>
             if \<not> EqualFold (vr_Address rcd) (vp_Address payload) \<or>
                show_int (vr_TotalAmount rcd) \<noteq> show_int t \<or>
                unix_seconds (vr_StartTime rcd) \<noteq> vp_StartTime payload \<or>
                vr_DurationDays rcd \<noteq> vp_DurationDays payload \<or> vr_Type rcd \<noteq> vp_Type payload
             then return_err (TaskFeeError ErrTaskFeeVestingPayloadInvalid)
             else return_ok ()) w = (Inr (), w')"
    unfolding upsertVestingCreateLog_def
    by (auto simp: lift_then_ok return_err_def split: if_splits)
  from rest obtain r w1 where q: "try_result (db_query E (find_vesting (vp_VestingID payload))) w = (Inr r, w1)"
    and k: "(case r of
           Inl e \<Rightarrow>
             if e = ErrRecordNotFound then
               db_action E (create_vesting (new_vesting payload t a))
             else return_err e
         | Inr rcd \<Rightarrow>
             if \<not> EqualFold (vr_Address rcd) (vp_Address payload) \<or>
                show_int (vr_TotalAmount rcd) \<noteq> show_int t \<or>
                unix_seconds (vr_StartTime rcd) \<noteq> vp_StartTime payload \<or>
                vr_DurationDays rcd \<noteq> vp_DurationDays payload \<or> vr_Type rcd \<noteq> vp_Type payload
             then return_err (TaskFeeError ErrTaskFeeVestingPayloadInvalid)
             else return_ok ()) w1 = (Inr (), w')"
    unfolding and_then_ok by blast
  have w1: "same_vestings (w_db w) (w_db w1)"
    using q by (auto simp: try_result_def db_query_def db_action_def Let_def same_vestings_def
        split: option.splits if_splits sum.splits prod.splits)
  show ?thesis
  proof (cases r)
    case (Inl e)
    with k have "db_action E (create_vesting (new_vesting payload t a)) w1 = (Inr (), w')"
      by (auto simp: return_err_def split: if_splits)
    then have "create_vesting (new_vesting payload t a) (seen_db E w1) = (Inr (), w_db w')"
      by (auto simp: db_action_def Let_def split: option.splits prod.splits)
    moreover have "same_vestings (w_db w) (seen_db E w1)"
      using w1 by (simp add: same_vestings_def)
    ultimately show ?thesis using c by blast
  next
    case (Inr rcd)
    with k w1 show ?thesis by (auto simp: return_err_def return_ok_def split: if_splits)
  qed
qed
lemma release_vesting_ok:
  "release_vesting eventLog a at r = Inr (to, st) \<Longrightarrow>
   vr_Status r = VestingStatusActive \<and> EqualFold (vr_Address r) (tfl_Address eventLog) \<and>
   to = vr_ReleasedAmount r + a \<and> to \<le> vr_TotalAmount r \<and>
   to \<le> ComputeVestingShouldReleased (vr_TotalAmount r) (vr_StartTime r) (vr_DurationDays r) at \<and>
   r\<lparr>vr_ReleasedAmount := to, vr_Status := st\<rparr> = release_row a r"
  by (auto simp: release_vesting_def release_row_def Let_def split: if_splits)

lemma release_outcome:
  assumes "applyVestingReleaseLog E eventLog vestingID w = (Inr (), w')" and T: "clock_before E T"
  shows "\<exists>a r to st. parse_big (tfl_Amount eventLog) = Some a \<and> 0 < a \<and>
    Unix (sint (tfl_CreatedAt eventLog)) \<le> T + maxTaskFeeLogFutureDrift \<and>
    find_vesting vestingID (w_db w) = Inr r \<and>
    release_vesting eventLog a (Unix (sint (tfl_CreatedAt eventLog))) r = Inr (to, st) \<and>
    (\<exists>d0. same_vestings (w_db w) d0 \<and> update_vesting (vr_ID r) to st d0 = (Inr (), w_db w'))"
proof -
  let ?at = "Unix (sint (tfl_CreatedAt eventLog))"
  from assms(1) obtain a where a: "parse_big (tfl_Amount eventLog) = Some a" "0 < a"
    by (auto simp: applyVestingReleaseLog_def return_err_def Let_def split: option.splits if_splits)
  with assms(1) obtain now w1 where now: "time_now E w = (Inr now, w1)"
    and drift: "\<not> ?at > now + maxTaskFeeLogFutureDrift"
    and rest: "and_then (try_result (db_query E (find_vesting vestingID))) (\<lambda>r.
                 case r of
                   Inl e \<Rightarrow>
                     if e = ErrRecordNotFound then
                       return_err (TaskFeeError ErrTaskFeeVestingRecordNotFound)
                     else return_err e
                 | Inr rcd \<Rightarrow>
                     and_then (lift_sum (release_vesting eventLog a ?at rcd))
                       (\<lambda>(releaseTo, newStatus).
                          db_action E (update_vesting (vr_ID rcd) releaseTo newStatus))) w1 = (Inr (), w')"
    by (auto simp: applyVestingReleaseLog_def Let_def and_then_ok return_err_def split: if_splits)
  have d1: "w_db w1 = w_db w" using now by (rule time_now_db)
  have "now \<le> T" using now T by (auto simp: time_now_def ask_def clock_before_def)
  with drift have dr: "?at \<le> T + maxTaskFeeLogFutureDrift" by simp
  from rest obtain q w2 where q: "try_result (db_query E (find_vesting vestingID)) w1 = (Inr q, w2)"
    and k: "(case q of
                   Inl e \<Rightarrow>
                     if e = ErrRecordNotFound then
                       return_err (TaskFeeError ErrTaskFeeVestingRecordNotFound)
                     else return_err e
                 | Inr rcd \<Rightarrow>
                     and_then (lift_sum (release_vesting eventLog a ?at rcd))
                       (\<lambda>(releaseTo, newStatus).
                          db_action E (update_vesting (vr_ID rcd) releaseTo newStatus))) w2 = (Inr (), w')"
    unfolding and_then_ok by blast
  from k obtain r where r: "q = Inr r"
    by (cases q) (auto simp: return_err_def split: if_splits)
  have found: "find_vesting vestingID (w_db w) = Inr r" and s2: "same_vestings (w_db w) (w_db w2)"
    using q r d1 by (auto simp: try_result_def db_query_def db_action_def Let_def same_vestings_def
        split: option.splits if_splits sum.splits prod.splits)
  from k r obtain to st where rel: "release_vesting eventLog a ?at r = Inr (to, st)"
    and up: "db_action E (update_vesting (vr_ID r) to st) w2 = (Inr (), w')"
    by (auto simp: lift_then_ok)
  have "update_vesting (vr_ID r) to st (seen_db E w2) = (Inr (), w_db w')"
    using up by (auto simp: db_action_def Let_def split: option.splits prod.splits)
  moreover have "same_vestings (w_db w) (seen_db E w2)"
    using s2 by (simp add: same_vestings_def)
  ultimately show ?thesis using a dr found rel by blast
qed

lemma update_vesting_is_release:
  assumes ok: "vestings_ok d" and r: "find_vesting v d = Inr r"
    and rel: "release_vesting eventLog a at r = Inr (to, st)"
    and up: "update_vesting (vr_ID r) to st d = (x, d')"
  shows "db_vesting_records d' = update_where (\<lambda>q. vr_RelayVestingID q = v) (release_row a) (db_vesting_records d)"
proof -
  from r have m: "r \<in> set (db_vesting_records d)" "vr_RelayVestingID r = v" "vr_DeletedAt r = None"
    by (auto dest: find_vesting_Inr)
  have "(vr_ID q = vr_ID r \<and> vr_DeletedAt q = None) = (q = r)" "(vr_RelayVestingID q = v) = (q = r)"
    if "q \<in> set (db_vesting_records d)" for q
    using ok m that unfolding vestings_ok_def by (metis distinct_key_eq)+
  moreover have "r\<lparr>vr_ReleasedAmount := to, vr_Status := st\<rparr> = release_row a r"
    using release_vesting_ok [OF rel] by blast
  ultimately show ?thesis
    using up by (auto simp: update_vesting_def update_where_def)
qed

text \<open>The refinement of one event.\<close>

lemma vesting_log_refines:
  assumes run: "apply_vesting_log E eventLog w = (Inr (), w')" and ok: "vestings_ok (w_db w)"
    and T: "clock_before E T"
  shows "vesting_event E T eventLog (db_vesting_records (w_db w)) (db_vesting_records (w_db w')) \<and>
    vestings_ok (w_db w')"
proof -
  let ?V = "db_vesting_records (w_db w)" and ?V' = "db_vesting_records (w_db w')"
  have types: "TaskFeeLogTypeVestingCreated \<noteq> TaskFeeLogTypeVestingRelease"
    by (simp add: log_type_defs)
  consider (other) "\<not> is_vesting_log eventLog"
    | (create) "tfl_Type eventLog = TaskFeeLogTypeVestingCreated"
    | (release) "tfl_Type eventLog = TaskFeeLogTypeVestingRelease"
    by (auto simp: is_vesting_log_def)
  then show ?thesis
  proof cases
    case other
    with run ok show ?thesis
      by (auto simp: apply_vesting_log_def return_ok_def is_vesting_log_def intro: vesting_event.skip)
  next
    case create
    with run obtain payload where p: "parseVestingPayload E eventLog = Inr payload"
      "EqualFold (vp_Address payload) (tfl_Address eventLog)"
      "upsertVestingCreateLog E eventLog payload w = (Inr (), w')"
      by (auto simp: apply_vesting_log_def is_vesting_log_def lift_then_ok return_err_def split: if_splits)
    from upsert_outcome [OF p(3)] show ?thesis
    proof (elim disjE exE conjE)
      assume "same_vestings (w_db w) (w_db w')"
      with ok create types show ?thesis
        by (auto simp: same_vestings_def vestings_ok_def intro: vesting_event.skip)
    next
      fix t a signer d0
      assume c: "check_create_amounts eventLog payload = Inr (t, a)"
        and s: "recoverVestingSigner E payload = Inr signer"
        "EqualFold signer (rel_VestingSignerAddress (cfg_Relay (env_cfg E)))"
        and same: "same_vestings (w_db w) d0"
        and new: "create_vesting (new_vesting payload t a) d0 = (Inr (), w_db w')"
      let ?i = "db_next_vesting_record_id (w_db w)"
      have fresh: "\<forall>r \<in> set ?V. vr_RelayVestingID r \<noteq> vp_VestingID payload \<and> vr_ID r \<noteq> ?i"
        and V': "?V' = ?V @ [(new_vesting payload t a)\<lparr>vr_ID := ?i\<rparr>]"
        and n': "db_next_vesting_record_id (w_db w') = Suc ?i"
        using create_vesting_ok [OF new] same ok
        by (auto simp: same_vestings_def vestings_ok_def new_vesting_def)
      have "vesting_ok ((new_vesting payload t a)\<lparr>vr_ID := ?i\<rparr>)"
        using create_amounts_ok [OF c] vesting_payload_ok [OF p(1)] by (simp add: new_vesting_ok)
      then have "vestings_ok (w_db w')"
        using ok fresh by (auto simp: vestings_ok_def V' n' new_vesting_def)
      with create p c s fresh V' show ?thesis by (auto intro: vesting_event.create)
    qed
  next
    case release
    with run obtain v where p: "parseVestingReleasePayload E eventLog = Inr v"
      "applyVestingReleaseLog E eventLog v w = (Inr (), w')"
      using types by (auto simp: apply_vesting_log_def is_vesting_log_def lift_then_ok)
    from release_outcome [OF p(2) T] obtain a r to st d0 where a: "parse_big (tfl_Amount eventLog) = Some a" "0 < a"
      "Unix (sint (tfl_CreatedAt eventLog)) \<le> T + maxTaskFeeLogFutureDrift"
      and r: "find_vesting v (w_db w) = Inr r"
      and rel: "release_vesting eventLog a (Unix (sint (tfl_CreatedAt eventLog))) r = Inr (to, st)"
      and same: "same_vestings (w_db w) d0" and up: "update_vesting (vr_ID r) to st d0 = (Inr (), w_db w')"
      by blast
    have d0: "vestings_ok d0" "find_vesting v d0 = Inr r"
      using ok r same by (simp_all add: same_vestings_def vestings_ok_def find_vesting_def)
    have V': "?V' = update_where (\<lambda>q. vr_RelayVestingID q = v) (release_row a) ?V"
      using update_vesting_is_release [OF d0 rel up] same by (simp add: same_vestings_def)
    note R = release_vesting_ok [OF rel] and m = find_vesting_Inr [OF r]
    have "vesting_event E T eventLog ?V ?V'"
      unfolding V' using release p a R m by (intro vesting_event.release) auto
    moreover have "vestings_ok (w_db w')"
    proof -
      have n': "db_next_vesting_record_id (w_db w') = db_next_vesting_record_id (w_db w)"
        using up same by (auto simp: update_vesting_def same_vestings_def
            dest: arg_cong [where f = db_next_vesting_record_id])
      have "vesting_ok (release_row a r)"
        using R m ok a(2) by (auto simp: vestings_ok_def vesting_ok_def release_row_def)
      moreover have "q = r" if "q \<in> set ?V" "vr_RelayVestingID q = v" for q
        using ok m that unfolding vestings_ok_def by (metis distinct_key_eq)
      ultimately show ?thesis
        using ok unfolding vestings_ok_def V' n'
        by (auto simp: set_update_where map_update_where release_row_def)
    qed
    ultimately show ?thesis by blast
  qed
qed
section \<open>A batch\<close>

fun vesting_run :: "env \<Rightarrow> int \<Rightarrow> task_fee_log list \<Rightarrow> vesting_record list \<Rightarrow> vesting_record list \<Rightarrow> bool" where
  "vesting_run E T [] V V' \<longleftrightarrow> V' = V"
| "vesting_run E T (l # ls) V V' \<longleftrightarrow> (\<exists>U. vesting_event E T l V U \<and> vesting_run E T ls U V')"

text \<open>What an event releases of the vesting \<open>v\<close>.\<close>

definition released_by :: "env \<Rightarrow> nat \<Rightarrow> task_fee_log \<Rightarrow> int" where
  "released_by E v eventLog =
     (if tfl_Type eventLog = TaskFeeLogTypeVestingRelease \<and>
         parseVestingReleasePayload E eventLog = Inr v
      then (case parse_big (tfl_Amount eventLog) of None \<Rightarrow> 0 | Some a \<Rightarrow> a) else 0)"

definition same_terms :: "vesting_record \<Rightarrow> vesting_record \<Rightarrow> bool" where
  "same_terms r r' \<longleftrightarrow>
     r'\<lparr>vr_ReleasedAmount := vr_ReleasedAmount r, vr_Status := vr_Status r\<rparr> = r"

definition scheduled :: "int \<Rightarrow> vesting_record \<Rightarrow> int" where
  "scheduled now r = ComputeVestingShouldReleased (vr_TotalAmount r) (vr_StartTime r) (vr_DurationDays r) now"

lemma same_termsD:
  "same_terms r r' \<Longrightarrow> vr_RelayVestingID r' = vr_RelayVestingID r \<and> scheduled now r' = scheduled now r \<and>
     vr_ID r' = vr_ID r \<and> vr_Address r' = vr_Address r \<and> vr_TotalAmount r' = vr_TotalAmount r"
  by (cases r; cases r') (simp add: same_terms_def scheduled_def)

lemma same_terms_refl [simp]: "same_terms r r"
  by (simp add: same_terms_def)

lemma same_terms_trans: "same_terms r s \<Longrightarrow> same_terms s t \<Longrightarrow> same_terms r t"
  by (cases r; cases s; cases t) (simp add: same_terms_def)

lemma vesting_event_row:
  assumes "vesting_event E T l V V'" and "distinct (map vr_RelayVestingID V)" and "r \<in> set V"
  shows "\<exists>r' \<in> set V'. same_terms r r' \<and>
    vr_ReleasedAmount r' = vr_ReleasedAmount r + released_by E (vr_RelayVestingID r) l \<and>
    (vr_ReleasedAmount r' = vr_ReleasedAmount r \<or>
     vr_ReleasedAmount r' \<le> scheduled (T + maxTaskFeeLogFutureDrift) r)"
  using assms
proof (induction rule: vesting_event.induct)
  case (skip eventLog V)
  then show ?case by (intro bexI [of _ r]) (simp_all add: released_by_def)
next
  case (create eventLog payload totalAmount releasedAmount signer V i)
  have "TaskFeeLogTypeVestingCreated \<noteq> TaskFeeLogTypeVestingRelease" by (simp add: log_type_defs)
  with create show ?case by (intro bexI [of _ r]) (simp_all add: released_by_def)
next
  case (release eventLog v a s V)
  show ?case
  proof (cases "vr_RelayVestingID r = v")
    case True
    then have "r = s" using release by (metis distinct_key_eq)
    moreover have "scheduled (Unix (sint (tfl_CreatedAt eventLog))) s
        \<le> scheduled (T + maxTaskFeeLogFutureDrift) s"
      unfolding scheduled_def by (rule schedule_mono) (use release in simp)
    ultimately show ?thesis
      using release True by (intro bexI [of _ "release_row a r"])
        (auto simp: release_row_def same_terms_def released_by_def scheduled_def set_update_where)
  next
    case False
    with release show ?thesis
      by (intro bexI [of _ r]) (auto simp: released_by_def set_update_where)
  qed
qed

lemma vesting_event_distinct:
  "vesting_event E T l V V' \<Longrightarrow> distinct (map vr_RelayVestingID V) \<Longrightarrow>
   distinct (map vr_RelayVestingID V')"
  by (induction rule: vesting_event.induct)
    (auto simp: map_update_where release_row_def new_vesting_def)

lemma vesting_run_row:
  assumes "vesting_run E T ls V V'" and "distinct (map vr_RelayVestingID V)" and "r \<in> set V"
  shows "\<exists>r' \<in> set V'. same_terms r r' \<and>
    vr_ReleasedAmount r' = vr_ReleasedAmount r + sum_list (map (released_by E (vr_RelayVestingID r)) ls) \<and>
    (vr_ReleasedAmount r' = vr_ReleasedAmount r \<or>
     vr_ReleasedAmount r' \<le> scheduled (T + maxTaskFeeLogFutureDrift) r)"
  using assms
proof (induction E T ls V V' arbitrary: r rule: vesting_run.induct)
  case (1 E T V V')
  then show ?case by force
next
  case (2 E T l ls V V')
  then obtain U where U: "vesting_event E T l V U" "vesting_run E T ls U V'" by auto
  from vesting_event_row [OF U(1) "2.prems"(2,3)] obtain s where s: "s \<in> set U" "same_terms r s"
    "vr_ReleasedAmount s = vr_ReleasedAmount r + released_by E (vr_RelayVestingID r) l"
    "vr_ReleasedAmount s = vr_ReleasedAmount r \<or>
     vr_ReleasedAmount s \<le> scheduled (T + maxTaskFeeLogFutureDrift) r" by blast
  note D = same_termsD [OF s(2)]
  from "2.IH" [OF U(2) vesting_event_distinct [OF U(1) "2.prems"(2)] s(1)]
  obtain t where t: "t \<in> set V'" "same_terms s t"
    "vr_ReleasedAmount t = vr_ReleasedAmount s + sum_list (map (released_by E (vr_RelayVestingID r)) ls)"
    "vr_ReleasedAmount t = vr_ReleasedAmount s \<or>
     vr_ReleasedAmount t \<le> scheduled (T + maxTaskFeeLogFutureDrift) r"
    using D by auto
  with s show ?case by (intro bexI [of _ t]) (auto intro: same_terms_trans)
qed

lemma vesting_for_each:
  "for_each logs (apply_vesting_log E) w = (Inr (), w') \<Longrightarrow> vestings_ok (w_db w) \<Longrightarrow> clock_before E T \<Longrightarrow>
   vesting_run E T logs (db_vesting_records (w_db w)) (db_vesting_records (w_db w')) \<and> vestings_ok (w_db w')"
proof (induction logs arbitrary: w)
  case Nil
  then show ?case by (simp add: return_ok_def)
next
  case (Cons l ls)
  then obtain u where u: "apply_vesting_log E l w = (Inr (), u)" "for_each ls (apply_vesting_log E) u = (Inr (), w')"
    by (auto simp: and_then_ok)
  from vesting_log_refines [OF u(1) Cons.prems(2,3)] Cons.IH [OF u(2) _ Cons.prems(3)]
  show ?case by auto
qed

lemma vesting_run_none: "filter is_vesting_log logs = [] \<Longrightarrow> vesting_run E T logs V V"
  by (induction logs) (auto simp: is_vesting_log_def intro!: exI [of _ V] vesting_event.skip split: if_splits)

lemma vesting_batch_refines:
  assumes "applyVestingLogs E logs w = (Inr (), w')" and "vestings_ok (w_db w)" and "clock_before E T"
  shows "vesting_run E T logs (db_vesting_records (w_db w)) (db_vesting_records (w_db w')) \<and>
    vestings_ok (w_db w')"
  using assms vesting_for_each [of logs E w w' T]
  by (auto simp: applyVestingLogs_def return_ok_def return_err_def vesting_run_none split: if_splits)

end
