(* ===== verification/Vesting_Properties.thy ===== *)
theory Vesting_Properties
  imports Sample_World Vesting
begin

text \<open>
  What the vesting part promises: the release schedule, and that a batch of events does nothing to the
  vesting table but create signed vestings and release what their schedules allow, to the unit.
\<close>

section \<open>The schedule\<close>

text \<open>
  C20: up to 106751 elapsed days, which is what a Go duration can hold, the released part is the elapsed
  share of the amount, rounded down, and the whole amount from the last day on.
\<close>
theorem schedule_exact:
  assumes "0 < amount" and "0 < n" and "start \<le> now" and "now div day - start div day \<le> 106751"
  shows "ComputeVestingShouldReleased amount start n now =
    min amount (amount * (now div day - start div day) div int n)"
proof -
  let ?e = "now div day - start div day"
  have e: "elapsed_days start now = ?e" using assms(3,4) by (rule elapsed_days_eq)
  have "amount * int n div int n \<le> amount * ?e div int n" if "int n \<le> ?e"
    using that assms(1,2) by (intro zdiv_mono1 mult_left_mono) simp_all
  moreover have "amount * ?e div int n \<le> amount * int n div int n" if "?e \<le> int n"
    using that assms(1,2) by (intro zdiv_mono1 mult_left_mono) simp_all
  ultimately show ?thesis
    using assms by (auto simp: ComputeVestingShouldReleased_def Let_def e min_def not_le)
qed

theorem schedule_exact_witness:
  "ComputeVestingShouldReleased 100 0 30 (7 * day + 5) = min 100 (100 * ((7 * day + 5) div day - 0 div day) div int 30)"
  by (rule schedule_exact) (simp_all add: day_def)

text \<open>
  C21: what the schedule has released never exceeds the amount, is never negative and never decreases
  with time.
\<close>
theorem schedule_monotone:
  assumes "now \<le> later"
  shows "0 \<le> ComputeVestingShouldReleased amount start n now \<and>
    ComputeVestingShouldReleased amount start n now \<le> ComputeVestingShouldReleased amount start n later \<and>
    ComputeVestingShouldReleased amount start n later \<le> max 0 amount"
  using schedule_mono [OF assms] schedule_bounds by simp

theorem schedule_monotone_witness:
  "0 \<le> ComputeVestingShouldReleased 100 0 30 day \<and>
   ComputeVestingShouldReleased 100 0 30 day \<le> ComputeVestingShouldReleased 100 0 30 (2 * day) \<and>
   ComputeVestingShouldReleased 100 0 30 (2 * day) \<le> max 0 100"
  by (rule schedule_monotone) (simp add: day_def)

section \<open>A batch of events\<close>

text \<open>A vesting of 100 over ten days that began five days before the epoch, and one release.\<close>

definition sample_vesting :: vesting_record where
  "sample_vesting =
     \<lparr>vr_ID = 1, vr_DeletedAt = None, vr_RelayVestingID = 3, vr_Address = ''0xA'', vr_TotalAmount = 100,
      vr_ReleasedAmount = 10, vr_StartTime = - 5 * day, vr_DurationDays = 10, vr_Type = ''node'',
      vr_AdminSignature = ''sig'', vr_Status = VestingStatusActive\<rparr>"

definition vesting_db :: db where
  "vesting_db = empty_db\<lparr>db_vesting_records := [sample_vesting], db_next_vesting_record_id := 2\<rparr>"

definition release_log :: task_fee_log where
  "release_log = \<lparr>tfl_ID = 8, tfl_CreatedAt = 60, tfl_Address = ''0xA'', tfl_Amount = ''20'',
     tfl_Type = TaskFeeLogTypeVestingRelease, tfl_Payload = ''release''\<rparr>"

text \<open>A clock that stands still.\<close>

definition still_env :: env where
  "still_env = sample_env\<lparr>env_now := (\<lambda>t. 0)\<rparr>"

lemma still_env_simps [simp]:
  "env_others still_env t = []" "env_db_fault still_env t = None"
  "env_commit_fault still_env t = None" "env_now still_env t = 0"
  "env_serializable still_env = False" "env_cfg still_env = sample_cfg"
  "env_lib still_env = sample_lib" "env_ParseJSON still_env = sample_json"
  by (simp_all add: still_env_def) (simp_all add: sample_env_def)

lemma still_clock: "clock_before still_env 0"
  by (simp add: clock_before_def)

lemma vesting_db_ok: "vestings_ok vesting_db"
  by (simp add: vestings_ok_def vesting_ok_def vesting_db_def sample_vesting_def)

lemma release_log_payload: "parseVestingReleasePayload still_env release_log = Inr 3"
  by code_simp

lemma release_log_schedule:
  "ComputeVestingShouldReleased 100 (- (5 * day)) 10 (Unix 60) = 50"
  by (subst Unix_exact) (simp_all add: ComputeVestingShouldReleased_def elapsed_days_def saturated_Sub_def day_def)

lemma release_log_vesting:
  "release_vesting release_log 20 (Unix 60) sample_vesting = Inr (30, VestingStatusActive)"
  by (simp add: release_vesting_def sample_vesting_def release_log_def release_log_schedule)

definition released_db :: db where
  "released_db = vesting_db\<lparr>db_vesting_records := [sample_vesting\<lparr>vr_ReleasedAmount := 30\<rparr>]\<rparr>"

definition released_world :: world where
  "released_world = (world_of released_db)\<lparr>w_tick := 3\<rparr>"

lemma release_run:
  "applyVestingLogs still_env [release_log] (world_of vesting_db) = (Inr (), released_world)"
proof -
  have "sint (tfl_CreatedAt release_log) = 60" by (simp add: release_log_def)
  moreover have "parse_big (tfl_Amount release_log) = Some 20" by code_simp
  moreover have "Unix 60 = 60 * 1000000000" by (rule Unix_exact) simp_all
  moreover have "is_vesting_log release_log" "tfl_Type release_log \<noteq> TaskFeeLogTypeVestingCreated"
    by (simp_all add: is_vesting_log_def release_log_def log_type_defs)
  moreover have "TrimSpace (rel_VestingSignerAddress (cfg_Relay sample_cfg)) \<noteq> []" by code_simp
  moreover have "find_vesting 3 vesting_db = Inr sample_vesting"
    by (simp add: find_vesting_def vesting_db_def sample_vesting_def)
  moreover have "update_vesting (vr_ID sample_vesting) 30 VestingStatusActive vesting_db = (Inr (), released_db)"
    by (simp add: update_vesting_def vesting_db_def released_db_def sample_vesting_def update_where_def)
  ultimately show ?thesis
    using release_log_vesting
    by (simp add: applyVestingLogs_def apply_vesting_log_def release_log_payload applyVestingReleaseLog_def
        maxTaskFeeLogFutureDrift_def released_world_def world_eval)
qed

text \<open>
  C16: a batch of events that the sync applies does to the vesting table what the events allow and
  nothing else: it creates vestings under a valid signature of the configured signer, once per
  identifier, and releases to active vestings within their schedules; and it keeps the table well
  formed. Other goroutines may run in between.
\<close>
theorem vesting_batch_refinement:
  assumes "applyVestingLogs E logs w = (Inr (), w')" and "vestings_ok (w_db w)" and "clock_before E T"
  shows "vesting_run E T logs (db_vesting_records (w_db w)) (db_vesting_records (w_db w')) \<and>
    vestings_ok (w_db w')"
  using assms by (rule vesting_batch_refines)

theorem vesting_batch_refinement_witness:
  "vesting_run still_env 0 [release_log] [sample_vesting] [sample_vesting\<lparr>vr_ReleasedAmount := 30\<rparr>] \<and>
   vestings_ok released_db"
  using vesting_batch_refinement [OF release_run _ still_clock] vesting_db_ok
  by (simp add: released_world_def) (simp add: vesting_db_def released_db_def)

text \<open>
  C17: after a batch, every vesting still has its terms, it has released exactly what it had released
  before plus the amounts of its release events, and a vesting that has moved has released no more
  than its schedule allows one hour after the clock.
\<close>
theorem releases_accounted:
  assumes "applyVestingLogs E logs w = (Inr (), w')" and "vestings_ok (w_db w)" and "clock_before E T"
    and "r \<in> set (db_vesting_records (w_db w))"
  shows "\<exists>r' \<in> set (db_vesting_records (w_db w')). same_terms r r' \<and>
    vr_ReleasedAmount r' = vr_ReleasedAmount r + sum_list (map (released_by E (vr_RelayVestingID r)) logs) \<and>
    (vr_ReleasedAmount r' = vr_ReleasedAmount r \<or>
     vr_ReleasedAmount r' \<le> scheduled (T + maxTaskFeeLogFutureDrift) r)"
  using vesting_batch_refines [OF assms(1-3)] assms(2,4)
  by (intro vesting_run_row) (simp_all add: vestings_ok_def)

theorem releases_accounted_witness:
  "\<exists>r' \<in> {sample_vesting\<lparr>vr_ReleasedAmount := 30\<rparr>}. same_terms sample_vesting r' \<and>
    vr_ReleasedAmount r' = 10 + sum_list (map (released_by still_env 3) [release_log]) \<and>
    (vr_ReleasedAmount r' = 10 \<or> vr_ReleasedAmount r' \<le> scheduled (0 + maxTaskFeeLogFutureDrift) sample_vesting)"
proof -
  have "vr_RelayVestingID sample_vesting = 3" "vr_ReleasedAmount sample_vesting = 10"
    by (simp_all add: sample_vesting_def)
  moreover have "vestings_ok (w_db (world_of vesting_db))" "sample_vesting \<in> set (db_vesting_records (w_db (world_of vesting_db)))"
    using vesting_db_ok by simp (simp add: vesting_db_def)
  note releases_accounted [OF release_run this(1) still_clock this(2)]
  ultimately show ?thesis
    by (simp only: released_world_def released_db_def) simp
qed

end
