(* ===== verification/Relay_Api.thy ===== *)
theory Relay_Api
  imports Tx_Store
begin

text \<open>
  Package \<open>relay_api\<close>: signing a request, the four calls of the Relay and the reading of its answers.
  The HTTP client and the parser of JSON texts belong to the environment.
\<close>

section \<open>relay\_api/sign\_data.go\<close>

definition jsonRemarshal :: "env \<Rightarrow> string \<Rightarrow> go_error + string" where
  "jsonRemarshal E text =
     bind_sum (env_ParseJSON E text) (\<lambda>ifce. Inr (json_text (as_interface (env_FormatFloat E) ifce)))"

definition SignData :: "env \<Rightarrow> json \<Rightarrow> string \<Rightarrow> (world, int \<times> string) action" where
  "SignData E data privateKeyStr =
     and_then (lift_sum (jsonRemarshal E (json_text data))) (\<lambda>dataBytes.
     and_then (lift_sum (eth_HexToECDSA (env_lib E) privateKeyStr)) (\<lambda>privateKey.
     and_then (time_now E) (\<lambda>now.
       let timestamp = now div 1000000000;
           signBytes = dataBytes @ show_int timestamp
       in and_then (lift_sum (eth_Sign (env_lib E) (eth_Keccak256 (env_lib E) signBytes) privateKey))
            (\<lambda>signatureBytes. return_ok (timestamp, eth_Encode (env_lib E) signatureBytes)))))"

section \<open>relay\_api/relay.go\<close>

definition RelayError :: "http_response \<Rightarrow> string \<Rightarrow> go_error" where
  "RelayError resp message =
     ErrorsNew (''RelayError: '' @ rs_Method resp @ '' '' @ rs_RequestURI resp @ '' error code '' @
       show_int (rs_StatusCode resp) @ '', '' @ message)"

text \<open>Of equal keys of a map the last one is there.\<close>

definition key_of :: "string \<Rightarrow> (string \<times> json) list \<Rightarrow> json option" where
  "key_of k pairs = map_of (rev pairs) k"

definition processRelayResponse :: "env \<Rightarrow> http_response \<Rightarrow> go_error + unit" where
  "processRelayResponse E resp =
     (if 200 \<le> rs_StatusCode resp \<and> rs_StatusCode resp \<le> 299 then Inr ()
      else if rs_StatusCode resp = 400 then
        bind_sum (rs_Body resp) (\<lambda>respBytes.
        bind_sum (Unmarshal (env_ParseJSON E) respBytes) (\<lambda>content.
          case key_of ''data'' content of
            Some data \<Rightarrow>
              Inl (RelayError resp (json_text (as_interface (env_FormatFloat E) data)))
          | None \<Rightarrow>
              (case key_of ''message'' content of
                 Some (JStr msg) \<Rightarrow> Inl (RelayError resp msg)
               | _ \<Rightarrow> Inl (RelayError resp respBytes))))
      else Inl (RelayError resp (rs_Status resp)))"

section \<open>The calls\<close>

definition api_url :: "env \<Rightarrow> string \<Rightarrow> string" where
  "api_url E path = api_Host (rel_Api (cfg_Relay (env_cfg E))) @ path"

definition api_key :: "env \<Rightarrow> string" where
  "api_key E = api_PrivateKey (rel_Api (cfg_Relay (env_cfg E)))"

definition NewRequest :: "env \<Rightarrow> string \<Rightarrow> string \<Rightarrow> (world, unit) action" where
  "NewRequest E method url =
     lift_sum (case env_NewRequest E method url of None \<Rightarrow> Inr () | Some e \<Rightarrow> Inl e)"

definition json_nat :: "nat \<Rightarrow> json" where
  "json_nat n = JNum (show_nat n)"

text \<open>The two list calls differ in the path and in the rows they decode.\<close>

definition signed_get ::
  "env \<Rightarrow> string \<Rightarrow> nat \<Rightarrow> int \<Rightarrow> (world, http_response) action" where
  "signed_get E path startID limit =
     and_then (NewRequest E ''GET'' (api_url E path)) (\<lambda>_.
     and_then (SignData E (JObj [(''start_id'', json_nat startID), (''limit'', JNum (show_int limit))])
                (api_key E)) (\<lambda>(timestamp, signature).
       ask (\<lambda>t. env_HTTP E t
         \<lparr>rq_Method = ''GET'', rq_URL = api_url E path,
          rq_Query = [(''start_id'', show_nat startID), (''limit'', show_int limit),
                      (''timestamp'', show_int timestamp), (''signature'', signature)],
          rq_Body = []\<rparr>)))"

text \<open>\<open>data\<close> is a list of structs; \<open>null\<close> is the empty list.\<close>

fun decode_rows :: "((string \<times> json) list \<Rightarrow> go_error + 'r) \<Rightarrow> json list \<Rightarrow> go_error + 'r list" where
  "decode_rows f [] = Inr []"
| "decode_rows f (j # js) =
     bind_sum (json_fields j) (\<lambda>pairs. bind_sum (f pairs) (\<lambda>r.
       bind_sum (decode_rows f js) (\<lambda>rs. Inr (r # rs))))"

fun decode_data ::
  "((string \<times> json) list \<Rightarrow> go_error + 'r) \<Rightarrow> 'r list \<Rightarrow> (string \<times> json) list \<Rightarrow> go_error + 'r list" where
  "decode_data f acc [] = Inr acc"
| "decode_data f acc ((k, v) # rest) =
     (if EqualFold k ''data'' then
        (case v of
           JArr js \<Rightarrow> bind_sum (decode_rows f js) (\<lambda>rs. decode_data f rs rest)
         | JNull \<Rightarrow> decode_data f [] rest
         | _ \<Rightarrow> Inl (External ''json: cannot unmarshal into Go struct field Data''))
      else decode_data f acc rest)"

definition read_rows ::
  "env \<Rightarrow> ((string \<times> json) list \<Rightarrow> go_error + 'r) \<Rightarrow> http_response \<Rightarrow> (world, 'r list) action" where
  "read_rows E f resp =
     and_then (lift_sum (processRelayResponse E resp)) (\<lambda>_.
     and_then (lift_sum (rs_Body resp)) (\<lambda>body.
       lift_sum (bind_sum (Unmarshal (env_DecodeJSON E) body) (decode_data f []))))"

definition decode_task_fee_log :: "(string \<times> json) list \<Rightarrow> go_error + task_fee_log" where
  "decode_task_fee_log pairs =
     bind_sum (json_uint ''id'' pairs) (\<lambda>i.
     bind_sum (json_uint ''created_at'' pairs) (\<lambda>createdAt.
     bind_sum (json_string ''address'' [] pairs) (\<lambda>addr.
     bind_sum (json_string ''amount'' [] pairs) (\<lambda>amount.
     bind_sum (json_int (-128) 127 ''type'' 0 pairs) (\<lambda>logType.
     bind_sum (json_string ''payload'' [] pairs) (\<lambda>payload.
       Inr \<lparr>tfl_ID = i, tfl_CreatedAt = of_nat createdAt, tfl_Address = addr, tfl_Amount = amount,
            tfl_Type = word_of_int logType, tfl_Payload = payload\<rparr>))))))"

definition GetTaskFeeLogs :: "env \<Rightarrow> nat \<Rightarrow> int \<Rightarrow> (world, task_fee_log list) action" where
  "GetTaskFeeLogs E pivotTaskFeeLogID limit =
     and_then (signed_get E ''/v1/relay_account/event_logs'' pivotTaskFeeLogID limit)
       (read_rows E decode_task_fee_log)"

definition decode_withdrawal_request :: "(string \<times> json) list \<Rightarrow> go_error + withdrawal_request" where
  "decode_withdrawal_request pairs =
     bind_sum (json_uint ''id'' pairs) (\<lambda>i.
     bind_sum (json_uint ''created_at'' pairs) (\<lambda>createdAt.
     bind_sum (json_string ''address'' [] pairs) (\<lambda>addr.
     bind_sum (json_string ''benefit_address'' [] pairs) (\<lambda>benefit.
     bind_sum (json_string ''amount'' [] pairs) (\<lambda>amount.
     bind_sum (json_string ''withdrawal_fee'' [] pairs) (\<lambda>fee.
     bind_sum (json_string ''network'' [] pairs) (\<lambda>network.
     bind_sum (json_int (-128) 127 ''status'' 0 pairs) (\<lambda>status.
     bind_sum (json_uint ''relay_account_event_id'' pairs) (\<lambda>eventID.
     bind_sum (json_int64 ''timestamp'' pairs) (\<lambda>timestamp.
     bind_sum (json_string ''signature'' [] pairs) (\<lambda>signature.
       Inr \<lparr>wq_ID = i, wq_CreatedAt = of_nat createdAt, wq_Address = addr, wq_BenefitAddress = benefit,
            wq_Amount = amount, wq_WithdrawalFee = fee, wq_Network = network,
            wq_Status = word_of_int status, wq_RelayAccountEventID = eventID,
            wq_Timestamp = timestamp, wq_Signature = signature\<rparr>)))))))))))"

definition GetWithdrawalRequests :: "env \<Rightarrow> nat \<Rightarrow> int \<Rightarrow> (world, withdrawal_request list) action" where
  "GetWithdrawalRequests E pivotWithdrawalRequestID limit =
     and_then (signed_get E ''/v1/withdraw/list'' pivotWithdrawalRequestID limit)
       (read_rows E decode_withdrawal_request)"

text \<open>The embedded struct comes first in the body.\<close>

definition signed_body :: "(string \<times> json) list \<Rightarrow> int \<Rightarrow> string \<Rightarrow> string" where
  "signed_body input timestamp signature =
     json_text (JObj (input @ [(''timestamp'', JNum (show_int timestamp)), (''signature'', JStr signature)]))"

definition signed_post ::
  "env \<Rightarrow> string \<Rightarrow> ext_call \<Rightarrow> (string \<times> json) list \<Rightarrow> (world, unit) action" where
  "signed_post E path call input =
     and_then (SignData E (JObj input) (api_key E)) (\<lambda>(timestamp, signature).
     and_then (NewRequest E ''POST'' (api_url E path)) (\<lambda>_.
     and_then (tell call) (\<lambda>_.
     and_then (ask (\<lambda>t. env_HTTP E t
         \<lparr>rq_Method = ''POST'', rq_URL = api_url E path, rq_Query = [],
          rq_Body = signed_body input timestamp signature\<rparr>))
       (\<lambda>resp. lift_sum (processRelayResponse E resp)))))"

definition FulfillWithdrawalRequest :: "env \<Rightarrow> nat \<Rightarrow> string \<Rightarrow> (world, unit) action" where
  "FulfillWithdrawalRequest E withdrawalRequestID txHash =
     signed_post E (''/v1/withdraw/'' @ show_nat withdrawalRequestID @ ''/fulfill'')
       (Fulfill withdrawalRequestID txHash)
       [(''id'', json_nat withdrawalRequestID), (''tx_hash'', JStr txHash)]"

definition RejectWithdrawalRequest :: "env \<Rightarrow> nat \<Rightarrow> (world, unit) action" where
  "RejectWithdrawalRequest E withdrawalRequestID =
     signed_post E (''/v1/withdraw/'' @ show_nat withdrawalRequestID @ ''/reject'')
       (Reject withdrawalRequestID) [(''id'', json_nat withdrawalRequestID)]"

end
