(* ===== verification/Fee_Logs.thy ===== *)
theory Fee_Logs
  imports Vesting Relay_Api
begin

text \<open>
  \<open>tasks/sync_task_fee_logs.go\<close>: merging a batch of Relay account events into balance changes, checking
  it, validating deposits on chain, and applying it with the checkpoint in one database transaction.
  A Go map is an association list; its order is the order in which Go happens to iterate.
\<close>

section \<open>Types of events\<close>

definition isSupportedTaskFeeLogType :: "task_fee_log_type \<Rightarrow> bool" where
  "isSupportedTaskFeeLogType logType \<longleftrightarrow>
     logType \<in> {TaskFeeLogTypeTaskIncome, TaskFeeLogTypeDaoTaskShare,
       TaskFeeLogTypeWithdrawalFeeIncome, TaskFeeLogTypeDeposit, TaskFeeLogTypeTaskPayment,
       TaskFeeLogTypeTaskRefund, TaskFeeLogTypeWithdraw, TaskFeeLogTypeWithdrawRefund,
       TaskFeeLogTypeUserDelegation, TaskFeeLogTypeVestingCreated, TaskFeeLogTypeVestingRelease}"

definition isBalanceIgnoredTaskFeeLogType :: "task_fee_log_type \<Rightarrow> bool" where
  "isBalanceIgnoredTaskFeeLogType logType \<longleftrightarrow>
     logType = TaskFeeLogTypeWithdraw \<or> logType = TaskFeeLogTypeWithdrawRefund \<or>
     logType = TaskFeeLogTypeVestingCreated"

section \<open>Merging\<close>

definition add_to :: "string \<Rightarrow> int \<Rightarrow> (string \<times> int) list \<Rightarrow> (string \<times> int) list" where
  "add_to a x merged = AList.update a (map_default 0 merged a + x) merged"

text \<open>The sign of an event: a payment is taken from the account.\<close>

definition signed_amount :: "task_fee_log_type \<Rightarrow> int \<Rightarrow> go_error + int" where
  "signed_amount logType amount =
     (if logType = TaskFeeLogTypeTaskPayment then Inr (- amount)
      else if logType \<in> {TaskFeeLogTypeTaskIncome, TaskFeeLogTypeDaoTaskShare,
        TaskFeeLogTypeWithdrawalFeeIncome, TaskFeeLogTypeDeposit, TaskFeeLogTypeTaskRefund,
        TaskFeeLogTypeUserDelegation, TaskFeeLogTypeVestingRelease} then Inr amount
      else Inl (TaskFeeError ErrTaskFeeUnknownEventType))"

fun merge_logs :: "(string \<times> int) list \<Rightarrow> task_fee_log list \<Rightarrow> go_error + (string \<times> int) list" where
  "merge_logs merged [] = Inr merged"
| "merge_logs merged (eventLog # logs) =
     (if \<not> isSupportedTaskFeeLogType (tfl_Type eventLog) then
        Inl (TaskFeeError ErrTaskFeeUnknownEventType)
      else if isBalanceIgnoredTaskFeeLogType (tfl_Type eventLog) then merge_logs merged logs
      else case parse_big (tfl_Amount eventLog) of
        None \<Rightarrow> Inl (TaskFeeError ErrTaskFeeAmountInvalid)
      | Some amount \<Rightarrow>
          bind_sum (signed_amount (tfl_Type eventLog) amount) (\<lambda>x.
            merge_logs (add_to (tfl_Address eventLog) x merged) logs))"

definition mergeTaskFeeLogs :: "task_fee_log list \<Rightarrow> go_error + (string \<times> int) list" where
  "mergeTaskFeeLogs logs = merge_logs [] logs"

section \<open>Deposits\<close>

record deposit_payload =
  dp_TxHash :: string
  dp_Network :: string

definition decode_deposit_payload :: "(string \<times> json) list \<Rightarrow> go_error + deposit_payload" where
  "decode_deposit_payload pairs =
     bind_sum (json_string ''tx_hash'' [] pairs) (\<lambda>txHash.
     bind_sum (json_string ''network'' [] pairs) (\<lambda>network.
       Inr \<lparr>dp_TxHash = txHash, dp_Network = network\<rparr>))"

text \<open>\<open>common.HashLength\<close> is 32.\<close>

definition parseDepositPayload :: "env \<Rightarrow> task_fee_log \<Rightarrow> go_error + deposit_payload" where
  "parseDepositPayload E eventLog =
     (if TrimSpace (tfl_Payload eventLog) = [] then Inl (TaskFeeError ErrTaskFeeDepositPayloadInvalid)
      else case bind_sum (Unmarshal (env_ParseJSON E) (tfl_Payload eventLog)) decode_deposit_payload of
        Inl e \<Rightarrow> Inl (TaskFeeError ErrTaskFeeDepositPayloadInvalid)
      | Inr payload \<Rightarrow>
          (case eth_Decode (env_lib E) (dp_TxHash payload) of
             Inl e \<Rightarrow> Inl (TaskFeeError ErrTaskFeeDepositPayloadInvalid)
           | Inr txHashBytes \<Rightarrow>
               if dp_TxHash payload = [] \<or> dp_Network payload = [] \<or> length txHashBytes \<noteq> 32
               then Inl (TaskFeeError ErrTaskFeeDepositPayloadInvalid)
               else Inr payload))"

definition normalizedDepositIdentity :: "ethlib \<Rightarrow> deposit_payload \<Rightarrow> string \<times> string" where
  "normalizedDepositIdentity L payload =
     (ToLower (dp_Network payload), ToLower (eth_HashHex L (eth_HexToHash L (dp_TxHash payload))))"

definition addressTopic :: "ethlib \<Rightarrow> string \<Rightarrow> hash" where
  "addressTopic L addr = address_to_hash (eth_HexToAddress L addr)"

text \<open>
  The age test that both validations share: 64-bit unsigned arithmetic on the header time and the
  configured number of seconds.
\<close>

definition too_old :: "64 word \<Rightarrow> 64 word \<Rightarrow> int \<Rightarrow> bool" where
  "too_old headerTime maxAgeSeconds now \<longleftrightarrow>
     headerTime + maxAgeSeconds < word_of_int (unix_seconds now)"

definition check_deposit_age :: "env \<Rightarrow> client \<Rightarrow> receipt \<Rightarrow> (world, unit) action" where
  "check_deposit_age E client receipt =
     (case rc_BlockNumber receipt of
        None \<Rightarrow> return_err (TaskFeeError ErrTaskFeeDepositTxMismatch)
      | Some n \<Rightarrow>
          and_then (ask (\<lambda>t. env_HeaderByNumber E t (cl_Network client) (Some n))) (\<lambda>header.
          and_then (time_now E) (\<lambda>now.
            if too_old (hd_Time header) (stf_DepositMaxAgeSeconds (cfg_SyncTaskFeeLogs (env_cfg E))) now
            then return_err (TaskFeeError ErrTaskFeeDepositTxTooOld)
            else return_ok ())))"

definition native_transfer_matches ::
  "env \<Rightarrow> transaction_transfer \<Rightarrow> task_fee_log \<Rightarrow> int \<Rightarrow> bool" where
  "native_transfer_matches E transfer eventLog amount \<longleftrightarrow>
     EqualFold (eth_AddressHex (env_lib E) (tt_To transfer))
       (rel_DepositAddress (cfg_Relay (env_cfg E))) \<and>
     EqualFold (eth_AddressHex (env_lib E) (tt_From transfer)) (tfl_Address eventLog) \<and>
     tt_Value transfer = amount \<and> length (tt_Input transfer) = 0"

definition validateNativeDepositLog ::
  "env \<Rightarrow> client \<Rightarrow> receipt \<Rightarrow> hash \<Rightarrow> task_fee_log \<Rightarrow> int \<Rightarrow> (world, unit) action" where
  "validateNativeDepositLog E client receipt txHash eventLog amount =
     and_then (try_result (GetTransactionTransfer E client txHash)) (\<lambda>r.
       case r of
         Inl e \<Rightarrow>
           if e = EthereumNotFound then
             return_err (ErrorsNew (''deposit transaction not found: '' @ eth_HashHex (env_lib E) txHash))
           else return_err e
       | Inr transfer \<Rightarrow>
           if \<not> native_transfer_matches E transfer eventLog amount then
             return_err (TaskFeeError ErrTaskFeeDepositTxMismatch)
           else check_deposit_age E client receipt)"

text \<open>The conditions of the loop over the receipt logs.\<close>

definition is_deposit_transfer ::
  "env \<Rightarrow> string \<Rightarrow> task_fee_log \<Rightarrow> int \<Rightarrow> receipt_log \<Rightarrow> bool" where
  "is_deposit_transfer E tokenAddress eventLog amount receiptLog \<longleftrightarrow>
     (let L = env_lib E in
      length (rl_Topics receiptLog) = 3 \<and>
      rl_Topics receiptLog ! 0 = eth_TransferTopic L \<and>
      EqualFold (eth_AddressHex L (rl_Address receiptLog)) tokenAddress \<and>
      rl_Topics receiptLog ! 2 = addressTopic L (rel_DepositAddress (cfg_Relay (env_cfg E))) \<and>
      length (rl_Data receiptLog) = 32 \<and>
      (let fromAddress = eth_AddressHex L (hash_to_address (rl_Topics receiptLog ! 1)) in
       fromAddress \<noteq> eth_AddressHex L 0 \<and> EqualFold fromAddress (tfl_Address eventLog)) \<and>
      SetBytes (rl_Data receiptLog) = amount)"

fun validate_erc20_logs ::
  "env \<Rightarrow> client \<Rightarrow> receipt \<Rightarrow> task_fee_log \<Rightarrow> int \<Rightarrow> string \<Rightarrow> receipt_log list \<Rightarrow> (world, unit) action" where
  "validate_erc20_logs E client receipt eventLog amount tokenAddress [] =
     return_err (TaskFeeError ErrTaskFeeDepositTxMismatch)"
| "validate_erc20_logs E client receipt eventLog amount tokenAddress (receiptLog # rest) =
     (if is_deposit_transfer E tokenAddress eventLog amount receiptLog
      then check_deposit_age E client receipt
      else validate_erc20_logs E client receipt eventLog amount tokenAddress rest)"

definition validateERC20DepositLog ::
  "env \<Rightarrow> client \<Rightarrow> receipt \<Rightarrow> task_fee_log \<Rightarrow> int \<Rightarrow> string \<Rightarrow> (world, unit) action" where
  "validateERC20DepositLog E client receipt eventLog amount tokenAddress =
     validate_erc20_logs E client receipt eventLog amount tokenAddress (rc_Logs receipt)"

definition validate_by_token ::
  "env \<Rightarrow> deposit_payload \<Rightarrow> client \<Rightarrow> receipt \<Rightarrow> task_fee_log \<Rightarrow> int \<Rightarrow> (world, unit) action" where
  "validate_by_token E payload client receipt eventLog amount =
     (case blockchain_of (env_cfg E) (dp_Network payload) of
        None \<Rightarrow> return_err ErrBlockchainNotFound
      | Some blockchainConfig \<Rightarrow>
          if bc_TokenType blockchainConfig = TokenTypeNative then
            validateNativeDepositLog E client receipt
              (eth_HexToHash (env_lib E) (dp_TxHash payload)) eventLog amount
          else if bc_TokenType blockchainConfig = TokenTypeERC20 then
            validateERC20DepositLog E client receipt eventLog amount (bc_TokenAddress blockchainConfig)
          else return_err ErrBlockchainNotFound)"

definition validateDepositLog :: "env \<Rightarrow> task_fee_log \<Rightarrow> (world, unit) action" where
  "validateDepositLog E eventLog =
     (case parse_big (tfl_Amount eventLog) of
        None \<Rightarrow> return_err (TaskFeeError ErrTaskFeeAmountInvalid)
      | Some amount \<Rightarrow>
          and_then (lift_sum (parseDepositPayload E eventLog)) (\<lambda>payload.
          and_then (GetBlockchainClient (dp_Network payload)) (\<lambda>client.
          and_then (try_result (ask (\<lambda>t. env_TransactionReceipt E t (cl_Network client)
                     (eth_HexToHash (env_lib E) (dp_TxHash payload))))) (\<lambda>r.
            case r of
              Inl e \<Rightarrow>
                if e = EthereumNotFound then
                  return_err (ErrorsNew (''deposit transaction not found: '' @ dp_TxHash payload))
                else return_err e
            | Inr receipt \<Rightarrow>
                if rc_Status receipt \<noteq> ReceiptStatusSuccessful then
                  return_err (TaskFeeError ErrTaskFeeDepositTxMismatch)
                else validate_by_token E payload client receipt eventLog amount))))"

section \<open>Checking a batch\<close>

definition maxTaskFeeAmount :: "env \<Rightarrow> int" where
  "maxTaskFeeAmount E = EtherToWei (sint (stf_MaxTaskFeeAmount (cfg_SyncTaskFeeLogs (env_cfg E))))"

text \<open>The body of the loop up to the counting.\<close>

definition check_log :: "env \<Rightarrow> task_fee_log \<Rightarrow> (world, unit) action" where
  "check_log E eventLog =
     (if \<not> isSupportedTaskFeeLogType (tfl_Type eventLog) then
        return_err (TaskFeeError ErrTaskFeeUnknownEventType)
      else case parse_big (tfl_Amount eventLog) of
        None \<Rightarrow> return_err (TaskFeeError ErrTaskFeeAmountInvalid)
      | Some amount \<Rightarrow>
          if tfl_Type eventLog = TaskFeeLogTypeDeposit then validateDepositLog E eventLog
          else if tfl_Type eventLog = TaskFeeLogTypeWithdrawalFeeIncome then
            (if \<not> EqualFold (tfl_Address eventLog) (rel_WithdrawalFeeAddress (cfg_Relay (env_cfg E)))
             then return_err (TaskFeeError ErrTaskFeeWithdrawalFeeAddressMismatch) else return_ok ())
          else if tfl_Type eventLog = TaskFeeLogTypeVestingCreated then
            (if amount \<noteq> 0 then return_err (TaskFeeError ErrTaskFeeVestingPayloadInvalid)
             else and_then (lift_sum (parseVestingPayload E eventLog)) (\<lambda>_. return_ok ()))
          else if tfl_Type eventLog = TaskFeeLogTypeVestingRelease then
            and_then (lift_sum (parseVestingReleasePayload E eventLog)) (\<lambda>_. return_ok ())
          else if \<not> isBalanceIgnoredTaskFeeLogType (tfl_Type eventLog) \<and> amount > maxTaskFeeAmount E
          then return_err (TaskFeeError ErrTaskFeeAmountTooLarge)
          else return_ok ())"

definition count_up :: "string \<Rightarrow> (string \<times> nat) list \<Rightarrow> (string \<times> nat) list" where
  "count_up a counts = AList.update a (map_default 0 counts a + 1) counts"

fun check_logs ::
  "env \<Rightarrow> (string \<times> nat) list \<Rightarrow> task_fee_log list \<Rightarrow> (world, (string \<times> nat) list) action" where
  "check_logs E counts [] = return_ok counts"
| "check_logs E counts (eventLog # logs) =
     and_then (check_log E eventLog) (\<lambda>_.
       if isBalanceIgnoredTaskFeeLogType (tfl_Type eventLog) then check_logs E counts logs
       else check_logs E (count_up (tfl_Address eventLog) counts) logs)"

definition accounts_of :: "env \<Rightarrow> string list \<Rightarrow> (world, relay_account list) action" where
  "accounts_of E addresses =
     db_query E (\<lambda>d. Inr (filter (\<lambda>r. ra_Address r \<in> set addresses) (db_relay_accounts d)))"

definition checkTaskFeeLogs :: "env \<Rightarrow> task_fee_log list \<Rightarrow> (world, unit) action" where
  "checkTaskFeeLogs E logs =
     and_then (check_logs E [] logs) (\<lambda>addressLogCount.
       let maxCount = foldr max (map snd addressLogCount) 0; cfg = cfg_SyncTaskFeeLogs (env_cfg E) in
       if word_of_nat maxCount > stf_MaxAddressLogsCountInBatch cfg then
         return_err (TaskFeeError ErrTaskFeeAddressCountTooLarge)
       else if addressLogCount = [] then return_ok ()
       else and_then (accounts_of E (map fst addressLogCount)) (\<lambda>accounts.
         let newAddressCount =
               length (filter (\<lambda>a. a \<notin> ra_Address ` set accounts) (map fst addressLogCount)) in
         if word_of_nat newAddressCount > stf_MaxNewAddressCountInBatch cfg then
           return_err (TaskFeeError ErrTaskFeeNewAddressCountTooLarge)
         else return_ok ()))"

end
