(* ===== verification/Fee_Sync.thy ===== *)
theory Fee_Sync
  imports Fee_Logs
begin

text \<open>
  \<open>tasks/sync_task_fee_logs.go\<close>: crediting the accounts, recording the deposits, one batch as one
  database transaction with its checkpoint, and the loops of the task.
\<close>

section \<open>Batches of statements\<close>

text \<open>\<open>CreateInBatches(rows, 100)\<close> runs one INSERT per 100 rows.\<close>

function batches :: "nat \<Rightarrow> 'a list \<Rightarrow> 'a list list" where
  "batches n xs = (if xs = [] then [] else take (Suc n) xs # batches n (drop (Suc n) xs))"
  by pat_completeness auto
termination by (relation "measure (\<lambda>(n, xs). length xs)") auto

declare batches.simps [simp del]

lemma concat_batches [simp]: "concat (batches n xs) = xs"
proof (induction n xs rule: batches.induct)
  case (1 n xs)
  have "take (Suc n) xs @ drop (Suc n) xs = xs" by (rule append_take_drop_id)
  with 1 show ?case
    by (subst batches.simps) (simp del: append_take_drop_id)
qed

section \<open>Accounts\<close>

text \<open>The unique index on \<open>address\<close> rejects a second account.\<close>

fun insert_accounts :: "(string \<times> int) list \<Rightarrow> db \<Rightarrow> (go_error + unit) \<times> db" where
  "insert_accounts [] d = (Inr (), d)"
| "insert_accounts ((a, b) # rest) d =
     (if \<exists>r \<in> set (db_relay_accounts d). ra_Address r = a then (Inl ErrDuplicatedKey, d)
      else insert_accounts rest
        (d\<lparr>db_relay_accounts := db_relay_accounts d @
             [\<lparr>ra_ID = db_next_relay_account_id d, ra_Address = a, ra_Balance = b\<rparr>],
           db_next_relay_account_id := Suc (db_next_relay_account_id d)\<rparr>))"

text \<open>A statement that fails inserts nothing.\<close>

definition create_accounts :: "(string \<times> int) list \<Rightarrow> db \<Rightarrow> (go_error + unit) \<times> db" where
  "create_accounts new d =
     (case insert_accounts new d of (Inl e, d') \<Rightarrow> (Inl e, d) | (Inr u, d') \<Rightarrow> (Inr u, d'))"

text \<open>
  \<open>UPDATE relay_accounts SET balance = CASE WHEN address = a THEN b ... END WHERE address IN (...)\<close>.
  The code writes addresses and balances into the text of the statement; this is the statement for
  addresses without a quotation mark.
\<close>

definition set_balances :: "(string \<times> int) list \<Rightarrow> db \<Rightarrow> (go_error + unit) \<times> db" where
  "set_balances cases d =
     (Inr (), d\<lparr>db_relay_accounts := update_where (\<lambda>r. ra_Address r \<in> fst ` set cases)
        (\<lambda>r. r\<lparr>ra_Balance := the (map_of cases (ra_Address r))\<rparr>) (db_relay_accounts d)\<rparr>)"

text \<open>The accounts in memory, with their new balances.\<close>

definition new_balances :: "(string \<times> int) list \<Rightarrow> relay_account list \<Rightarrow> (string \<times> int) list" where
  "new_balances merged accounts =
     map (\<lambda>r. (ra_Address r, ra_Balance r + map_default 0 merged (ra_Address r))) accounts"

definition processTaskFeeLogs :: "env \<Rightarrow> task_fee_log list \<Rightarrow> (world, unit) action" where
  "processTaskFeeLogs E logs =
     and_then (lift_sum (mergeTaskFeeLogs logs)) (\<lambda>merged.
       if merged = [] then return_ok ()
       else and_then (accounts_of E (map fst merged)) (\<lambda>accounts.
         let newAccounts = filter (\<lambda>(a, x). a \<notin> ra_Address ` set accounts) merged in
         and_then (for_each (batches 99 newAccounts) (\<lambda>rows. db_action E (create_accounts rows)))
           (\<lambda>_. if accounts = [] then return_ok ()
                else db_action E (set_balances (new_balances merged accounts)))))"

section \<open>Deposit records\<close>

fun buildDepositRecords :: "env \<Rightarrow> task_fee_log list \<Rightarrow> go_error + deposit_record list" where
  "buildDepositRecords E [] = Inr []"
| "buildDepositRecords E (eventLog # logs) =
     (if tfl_Type eventLog \<noteq> TaskFeeLogTypeDeposit then buildDepositRecords E logs
      else case parse_big (tfl_Amount eventLog) of
        None \<Rightarrow> Inl (TaskFeeError ErrTaskFeeAmountInvalid)
      | Some amount \<Rightarrow>
          bind_sum (parseDepositPayload E eventLog) (\<lambda>payload.
            let (network, txHash) = normalizedDepositIdentity (env_lib E) payload in
            bind_sum (buildDepositRecords E logs) (\<lambda>rest. Inr
              (\<lparr>dr_Network = network, dr_TxHash = txHash,
                dr_DepositAddress = ToLower (rel_DepositAddress (cfg_Relay (env_cfg E))),
                dr_FromAddress = ToLower (tfl_Address eventLog), dr_Amount = amount,
                dr_RelayAccountEventID = tfl_ID eventLog\<rparr> # rest))))"

definition deposit_identity :: "deposit_record \<Rightarrow> string \<times> string" where
  "deposit_identity r = (dr_Network r, dr_TxHash r)"

text \<open>\<open>INSERT ... ON CONFLICT (network, tx_hash) DO NOTHING\<close>, and the rows it inserted.\<close>

fun insert_deposits :: "deposit_record list \<Rightarrow> deposit_record list \<Rightarrow> deposit_record list" where
  "insert_deposits [] rows = rows"
| "insert_deposits (r # rs) rows =
     (if deposit_identity r \<in> deposit_identity ` set rows then insert_deposits rs rows
      else insert_deposits rs (rows @ [r]))"

definition create_deposits :: "deposit_record list \<Rightarrow> db \<Rightarrow> (go_error + nat) \<times> db" where
  "create_deposits new d =
     (let rows = insert_deposits new (db_deposit_records d) in
      (Inr (length rows - length (db_deposit_records d)), d\<lparr>db_deposit_records := rows\<rparr>))"

fun create_deposit_batches :: "env \<Rightarrow> nat \<Rightarrow> deposit_record list list \<Rightarrow> (world, nat) action" where
  "create_deposit_batches E n [] = return_ok n"
| "create_deposit_batches E n (rows # rest) =
     and_then (db_action E (create_deposits rows)) (\<lambda>k. create_deposit_batches E (n + k) rest)"

definition saveDepositRecords :: "env \<Rightarrow> task_fee_log list \<Rightarrow> (world, unit) action" where
  "saveDepositRecords E logs =
     and_then (lift_sum (buildDepositRecords E logs)) (\<lambda>depositRecords.
       if depositRecords = [] then return_ok ()
       else and_then (create_deposit_batches E 0 (batches 99 depositRecords)) (\<lambda>rowsAffected.
         if rowsAffected \<noteq> length depositRecords then
           return_err (TaskFeeError ErrTaskFeeDepositTxHashDuplicate)
         else return_ok ()))"

section \<open>A batch and the loops\<close>

definition save_checkpoint :: "task_fee_checkpoint \<Rightarrow> db \<Rightarrow> (go_error + unit) \<times> db" where
  "save_checkpoint c d = (Inr (), d\<lparr>db_task_fee_checkpoint := Some c\<rparr>)"

definition applyTaskFeeLogBatch ::
  "env \<Rightarrow> task_fee_log list \<Rightarrow> task_fee_checkpoint \<Rightarrow> (world, task_fee_checkpoint) action" where
  "applyTaskFeeLogBatch E logs checkpoint =
     (if logs = [] then return_err (Panic ''index out of range [-1]'')
      else
        (let nextCheckpoint = checkpoint\<lparr>tc_LatestTaskFeeLogID := tfl_ID (last logs),
               tc_LatestTaskFeeLogTimestamp := tfl_CreatedAt (last logs)\<rparr> in
         and_then (db_transaction E
           (and_then (saveDepositRecords E logs) (\<lambda>_.
            and_then (applyVestingLogs E logs) (\<lambda>_.
            and_then (processTaskFeeLogs E logs) (\<lambda>_.
              db_action E (save_checkpoint nextCheckpoint))))))
           (\<lambda>_. return_ok nextCheckpoint)))"

definition read_checkpoint :: "env \<Rightarrow> (world, task_fee_checkpoint) action" where
  "read_checkpoint E =
     first_or E db_task_fee_checkpoint \<lparr>tc_LatestTaskFeeLogID = 0, tc_LatestTaskFeeLogTimestamp = 0\<rparr>"

text \<open>The loop ends only with an error; the fuel bounds its iterations.\<close>

fun sync_loop :: "env \<Rightarrow> nat \<Rightarrow> task_fee_checkpoint \<Rightarrow> (world, unit) action" where
  "sync_loop E 0 checkpoint = return_err OutOfFuel"
| "sync_loop E (Suc fuel) checkpoint =
     and_then (GetTaskFeeLogs E (tc_LatestTaskFeeLogID checkpoint)
                (sint (stf_BatchSize (cfg_SyncTaskFeeLogs (env_cfg E))))) (\<lambda>logs.
       if logs = [] then and_then (sleep E) (\<lambda>_. sync_loop E fuel checkpoint)
       else and_then (checkTaskFeeLogs E logs) (\<lambda>_.
            and_then (applyTaskFeeLogBatch E logs checkpoint) (\<lambda>nextCheckpoint.
              sync_loop E fuel nextCheckpoint)))"

definition syncTaskFeeLogs :: "env \<Rightarrow> nat \<Rightarrow> (world, unit) action" where
  "syncTaskFeeLogs E fuel =
     and_then (read_checkpoint E) (\<lambda>checkpoint. sync_loop E fuel checkpoint)"

text \<open>
  \<open>time.NewTicker\<close> panics on a duration that is not positive. A tick starts a sync; only an error of
  the check or of the batch ends the task.
\<close>

fun fee_ticks :: "env \<Rightarrow> nat \<Rightarrow> (world, unit) action" where
  "fee_ticks E 0 = return_err OutOfFuel"
| "fee_ticks E (Suc fuel) =
     and_then (try_result (sleep E)) (\<lambda>tick.
       case tick of
         Inl _ \<Rightarrow> return_ok ()
       | Inr _ \<Rightarrow>
           and_then (try_result (syncTaskFeeLogs E fuel)) (\<lambda>r.
             case r of
               Inl e \<Rightarrow> if IsTaskFeeError e then return_err e else fee_ticks E fuel
             | Inr _ \<Rightarrow> fee_ticks E fuel))"

definition StartSyncTaskFeeLogs :: "env \<Rightarrow> nat \<Rightarrow> (world, unit) action" where
  "StartSyncTaskFeeLogs E fuel =
     (if go_seconds (stf_IntervalSeconds (cfg_SyncTaskFeeLogs (env_cfg E))) \<le> 0
      then return_err (Panic ''non-positive interval for NewTicker'')
      else fee_ticks E fuel)"

end
