(* ===== verification/Fee_Ledger.thy ===== *)
theory Fee_Ledger
  imports Fee_Sync
begin

text \<open>
  The books: what a batch of events means for the balances, and what crediting, recording deposits and
  the whole batch do to the accounts, the deposits and the checkpoint.
\<close>

section \<open>The change a batch means\<close>

definition balance_change :: "task_fee_log \<Rightarrow> int" where
  "balance_change eventLog =
     (if isBalanceIgnoredTaskFeeLogType (tfl_Type eventLog) then 0
      else case parse_big (tfl_Amount eventLog) of
        None \<Rightarrow> 0
      | Some x \<Rightarrow> if tfl_Type eventLog = TaskFeeLogTypeTaskPayment then - x else x)"

definition change_of :: "string \<Rightarrow> task_fee_log list \<Rightarrow> int" where
  "change_of a logs = sum_list (map balance_change (filter (\<lambda>l. tfl_Address l = a) logs))"

lemma map_default_add_to:
  "map_default 0 (add_to a x m) b = map_default 0 m b + (if a = b then x else 0)"
  by (simp add: map_default_def add_to_def AList.update_conv')

lemma keys_add_to: "fst ` set (add_to a x m) = insert a (fst ` set m)"
  by (simp add: add_to_def AList.dom_update)

lemma distinct_add_to: "distinct (map fst m) \<Longrightarrow> distinct (map fst (add_to a x m))"
  by (simp add: add_to_def AList.distinct_update)

lemma signed_amount_change:
  "signed_amount (tfl_Type l) x = Inr y \<Longrightarrow> parse_big (tfl_Amount l) = Some x \<Longrightarrow>
   \<not> isBalanceIgnoredTaskFeeLogType (tfl_Type l) \<Longrightarrow> balance_change l = y"
  by (auto simp: signed_amount_def balance_change_def split: if_splits)

lemma merge_logs_books:
  "merge_logs m logs = Inr m' \<Longrightarrow>
   map_default 0 m' a = map_default 0 m a + change_of a logs \<and>
   fst ` set m' = fst ` set m \<union> tfl_Address ` {l \<in> set logs. \<not> isBalanceIgnoredTaskFeeLogType (tfl_Type l)} \<and>
   (distinct (map fst m) \<longrightarrow> distinct (map fst m'))"
proof (induction m logs rule: merge_logs.induct)
  case (1 m)
  then show ?case by (simp add: change_of_def)
next
  case (2 m l logs)
  show ?case
  proof (cases "isBalanceIgnoredTaskFeeLogType (tfl_Type l)")
    case True
    with 2 have "balance_change l = 0" "merge_logs m logs = Inr m'"
      by (auto simp: balance_change_def split: if_splits)
    with 2 True show ?thesis by (auto simp: change_of_def split: if_splits)
  next
    case False
    with "2.prems" obtain x y where p: "parse_big (tfl_Amount l) = Some x"
      "signed_amount (tfl_Type l) x = Inr y"
      "merge_logs (add_to (tfl_Address l) y m) logs = Inr m'"
      "isSupportedTaskFeeLogType (tfl_Type l)"
      by (auto simp: bind_sum_Inr split: if_splits option.splits)
    note ih = "2.IH"(2) [OF _ False p(1) p(3), simplified p(4)]
    have "balance_change l = y" using p False by (intro signed_amount_change)
    with ih False show ?thesis
      by (auto simp: map_default_add_to keys_add_to distinct_add_to change_of_def)
  qed
qed

lemmas merge_books = merge_logs_books [where m = "[]", folded mergeTaskFeeLogs_def]

section \<open>The books\<close>

definition book :: "db \<Rightarrow> (string \<times> int) list" where
  "book d = map (\<lambda>r. (ra_Address r, ra_Balance r)) (db_relay_accounts d)"

definition balance :: "db \<Rightarrow> string \<Rightarrow> int" where
  "balance d a = map_default 0 (book d) a"

definition accounts_ok :: "db \<Rightarrow> bool" where
  "accounts_ok d \<longleftrightarrow> distinct (map fst (book d))"

lemma map_fst_book: "map fst (book d) = map ra_Address (db_relay_accounts d)"
  by (simp add: book_def)

text \<open>The tables beside the accounts that a batch writes.\<close>

definition side :: "db \<Rightarrow> deposit_record list \<times> vesting_record list \<times> nat \<times> task_fee_checkpoint option" where
  "side d = (db_deposit_records d, db_vesting_records d, db_next_vesting_record_id d, db_task_fee_checkpoint d)"

definition ledger :: "db \<Rightarrow> relay_account list \<times> deposit_record list \<times> vesting_record list \<times> nat \<times> task_fee_checkpoint option" where
  "ledger d = (db_relay_accounts d, side d)"

lemma ledger_book: "ledger d = ledger d' \<Longrightarrow> book d = book d' \<and> side d = side d'"
  by (simp add: ledger_def book_def)

definition ledger_quiet :: "env \<Rightarrow> bool" where
  "ledger_quiet E \<longleftrightarrow> (\<forall>t. \<forall>s \<in> set (env_others E t).
     (\<forall>a x. s \<noteq> OtherCredit a x) \<and> (\<forall>c. s \<noteq> OtherCheckpoint c))"

lemma ledger_stable:
  assumes "ledger_quiet E"
  shows "stable_view E ledger"
proof
  fix s t d assume "s \<in> set (env_others E t)"
  with assms have "(\<forall>a x. s \<noteq> OtherCredit a x) \<and> (\<forall>c. s \<noteq> OtherCheckpoint c)"
    by (auto simp: ledger_quiet_def)
  then show "ledger (run_step s d) = ledger d"
    by (cases s) (auto simp: ledger_def side_def fail_with_retry_def insert_withdraw_record_def Let_def
        update_records_def update_transactions_def insert_transaction_def split: option.splits)
qed

section \<open>Accounts\<close>

lemma insert_accounts_book:
  "insert_accounts new d = (Inr u, d') \<Longrightarrow>
   book d' = book d @ new \<and> side d' = side d \<and> (accounts_ok d \<longrightarrow> accounts_ok d')"
proof (induction new d rule: insert_accounts.induct)
  case (2 a b rest d)
  then show ?case
    by (auto simp: book_def side_def accounts_ok_def split: if_splits)
qed simp

lemma create_accounts_book:
  "create_accounts new d = (Inr u, d') \<Longrightarrow>
   book d' = book d @ new \<and> side d' = side d \<and> (accounts_ok d \<longrightarrow> accounts_ok d')"
  using insert_accounts_book by (auto simp: create_accounts_def split: prod.splits sum.splits)

lemma set_balances_book:
  "set_balances cases d = (r, d') \<Longrightarrow>
   book d' = map (\<lambda>(a, b). (a, if a \<in> fst ` set cases then the (map_of cases a) else b)) (book d) \<and>
   side d' = side d"
  by (auto simp: set_balances_def book_def side_def update_where_def)

lemma map_of_new_balances:
  assumes "r \<in> set accounts" and "distinct (map ra_Address accounts)"
  shows "map_of (new_balances m accounts) (ra_Address r) = Some (ra_Balance r + map_default 0 m (ra_Address r))"
proof (rule map_of_is_SomeI)
  show "distinct (map fst (new_balances m accounts))"
    using assms(2) by (simp add: new_balances_def comp_def)
  show "(ra_Address r, ra_Balance r + map_default 0 m (ra_Address r)) \<in> set (new_balances m accounts)"
    using assms(1) by (auto simp: new_balances_def)
qed

lemma keys_new_balances: "fst ` set (new_balances m accounts) = ra_Address ` set accounts"
  by (force simp: new_balances_def)

lemma map_of_cases:
  "map_of (map (\<lambda>(a, b). (a, if a \<in> A then f a else b)) xs) a =
   map_option (\<lambda>b. if a \<in> A then f a else b) (map_of xs a)"
  by (induction xs) auto

text \<open>Adding the merged changes to the books.\<close>

lemma credited_book:
  assumes ok: "accounts_ok d" and m: "distinct (map fst m)"
    and acc: "accounts = filter (\<lambda>r. ra_Address r \<in> fst ` set m) (db_relay_accounts d)"
    and new: "new = filter (\<lambda>(a, x). a \<notin> ra_Address ` set accounts) m"
    and b1: "b1 = book d @ new"
  shows "map_default 0 (map (\<lambda>(a, b). (a, if a \<in> fst ` set (new_balances m accounts)
       then the (map_of (new_balances m accounts) a) else b)) b1) a =
     map_default 0 (book d) a + map_default 0 m a"
proof (cases "\<exists>r \<in> set (db_relay_accounts d). ra_Address r = a")
  case True
  then obtain r where r: "r \<in> set (db_relay_accounts d)" "ra_Address r = a" by blast
  have old: "map_of (book d) a = Some (ra_Balance r)"
    using ok r by (intro map_of_is_SomeI) (auto simp: accounts_ok_def book_def)
  then have b1a: "map_of b1 a = Some (ra_Balance r)" by (simp add: b1 map_add_def map_of_append split: option.split)
  show ?thesis
  proof (cases "a \<in> fst ` set m")
    case True
    with r acc have ra: "r \<in> set accounts" by simp
    have "distinct (map ra_Address accounts)"
      using ok by (simp add: acc accounts_ok_def map_fst_book distinct_map_filter)
    from map_of_new_balances [OF ra this, of m] r ra b1a old show ?thesis
      by (auto simp: map_default_def map_of_cases keys_new_balances)
  next
    case False
    with r have "a \<notin> ra_Address ` set accounts" by (force simp: acc)
    moreover have "map_of m a = None" using False by (simp add: map_of_eq_None_iff)
    ultimately show ?thesis using b1a old by (simp add: map_default_def map_of_cases keys_new_balances)
  qed
next
  case False
  then have out: "a \<notin> ra_Address ` set accounts" by (auto simp: acc)
  have none: "map_of (book d) a = None"
    using False by (auto simp: map_of_eq_None_iff book_def)
  have "map_of new a = map_of m a"
  proof (cases "map_of m a")
    case None
    then have "a \<notin> fst ` set new" by (force simp: new map_of_eq_None_iff)
    with None show ?thesis by (metis map_of_eq_None_iff)
  next
    case (Some x)
    then have "(a, x) \<in> set new" using out by (auto simp: new dest: map_of_SomeD)
    moreover have "distinct (map fst new)" using m by (simp add: new distinct_map_filter)
    ultimately show ?thesis using Some by (simp add: map_of_is_SomeI)
  qed
  with none out show ?thesis
    by (simp add: map_default_def map_of_cases keys_new_balances b1 map_add_def split: option.split)
qed

section \<open>The actions\<close>

lemma quiet_action:
  assumes "ledger_quiet E" and "db_action E f w = (Inr x, w')"
  obtains d where "ledger d = ledger (w_db w)" "f d = (Inr x, w_db w')"
  using stable_view.action_view [OF ledger_stable [OF assms(1)] assms(2)] by auto

lemma ledger_accounts: "ledger d = ledger d' \<Longrightarrow> db_relay_accounts d = db_relay_accounts d'"
  by (simp add: ledger_def)

lemma accounts_of_ok:
  assumes "ledger_quiet E" and "accounts_of E as w = (Inr accounts, w')"
  shows "accounts = filter (\<lambda>r. ra_Address r \<in> set as) (db_relay_accounts (w_db w)) \<and>
    ledger (w_db w') = ledger (w_db w)"
proof -
  from assms obtain d where "ledger d = ledger (w_db w)"
    "(Inr (filter (\<lambda>r. ra_Address r \<in> set as) (db_relay_accounts d)) :: go_error + relay_account list, d) = (Inr accounts, w_db w')"
    unfolding accounts_of_def db_query_def by (blast elim: quiet_action)
  then show ?thesis using ledger_accounts [of d "w_db w"] by auto
qed

lemma create_batches_book:
  assumes E: "ledger_quiet E"
  shows "for_each bs (\<lambda>rows. db_action E (create_accounts rows)) w = (Inr u, w') \<Longrightarrow>
    book (w_db w') = book (w_db w) @ concat bs \<and> side (w_db w') = side (w_db w) \<and>
    (accounts_ok (w_db w) \<longrightarrow> accounts_ok (w_db w'))"
proof (induction bs arbitrary: w)
  case Nil
  then show ?case by (simp add: return_ok_def)
next
  case (Cons b bs)
  then obtain v w1 where w1: "db_action E (create_accounts b) w = (Inr v, w1)"
    "for_each bs (\<lambda>rows. db_action E (create_accounts rows)) w1 = (Inr u, w')"
    by (auto simp: and_then_ok)
  from quiet_action [OF E w1(1)] obtain d where d: "ledger d = ledger (w_db w)"
    "create_accounts b d = (Inr v, w_db w1)" by blast
  have "accounts_ok d = accounts_ok (w_db w)" using ledger_book [OF d(1)] by (simp add: accounts_ok_def)
  with create_accounts_book [OF d(2)] ledger_book [OF d(1)] Cons.IH [OF w1(2)]
  show ?case by simp
qed

lemma process_ledger:
  assumes E: "ledger_quiet E" and run: "processTaskFeeLogs E logs w = (Inr u, w')"
    and ok: "accounts_ok (w_db w)"
  shows "(\<forall>a. balance (w_db w') a = balance (w_db w) a + change_of a logs) \<and>
    side (w_db w') = side (w_db w) \<and> accounts_ok (w_db w')"
proof -
  from run obtain m where m: "mergeTaskFeeLogs logs = Inr m"
    by (auto simp: processTaskFeeLogs_def lift_then_ok)
  note M = merge_books [OF m]
  have dm: "distinct (map fst m)" using M by simp
  have change: "change_of a logs = map_default 0 m a" for a using M [of a] by (simp add: map_default_def)
  show ?thesis
  proof (cases "m = []")
    case True
    with run m change show ?thesis
      using ok by (simp add: processTaskFeeLogs_def lift_then_ok return_ok_def map_default_def)
  next
    case False
    define new where "new = (\<lambda>accounts :: relay_account list. filter (\<lambda>(a, x). a \<notin> ra_Address ` set accounts) m)"
    from run m False have step: "and_then (accounts_of E (map fst m)) (\<lambda>accounts.
        and_then (for_each (batches 99 (new accounts)) (\<lambda>rows. db_action E (create_accounts rows)))
          (\<lambda>_. if accounts = [] then return_ok ()
               else db_action E (set_balances (new_balances m accounts)))) w = (Inr u, w')"
      unfolding processTaskFeeLogs_def lift_then_ok new_def Let_def by simp
    then obtain accounts w1 v w2 where w1: "accounts_of E (map fst m) w = (Inr accounts, w1)"
      and w2: "for_each (batches 99 (new accounts)) (\<lambda>rows. db_action E (create_accounts rows)) w1 = (Inr v, w2)"
      and w3: "(if accounts = [] then return_ok ()
                else db_action E (set_balances (new_balances m accounts))) w2 = (Inr u, w')"
      unfolding and_then_ok by blast
    from accounts_of_ok [OF E w1] have acc: "accounts = filter (\<lambda>r. ra_Address r \<in> fst ` set m) (db_relay_accounts (w_db w))"
      and l1: "ledger (w_db w1) = ledger (w_db w)" by simp_all
    have "accounts_ok (w_db w1)" using ok ledger_book [OF l1] by (simp add: accounts_ok_def)
    with create_batches_book [OF E w2] ledger_book [OF l1]
    have b2: "book (w_db w2) = book (w_db w) @ new accounts" "side (w_db w2) = side (w_db w)"
      "accounts_ok (w_db w2)" by simp_all
    let ?c = "\<lambda>(a, b). (a, if a \<in> fst ` set (new_balances m accounts)
       then the (map_of (new_balances m accounts) a) else b)"
    have b3: "book (w_db w') = map ?c (book (w_db w2)) \<and> side (w_db w') = side (w_db w2)"
    proof (cases "accounts = []")
      case True
      with w3 have "w' = w2" by (simp add: return_ok_def)
      moreover have "map ?c xs = xs" for xs using True by (simp add: new_balances_def map_idI)
      ultimately show ?thesis by simp
    next
      case False
      with w3 have "db_action E (set_balances (new_balances m accounts)) w2 = (Inr u, w')" by simp
      from quiet_action [OF E this] obtain d where d: "ledger d = ledger (w_db w2)"
        "set_balances (new_balances m accounts) d = (Inr u, w_db w')" by blast
      from set_balances_book [OF d(2)] ledger_book [OF d(1)] show ?thesis by simp
    qed
    have "balance (w_db w') a = balance (w_db w) a + change_of a logs" for a
      unfolding balance_def change b3 [THEN conjunct1]
      by (rule credited_book [OF ok dm acc refl]) (simp add: b2(1) new_def)
    moreover have "accounts_ok (w_db w')"
    proof -
      have "map fst (map ?c xs) = map fst xs" for xs by (induction xs) auto
      then have "map fst (book (w_db w')) = map fst (book (w_db w2))" by (simp only: b3)
      with b2(3) show ?thesis by (simp only: accounts_ok_def)
    qed
    ultimately show ?thesis using b2(2) b3 by simp
  qed
qed

section \<open>Deposits\<close>

lemma insert_deposits_rows:
  "length (insert_deposits rs rows) \<le> length rows + length rs \<and>
   (length (insert_deposits rs rows) = length rows + length rs \<longrightarrow> insert_deposits rs rows = rows @ rs) \<and>
   length rows \<le> length (insert_deposits rs rows) \<and>
   (distinct (map deposit_identity rows) \<longrightarrow> distinct (map deposit_identity (insert_deposits rs rows)))"
proof (induction rs rows rule: insert_deposits.induct)
  case (2 r rs rows)
  then show ?case by auto
qed simp

lemma deposit_action:
  assumes "db_action E (create_deposits rows) w = (Inr k, w')"
  shows "k \<le> length rows \<and>
    (k = length rows \<longrightarrow> db_deposit_records (w_db w') = db_deposit_records (w_db w) @ rows) \<and>
    (distinct (map deposit_identity (db_deposit_records (w_db w))) \<longrightarrow>
     distinct (map deposit_identity (db_deposit_records (w_db w'))))"
proof -
  from deposit_table.action_view [OF assms] obtain d where
    d: "db_deposit_records d = db_deposit_records (w_db w)" "create_deposits rows d = (Inr k, w_db w')" by auto
  have "w_db w' = d\<lparr>db_deposit_records := insert_deposits rows (db_deposit_records d)\<rparr>"
    "k = length (insert_deposits rows (db_deposit_records d)) - length (db_deposit_records d)"
    using d(2) by (simp_all add: create_deposits_def Let_def)
  with insert_deposits_rows [of rows "db_deposit_records d"] d(1) show ?thesis by auto
qed

lemma deposit_batches:
  "create_deposit_batches E n bs w = (Inr m, w') \<Longrightarrow>
   m \<le> n + length (concat bs) \<and>
   (m = n + length (concat bs) \<longrightarrow>
      db_deposit_records (w_db w') = db_deposit_records (w_db w) @ concat bs) \<and>
   (distinct (map deposit_identity (db_deposit_records (w_db w))) \<longrightarrow>
    distinct (map deposit_identity (db_deposit_records (w_db w'))))"
proof (induction bs arbitrary: n w)
  case Nil
  then show ?case by (simp add: return_ok_def)
next
  case (Cons b bs)
  then obtain k w1 where w1: "db_action E (create_deposits b) w = (Inr k, w1)"
    "create_deposit_batches E (n + k) bs w1 = (Inr m, w')" by (auto simp: and_then_ok)
  from deposit_action [OF w1(1)] Cons.IH [OF w1(2)] show ?case by auto
qed

lemma save_deposits:
  assumes "saveDepositRecords E logs w = (Inr u, w')"
  shows "\<exists>rs. buildDepositRecords E logs = Inr rs \<and>
    db_deposit_records (w_db w') = db_deposit_records (w_db w) @ rs \<and>
    (distinct (map deposit_identity (db_deposit_records (w_db w))) \<longrightarrow>
     distinct (map deposit_identity (db_deposit_records (w_db w'))))"
proof -
  from assms obtain rs where rs: "buildDepositRecords E logs = Inr rs"
    by (auto simp: saveDepositRecords_def lift_then_ok)
  with assms have step: "(if rs = [] then return_ok ()
       else and_then (create_deposit_batches E 0 (batches 99 rs)) (\<lambda>rowsAffected.
         if rowsAffected \<noteq> length rs then
           return_err (TaskFeeError ErrTaskFeeDepositTxHashDuplicate)
         else return_ok ())) w = (Inr u, w')"
    unfolding saveDepositRecords_def lift_then_ok by simp
  show ?thesis
  proof (cases "rs = []")
    case True
    with step rs show ?thesis by (simp add: return_ok_def)
  next
    case False
    with step have "create_deposit_batches E 0 (batches 99 rs) w = (Inr (length rs), w')"
      by (auto simp: and_then_ok return_ok_def return_err_def split: if_splits)
    from deposit_batches [OF this, unfolded concat_batches add_0] rs show ?thesis by blast
  qed
qed
section \<open>A batch\<close>

lemma create_vesting_side:
  "db_relay_accounts (snd (create_vesting r d)) = db_relay_accounts d"
  "db_task_fee_checkpoint (snd (create_vesting r d)) = db_task_fee_checkpoint d"
  "db_deposit_records (snd (create_vesting r d)) = db_deposit_records d"
  by (simp_all add: create_vesting_def)

lemma update_vesting_side:
  "db_relay_accounts (snd (update_vesting i x st d)) = db_relay_accounts d"
  "db_task_fee_checkpoint (snd (update_vesting i x st d)) = db_task_fee_checkpoint d"
  "db_deposit_records (snd (update_vesting i x st d)) = db_deposit_records d"
  by (simp_all add: update_vesting_def)

lemma vesting_logs_view:
  assumes V: "stable_view E V"
    and "\<And>r d. V (snd (create_vesting r d)) = V d" "\<And>i x st d. V (snd (update_vesting i x st d)) = V d"
  shows "keeps (\<lambda>w. V (w_db w) = x) (applyVestingLogs E logs)"
  unfolding applyVestingLogs_def apply_vesting_log_def upsertVestingCreateLog_def
    applyVestingReleaseLog_def
  by (intro safe stable_view.view_primitives [OF V] stable_view.view_action [OF V] assms(2,3))

lemma deposit_batches_view:
  assumes V: "stable_view E V" and "\<And>rows d. V (snd (create_deposits rows d)) = V d"
  shows "keeps (\<lambda>w. V (w_db w) = x) (create_deposit_batches E n bs)"
  by (induction bs arbitrary: n) (auto intro!: safe stable_view.view_action [OF V] assms(2))

lemma save_deposits_view:
  assumes V: "stable_view E V" and "\<And>rows d. V (snd (create_deposits rows d)) = V d"
  shows "keeps (\<lambda>w. V (w_db w) = x) (saveDepositRecords E logs)"
  unfolding saveDepositRecords_def
  by (intro safe deposit_batches_view [OF assms])

definition money :: "db \<Rightarrow> relay_account list \<times> task_fee_checkpoint option" where
  "money d = (db_relay_accounts d, db_task_fee_checkpoint d)"

lemma money_stable: "ledger_quiet E \<Longrightarrow> stable_view E money"
  using ledger_stable [of E] unfolding stable_view_def ledger_def side_def money_def by simp

lemma money_book: "money d = money d' \<Longrightarrow> book d = book d' \<and> balance d a = balance d' a \<and>
    accounts_ok d = accounts_ok d' \<and> db_task_fee_checkpoint d = db_task_fee_checkpoint d'"
  by (simp add: money_def book_def balance_def accounts_ok_def)

lemma keeps_same: "keeps (\<lambda>w. V (w_db w) = V (w_db w0)) m \<Longrightarrow> m w0 = (r, w1) \<Longrightarrow> V (w_db w1) = V (w_db w0)"
  by (drule keepsD) simp_all

definition batch_body :: "env \<Rightarrow> task_fee_log list \<Rightarrow> task_fee_checkpoint \<Rightarrow> (world, unit) action" where
  "batch_body E logs c =
     and_then (saveDepositRecords E logs) (\<lambda>_.
     and_then (applyVestingLogs E logs) (\<lambda>_.
     and_then (processTaskFeeLogs E logs) (\<lambda>_. db_action E (save_checkpoint c))))"

lemma batch_body_deposits:
  assumes "batch_body E logs c w = (Inr u, w')"
  shows "\<exists>rs. buildDepositRecords E logs = Inr rs \<and>
    db_deposit_records (w_db w') = db_deposit_records (w_db w) @ rs \<and>
    (distinct (map deposit_identity (db_deposit_records (w_db w))) \<longrightarrow>
     distinct (map deposit_identity (db_deposit_records (w_db w'))))"
proof -
  from assms obtain a w1 b w2 where w1: "saveDepositRecords E logs w = (Inr a, w1)"
    and w2: "applyVestingLogs E logs w1 = (Inr b, w2)"
    and w3: "and_then (processTaskFeeLogs E logs) (\<lambda>_. db_action E (save_checkpoint c)) w2 = (Inr u, w')"
    unfolding batch_body_def and_then_ok by blast
  have "db_deposit_records (w_db w2) = db_deposit_records (w_db w1)"
    by (rule keeps_same [OF vesting_logs_view w2])
      (simp_all add: deposit_table.stable_view_axioms create_vesting_side update_vesting_side)
  moreover have "keeps (\<lambda>w. db_deposit_records (w_db w) = x)
     (and_then (processTaskFeeLogs E logs) (\<lambda>_. db_action E (save_checkpoint c)))" for x
    unfolding processTaskFeeLogs_def accounts_of_def
    by (intro safe deposit_table.view_primitives deposit_table.view_action)
      (auto simp: create_accounts_def set_balances_def save_checkpoint_def split: prod.split sum.split
        dest!: insert_accounts_book simp: side_def)
  note keepsD [OF this [of "db_deposit_records (w_db w2)"] refl w3]
  ultimately show ?thesis using save_deposits [OF w1] by (metis (no_types, lifting))
qed

lemma batch_body_ledger:
  assumes E: "ledger_quiet E" and ok: "accounts_ok (w_db w)" and run: "batch_body E logs c w = (Inr u, w')"
  shows "(\<forall>a. balance (w_db w') a = balance (w_db w) a + change_of a logs) \<and> accounts_ok (w_db w') \<and>
    db_task_fee_checkpoint (w_db w') = Some c"
proof -
  from run obtain a w1 b w2 x w3 where w1: "saveDepositRecords E logs w = (Inr a, w1)"
    and w2: "applyVestingLogs E logs w1 = (Inr b, w2)"
    and w3: "processTaskFeeLogs E logs w2 = (Inr x, w3)"
    and w4: "db_action E (save_checkpoint c) w3 = (Inr u, w')"
    unfolding batch_body_def and_then_ok by blast
  have "money (w_db w1) = money (w_db w)"
    by (rule keeps_same [OF save_deposits_view w1])
      (simp_all add: money_stable E, simp add: money_def create_deposits_def Let_def)
  moreover have "money (w_db w2) = money (w_db w1)"
    by (rule keeps_same [OF vesting_logs_view w2])
      (simp_all add: money_stable E, simp_all add: money_def create_vesting_side update_vesting_side)
  ultimately have m: "money (w_db w2) = money (w_db w)" by simp
  with ok have "accounts_ok (w_db w2)" using money_book [OF m] by blast
  note p = process_ledger [OF E w3 this]
  from quiet_action [OF E w4] obtain d where d: "ledger d = ledger (w_db w3)"
    "save_checkpoint c d = (Inr u, w_db w')" by blast
  have w': "w_db w' = d\<lparr>db_task_fee_checkpoint := Some c\<rparr>" using d(2) by (simp add: save_checkpoint_def)
  then have "book (w_db w') = book (w_db w3)" using ledger_book [OF d(1)] by (simp add: book_def)
  with p m w' show ?thesis
    using money_book [OF m] by (simp add: balance_def accounts_ok_def)
qed

lemma apply_batch_body:
  "logs \<noteq> [] \<Longrightarrow> applyTaskFeeLogBatch E logs c =
     (let c' = c\<lparr>tc_LatestTaskFeeLogID := tfl_ID (last logs),
               tc_LatestTaskFeeLogTimestamp := tfl_CreatedAt (last logs)\<rparr> in
      and_then (db_transaction E (batch_body E logs c')) (\<lambda>_. return_ok c'))"
  by (simp add: applyTaskFeeLogBatch_def batch_body_def Let_def)
lemma batch_ledger:
  assumes E: "ledger_quiet E" and ok: "accounts_ok (w_db w)"
    and run: "applyTaskFeeLogBatch E logs c w = (r, w')"
  shows "case r of
      Inl e \<Rightarrow> ledger (w_db w') = ledger (w_db w)
    | Inr c' \<Rightarrow> (\<forall>a. balance (w_db w') a = balance (w_db w) a + change_of a logs) \<and>
        accounts_ok (w_db w') \<and> db_task_fee_checkpoint (w_db w') = Some c' \<and>
        tc_LatestTaskFeeLogID c' = tfl_ID (last logs)"
proof (cases "logs = []")
  case True
  with run show ?thesis by (auto simp: applyTaskFeeLogBatch_def return_err_def)
next
  case False
  define c' where "c' = c\<lparr>tc_LatestTaskFeeLogID := tfl_ID (last logs),
               tc_LatestTaskFeeLogTimestamp := tfl_CreatedAt (last logs)\<rparr>"
  obtain q w1 where t: "db_transaction E (batch_body E logs c') w = (q, w1)" by fastforce
  have r: "r = (case q of Inl e \<Rightarrow> Inl e | Inr _ \<Rightarrow> Inr c')" "w' = w1"
    using run False t by (auto simp: apply_batch_body c'_def Let_def and_then_def return_ok_def split: sum.splits)
  from stable_view.transaction_view [OF ledger_stable [OF E] t] show ?thesis
  proof (elim disjE exE conjE)
    fix e assume "q = Inl e" "ledger (w_db w1) = ledger (w_db w)"
    with r show ?thesis by simp
  next
    fix x v u
    assume q: "q = Inr x" and l: "ledger (w_db v) = ledger (w_db w)"
      and b: "batch_body E logs c' v = (Inr x, u)" and w1: "w_db w1 = w_db u"
    have "book (w_db v) = book (w_db w)" using ledger_book [OF l] by simp
    with batch_body_ledger [OF E _ b] ok q r w1 show ?thesis
      by (simp add: accounts_ok_def balance_def c'_def)
  qed
qed

section \<open>The loop\<close>

lemma fetch_view:
  assumes V: "stable_view E V"
  shows "keeps (\<lambda>w. V (w_db w) = x) (GetTaskFeeLogs E p l)"
  unfolding GetTaskFeeLogs_def signed_get_def read_rows_def SignData_def NewRequest_def
  by (intro safe stable_view.view_primitives [OF V])

lemma deposit_age_view:
  "stable_view E V \<Longrightarrow> keeps (\<lambda>w. V (w_db w) = x) (check_deposit_age E c r)"
  unfolding check_deposit_age_def by (intro safe stable_view.view_primitives)

lemma validate_view:
  assumes V: "stable_view E V"
  shows "keeps (\<lambda>w. V (w_db w) = x) (validateDepositLog E l)"
proof -
  have "keeps (\<lambda>w. V (w_db w) = x) (validate_erc20_logs E c r l a k ls)" for c r a k ls
    by (induction ls) (auto intro!: safe deposit_age_view [OF V])
  then show ?thesis
    unfolding validateDepositLog_def validate_by_token_def validateNativeDepositLog_def
      validateERC20DepositLog_def GetTransactionTransfer_def
    by (intro safe stable_view.view_primitives [OF V] deposit_age_view [OF V])
qed

lemma check_view:
  assumes V: "stable_view E V"
  shows "keeps (\<lambda>w. V (w_db w) = x) (checkTaskFeeLogs E logs)"
proof -
  have "keeps (\<lambda>w. V (w_db w) = x) (check_log E l)" for l
    unfolding check_log_def by (intro safe validate_view [OF V])
  then have "keeps (\<lambda>w. V (w_db w) = x) (check_logs E n ls)" for n ls
    by (induction ls arbitrary: n) (auto intro!: safe)
  then show ?thesis
    unfolding checkTaskFeeLogs_def accounts_of_def
    by (intro safe stable_view.view_primitives [OF V])
qed

definition pivot :: "db \<Rightarrow> nat" where
  "pivot d = (case db_task_fee_checkpoint d of None \<Rightarrow> 0 | Some c \<Rightarrow> tc_LatestTaskFeeLogID c)"

text \<open>
  \<open>fetched E p bs q\<close>: the Relay gave the batches \<open>bs\<close> one after the other, the first for the pivot
  \<open>p\<close> and each next one for the last event of the one before, which is \<open>q\<close> in the end.
\<close>

inductive fetched :: "env \<Rightarrow> nat \<Rightarrow> task_fee_log list list \<Rightarrow> nat \<Rightarrow> bool" for E where
  none: "fetched E p [] p"
| more: "GetTaskFeeLogs E p (sint (stf_BatchSize (cfg_SyncTaskFeeLogs (env_cfg E)))) w = (Inr b, w') \<Longrightarrow>
    b \<noteq> [] \<Longrightarrow> fetched E (tfl_ID (last b)) bs q \<Longrightarrow> fetched E p (b # bs) q"

definition books_after :: "env \<Rightarrow> db \<Rightarrow> nat \<Rightarrow> db \<Rightarrow> bool" where
  "books_after E d p d' \<longleftrightarrow> (\<exists>bs. fetched E p bs (pivot d') \<and>
     (\<forall>a. balance d' a = balance d a + change_of a (concat bs)))"

lemma change_of_append: "change_of a (xs @ ys) = change_of a xs + change_of a ys"
  by (simp add: change_of_def)

lemma ledger_balance: "ledger d = ledger d' \<Longrightarrow> balance d a = balance d' a \<and> pivot d = pivot d' \<and> accounts_ok d = accounts_ok d'"
  using ledger_book [of d d'] by (auto simp: balance_def pivot_def accounts_ok_def side_def)

lemma books_after_same: "ledger d' = ledger d \<Longrightarrow> books_after E d (pivot d) d'"
  using ledger_balance [of d' d] by (auto simp: books_after_def change_of_def intro!: exI [of _ "[]"] fetched.none)

lemma books_after_start:
  "ledger d = ledger e \<Longrightarrow> books_after E d p d' \<longleftrightarrow> books_after E e p d'"
  using ledger_balance [of d e] by (simp add: books_after_def)

lemma books_after_batch:
  assumes get: "GetTaskFeeLogs E p (sint (stf_BatchSize (cfg_SyncTaskFeeLogs (env_cfg E)))) w = (Inr b, w1)"
    and "b \<noteq> []" and "\<forall>a. balance d2 a = balance d a + change_of a b"
    and "books_after E d2 (tfl_ID (last b)) d'"
  shows "books_after E d p d'"
proof -
  from assms(4) obtain bs where bs: "fetched E (tfl_ID (last b)) bs (pivot d')"
    "\<forall>a. balance d' a = balance d2 a + change_of a (concat bs)" by (auto simp: books_after_def)
  with assms(3) have "\<forall>a. balance d' a = balance d a + change_of a (concat (b # bs))"
    by (simp add: change_of_append)
  with fetched.more [OF get assms(2) bs(1)] show ?thesis unfolding books_after_def by blast
qed

lemma sync_loop_books:
  assumes E: "ledger_quiet E"
  shows "sync_loop E fuel c w = (r, w') \<Longrightarrow> accounts_ok (w_db w) \<Longrightarrow>
    pivot (w_db w) = tc_LatestTaskFeeLogID c \<Longrightarrow>
    books_after E (w_db w) (pivot (w_db w)) (w_db w')"
proof (induction fuel arbitrary: c w)
  case 0
  then have "w' = w" by (simp add: return_err_def)
  then show ?case by (simp add: books_after_same)
next
  case (Suc fuel)
  note V = ledger_stable [OF E]
  have same: ?case if "ledger (w_db w') = ledger (w_db w)" using that by (rule books_after_same)
  obtain r1 w1 where g: "GetTaskFeeLogs E (tc_LatestTaskFeeLogID c)
     (sint (stf_BatchSize (cfg_SyncTaskFeeLogs (env_cfg E)))) w = (r1, w1)" by fastforce
  have l1: "ledger (w_db w1) = ledger (w_db w)" by (rule keepsD [OF fetch_view [OF V] refl g])
  show ?case
  proof (cases r1)
    case (Inl e)
    with Suc.prems g have "w' = w1" by (simp add: and_then_def)
    with same l1 show ?thesis by simp
  next
    case (Inr logs)
    note g' = g [unfolded Inr]
    show ?thesis
    proof (cases "logs = []")
      case True
      obtain r2 w2 where s: "sleep E w1 = (r2, w2)" by fastforce
      have l2: "ledger (w_db w2) = ledger (w_db w)"
        using keepsD [OF stable_view.view_primitives(3) [OF V] l1 s] .
      show ?thesis
      proof (cases r2)
        case (Inl e)
        with Suc.prems g' True s have "w' = w2" by (simp add: and_then_def)
        with same l2 show ?thesis by simp
      next
        case (Inr u)
        with Suc.prems g' True s have "sync_loop E fuel c w2 = (r, w')" by (simp add: and_then_def)
        from Suc.IH [OF this] Suc.prems l2 show ?thesis
          using ledger_balance [OF l2] books_after_start [OF l2] by simp
      qed
    next
      case False
      obtain r2 w2 where s: "checkTaskFeeLogs E logs w1 = (r2, w2)" by fastforce
      have l2: "ledger (w_db w2) = ledger (w_db w)"
        using keepsD [OF check_view [OF V] l1 s] .
      obtain r3 w3 where b: "applyTaskFeeLogBatch E logs c w2 = (r3, w3)" by fastforce
      have ok2: "accounts_ok (w_db w2)" using ledger_balance [OF l2] Suc.prems(2) by simp
      note B = batch_ledger [OF E ok2 b]
      show ?thesis
      proof (cases "(\<exists>e. r2 = Inl e) \<or> (\<exists>e. r3 = Inl e)")
        case True
        with Suc.prems g' False s b B l2 have "ledger (w_db w') = ledger (w_db w)"
          by (auto simp: and_then_def split: sum.splits)
        then show ?thesis by (rule same)
      next
        case no_error: False
        then obtain u c' where rs: "r2 = Inr u" "r3 = Inr c'" by (metis sum.exhaust_sel)
        with Suc.prems g' False s b have run: "sync_loop E fuel c' w3 = (r, w')"
          by (simp add: and_then_def)
        from B rs have B': "\<forall>a. balance (w_db w3) a = balance (w_db w2) a + change_of a logs"
          "accounts_ok (w_db w3)" "pivot (w_db w3) = tfl_ID (last logs)"
          "tc_LatestTaskFeeLogID c' = tfl_ID (last logs)" by (auto simp: pivot_def)
        from Suc.IH [OF run B'(2)] B' have "books_after E (w_db w3) (tfl_ID (last logs)) (w_db w')" by simp
        with books_after_batch [OF g' False, of "w_db w3" "w_db w"] B'(1) ledger_balance [OF l2] Suc.prems(3)
        show ?thesis by simp
      qed
    qed
  qed
qed

text \<open>The database reports a missing row only when there is none.\<close>

definition faults_plain :: "env \<Rightarrow> bool" where
  "faults_plain E \<longleftrightarrow> (\<forall>t. env_db_fault E t \<noteq> Some ErrRecordNotFound)"

lemma read_checkpoint_ok:
  assumes E: "ledger_quiet E" and F: "faults_plain E" and run: "read_checkpoint E w = (r, w')"
  shows "ledger (w_db w') = ledger (w_db w) \<and> (\<forall>c. r = Inr c \<longrightarrow> tc_LatestTaskFeeLogID c = pivot (w_db w))"
proof -
  note V = ledger_stable [OF E]
  have K: "keeps (\<lambda>v. ledger (w_db v) = ledger (w_db w)) (read_checkpoint E)"
    unfolding read_checkpoint_def first_or_def by (intro safe stable_view.view_primitives [OF V])
  note l = keepsD [OF K refl run]
  have "db_task_fee_checkpoint (seen_db E w) = db_task_fee_checkpoint (w_db w)"
    using stable_view.seen_view [OF V, of w] by (simp add: ledger_def side_def)
  with run F have "\<forall>c. r = Inr c \<longrightarrow> tc_LatestTaskFeeLogID c = pivot (w_db w)"
    by (auto simp: read_checkpoint_def first_or_def and_then_def try_result_def db_query_def db_action_def Let_def
        return_ok_def return_err_def pivot_def faults_plain_def split: option.splits if_splits sum.splits)
  with l show ?thesis by simp
qed

lemma sync_books:
  assumes E: "ledger_quiet E" and F: "faults_plain E" and ok: "accounts_ok (w_db w)" and run: "syncTaskFeeLogs E fuel w = (r, w')"
  shows "books_after E (w_db w) (pivot (w_db w)) (w_db w')"
proof -
  obtain q w1 where q: "read_checkpoint E w = (q, w1)" by fastforce
  note R = read_checkpoint_ok [OF E F q]
  show ?thesis
  proof (cases q)
    case (Inl e)
    with run q have "w' = w1" by (simp add: syncTaskFeeLogs_def and_then_def)
    with R show ?thesis by (simp add: books_after_same)
  next
    case (Inr c)
    with run q have loop: "sync_loop E fuel c w1 = (r, w')" by (simp add: syncTaskFeeLogs_def and_then_def)
    have l: "ledger (w_db w1) = ledger (w_db w)" using R by simp
    from sync_loop_books [OF E loop] R Inr ok ledger_balance [OF l] books_after_start [OF l]
    show ?thesis by simp
  qed
qed
end
