(* ===== verification/Fee_Properties.thy ===== *)
theory Fee_Properties
  imports Vesting_Properties Fee_Ledger
begin

text \<open>
  What the task-fee sync promises: exact books, one transaction per batch, one credit per deposit, and
  deposits that are on chain; and where the checks of a batch stop short.
\<close>

section \<open>Books\<close>

text \<open>
  C18: the merged changes are, for every address, the sum of the signed amounts of its events; no event
  that changes a balance is lost or counted twice.
\<close>
theorem merge_exact:
  assumes "mergeTaskFeeLogs logs = Inr merged"
  shows "map_default 0 merged a = change_of a logs \<and> distinct (map fst merged) \<and>
    fst ` set merged = tfl_Address ` {l \<in> set logs. \<not> isBalanceIgnoredTaskFeeLogType (tfl_Type l)}"
  using merge_books [OF assms, of a] by (simp add: map_default_def)

definition fee_log :: "nat \<Rightarrow> string \<Rightarrow> string \<Rightarrow> task_fee_log_type \<Rightarrow> task_fee_log" where
  "fee_log i a x t = \<lparr>tfl_ID = i, tfl_CreatedAt = 60, tfl_Address = a, tfl_Amount = x, tfl_Type = t,
     tfl_Payload = []\<rparr>"

definition sample_logs :: "task_fee_log list" where
  "sample_logs = [fee_log 5 ''0xA'' ''30'' TaskFeeLogTypeTaskIncome,
     fee_log 6 ''0xB'' ''4'' TaskFeeLogTypeTaskIncome, fee_log 7 ''0xA'' ''10'' TaskFeeLogTypeTaskPayment]"

lemma sample_merge: "mergeTaskFeeLogs sample_logs = Inr [(''0xA'', 20), (''0xB'', 4)]"
  by code_simp

theorem merge_exact_witness:
  "map_default 0 [(''0xA'', 20), (''0xB'', 4)] ''0xA'' = change_of ''0xA'' sample_logs \<and>
   distinct (map fst [(''0xA'', 20 :: int), (''0xB'', 4)]) \<and>
   fst ` set [(''0xA'', 20 :: int), (''0xB'', 4)] =
     tfl_Address ` {l \<in> set sample_logs. \<not> isBalanceIgnoredTaskFeeLogType (tfl_Type l)}"
  by (rule merge_exact [OF sample_merge])


definition ledger_db :: db where
  "ledger_db = empty_db\<lparr>db_relay_accounts := [\<lparr>ra_ID = 1, ra_Address = ''0xA'', ra_Balance = 100\<rparr>],
     db_next_relay_account_id := 2\<rparr>"

definition start_checkpoint :: task_fee_checkpoint where
  "start_checkpoint = \<lparr>tc_LatestTaskFeeLogID = 4, tc_LatestTaskFeeLogTimestamp = 0\<rparr>"

lemma sample_env_quiet: "ledger_quiet sample_env"
  by (simp add: ledger_quiet_def)

definition batch_world :: world where
  "batch_world = snd (applyTaskFeeLogBatch sample_env sample_logs start_checkpoint (world_of ledger_db))"

definition end_checkpoint :: task_fee_checkpoint where
  "end_checkpoint = \<lparr>tc_LatestTaskFeeLogID = 7, tc_LatestTaskFeeLogTimestamp = 60\<rparr>"

lemma batch_run:
  "applyTaskFeeLogBatch sample_env sample_logs start_checkpoint (world_of ledger_db) =
   (Inr end_checkpoint, batch_world)"
proof -
  have "fst (applyTaskFeeLogBatch sample_env sample_logs start_checkpoint (world_of ledger_db)) = Inr end_checkpoint"
    by code_simp
  then show ?thesis by (simp add: batch_world_def prod_eq_iff)
qed

lemma batch_book: "book (w_db batch_world) = [(''0xA'', 120), (''0xB'', 4)]"
  by code_simp


section \<open>Deposits\<close>


definition deposit_log :: task_fee_log where
  "deposit_log = \<lparr>tfl_ID = 9, tfl_CreatedAt = 60, tfl_Address = ''0xA'', tfl_Amount = ''7'',
     tfl_Type = TaskFeeLogTypeDeposit, tfl_Payload = ''deposit''\<rparr>"

definition deposit_world :: world where
  "deposit_world = snd (applyTaskFeeLogBatch sample_env [deposit_log] start_checkpoint (world_of ledger_db))"

lemma deposit_run:
  "applyTaskFeeLogBatch sample_env [deposit_log] start_checkpoint (world_of ledger_db) =
   (Inr \<lparr>tc_LatestTaskFeeLogID = 9, tc_LatestTaskFeeLogTimestamp = 60\<rparr>, deposit_world)"
proof -
  have "fst (applyTaskFeeLogBatch sample_env [deposit_log] start_checkpoint (world_of ledger_db)) =
    Inr \<lparr>tc_LatestTaskFeeLogID = 9, tc_LatestTaskFeeLogTimestamp = 60\<rparr>"
    by code_simp
  then show ?thesis by (simp add: deposit_world_def prod_eq_iff)
qed


text \<open>What a validated deposit looks like on chain.\<close>

definition on_chain_transfer ::
  "env \<Rightarrow> client \<Rightarrow> deposit_payload \<Rightarrow> receipt \<Rightarrow> task_fee_log \<Rightarrow> int \<Rightarrow> bool" where
  "on_chain_transfer E client payload receipt eventLog amount \<longleftrightarrow>
     (\<exists>cfg. blockchain_of (env_cfg E) (dp_Network payload) = Some cfg \<and>
       (bc_TokenType cfg = TokenTypeNative \<and>
        (\<exists>t raw transfer. env_GetTransactionByHash E t (cl_Network client)
             (eth_HexToHash (env_lib E) (dp_TxHash payload)) = Inr raw \<and>
           parseRawTransactionTransfer (env_lib E) raw
             (eth_HexToHash (env_lib E) (dp_TxHash payload)) = Inr transfer \<and>
           native_transfer_matches E transfer eventLog amount) \<or>
        bc_TokenType cfg = TokenTypeERC20 \<and>
        (\<exists>l \<in> set (rc_Logs receipt). is_deposit_transfer E (bc_TokenAddress cfg) eventLog amount l)))"

definition recent_block :: "env \<Rightarrow> client \<Rightarrow> receipt \<Rightarrow> bool" where
  "recent_block E client receipt \<longleftrightarrow>
     (\<exists>n t header t'. rc_BlockNumber receipt = Some n \<and>
        env_HeaderByNumber E t (cl_Network client) (Some n) = Inr header \<and>
        \<not> too_old (hd_Time header) (stf_DepositMaxAgeSeconds (cfg_SyncTaskFeeLogs (env_cfg E)))
          (env_now E t'))"

lemma deposit_age_ok:
  "check_deposit_age E client receipt w = (Inr u, w') \<Longrightarrow> recent_block E client receipt"
  unfolding check_deposit_age_def recent_block_def
  by (auto simp: and_then_ok ask_def time_now_def return_err_def split: option.splits if_splits)

lemma erc20_logs_ok:
  "validate_erc20_logs E client receipt eventLog amount token ls w = (Inr u, w') \<Longrightarrow>
   recent_block E client receipt \<and> (\<exists>l \<in> set ls. is_deposit_transfer E token eventLog amount l)"
  by (induction ls) (auto simp: return_err_def split: if_splits dest: deposit_age_ok)

lemma native_deposit_ok:
  assumes "validateNativeDepositLog E client receipt txHash eventLog amount w = (Inr u, w')"
  shows "recent_block E client receipt \<and>
    (\<exists>t raw transfer. env_GetTransactionByHash E t (cl_Network client) txHash = Inr raw \<and>
       parseRawTransactionTransfer (env_lib E) raw txHash = Inr transfer \<and>
       native_transfer_matches E transfer eventLog amount)"
proof -
  from assms obtain r w1 where r: "try_result (GetTransactionTransfer E client txHash) w = (Inr r, w1)"
    and k: "(case r of
         Inl e \<Rightarrow>
           if e = EthereumNotFound then
             return_err (ErrorsNew (''deposit transaction not found: '' @ eth_HashHex (env_lib E) txHash))
           else return_err e
       | Inr transfer \<Rightarrow>
           if \<not> native_transfer_matches E transfer eventLog amount then
             return_err (TaskFeeError ErrTaskFeeDepositTxMismatch)
           else check_deposit_age E client receipt) w1 = (Inr u, w')"
    unfolding validateNativeDepositLog_def and_then_ok by blast
  from k obtain transfer where "r = Inr transfer" "native_transfer_matches E transfer eventLog amount"
    "check_deposit_age E client receipt w1 = (Inr u, w')"
    by (auto simp: return_err_def split: sum.splits if_splits)
  with r deposit_age_ok show ?thesis
    by (auto simp: try_result_def GetTransactionTransfer_def and_then_def ask_def lift_sum_def
        split: sum.splits prod.splits if_splits)
qed

lemma by_token_ok:
  assumes "validate_by_token E payload client receipt eventLog amount w = (Inr u, w')"
  shows "recent_block E client receipt \<and> on_chain_transfer E client payload receipt eventLog amount"
proof -
  from assms obtain cfg where cfg: "blockchain_of (env_cfg E) (dp_Network payload) = Some cfg"
    by (auto simp: validate_by_token_def return_err_def split: option.splits)
  with assms consider
      "bc_TokenType cfg = TokenTypeNative" "validateNativeDepositLog E client receipt
              (eth_HexToHash (env_lib E) (dp_TxHash payload)) eventLog amount w = (Inr u, w')"
    | "bc_TokenType cfg = TokenTypeERC20"
      "validateERC20DepositLog E client receipt eventLog amount (bc_TokenAddress cfg) w = (Inr u, w')"
    by (auto simp: validate_by_token_def return_err_def split: if_splits)
  then show ?thesis
  proof cases
    case 1
    from native_deposit_ok [OF 1(2)] cfg 1(1) show ?thesis unfolding on_chain_transfer_def by blast
  next
    case 2
    from erc20_logs_ok [OF 2(2) [unfolded validateERC20DepositLog_def]] cfg 2(1)
    show ?thesis unfolding on_chain_transfer_def by blast
  qed
qed


text \<open>A chain on which the sample deposit was made: seven units from \<open>0xA\<close> to the deposit address.\<close>

definition chain_env :: env where
  "chain_env = sample_env
     \<lparr>env_lib := sample_lib\<lparr>eth_Decode := (\<lambda>s. if s = ''0x'' then Inr [] else Inr (replicate (length s) 1))\<rparr>,
      env_TransactionReceipt := (\<lambda>t n h. Inr \<lparr>rc_Status = 1, rc_BlockNumber = Some 90, rc_GasUsed = 21000,
        rc_EffectiveGasPrice = 1, rc_Logs = []\<rparr>),
      env_GetTransactionByHash := (\<lambda>t n h. Inr (Some \<lparr>raw_Hash = replicate 32 (CHR ''1''),
        raw_From = ''0xA'', raw_To = ''0xD'', raw_Value = ''0x00007'', raw_Input = ''0x'', raw_Data = []\<rparr>))\<rparr>"

lemma deposit_check:
  "validateDepositLog chain_env deposit_log (client_world ledger_db) =
   (Inr (), snd (validateDepositLog chain_env deposit_log (client_world ledger_db)))"
proof -
  have "fst (validateDepositLog chain_env deposit_log (client_world ledger_db)) = Inr ()"
    by code_simp
  then show ?thesis by (simp add: prod_eq_iff)
qed


text \<open>
  As long as the block time plus the configured age fits in 64 bits, the age test is the comparison
  of the numbers; a clock after 1970 is assumed.
\<close>
theorem deposit_age_exact:
  assumes "uint headerTime + uint maxAge < 2 ^ 64" and "0 \<le> now" and "unix_seconds now < 2 ^ 64"
  shows "too_old headerTime maxAge now \<longleftrightarrow> uint headerTime + uint maxAge < unix_seconds now"
proof -
  have "uint (headerTime + maxAge) = uint headerTime + uint maxAge"
    using assms(1) by (simp add: uint_plus_if_size word_size)
  moreover have "uint (word_of_int (unix_seconds now) :: 64 word) = unix_seconds now"
    using assms(2,3) by (simp add: uint_word_of_int unix_seconds_def)
  ultimately show ?thesis by (simp add: too_old_def word_less_def)
qed

theorem deposit_age_exact_witness:
  "too_old 1000 3600 5000000000000 \<longleftrightarrow> uint (1000 :: 64 word) + uint (3600 :: 64 word) < unix_seconds 5000000000000"
  by (rule deposit_age_exact) (simp_all add: unix_seconds_def)

section \<open>The loop\<close>


text \<open>A Relay with one event for the account.\<close>

definition relay_env :: env where
  "relay_env = sample_env
     \<lparr>env_DecodeJSON := (\<lambda>s. Inr (JObj [(''data'', JArr [JObj [(''id'', JNum ''5''), (''created_at'', JNum ''60''),
        (''address'', JStr ''0xA''), (''amount'', JStr ''30''), (''type'', JNum ''0'')]])])),
      env_ParseJSON := (\<lambda>s. Inr (JObj []))\<rparr>"

definition relay_world :: world where
  "relay_world = snd (syncTaskFeeLogs relay_env 1 (world_of ledger_db))"

lemma relay_world_books: "book (w_db relay_world) = [(''0xA'', 130)]" "pivot (w_db relay_world) = 5"
  by code_simp+


section \<open>What the checks let through\<close>

text \<open>
  C19: an event that passes the check has a known type and a number as its amount; task income, the DAO
  share, refunds and delegations credit at most the configured maximum; a withdrawal fee goes to the
  configured address; the creation of a vesting moves nothing.
\<close>
theorem checked_event_bounded:
  assumes "check_log E l w = (Inr u, w')"
  shows "isSupportedTaskFeeLogType (tfl_Type l) \<and> parse_big (tfl_Amount l) \<noteq> None \<and>
    (tfl_Type l \<in> {TaskFeeLogTypeTaskIncome, TaskFeeLogTypeDaoTaskShare, TaskFeeLogTypeTaskRefund,
        TaskFeeLogTypeUserDelegation} \<longrightarrow> balance_change l \<le> maxTaskFeeAmount E) \<and>
    (tfl_Type l = TaskFeeLogTypeTaskPayment \<longrightarrow> - maxTaskFeeAmount E \<le> balance_change l) \<and>
    (tfl_Type l = TaskFeeLogTypeWithdrawalFeeIncome \<longrightarrow>
      EqualFold (tfl_Address l) (rel_WithdrawalFeeAddress (cfg_Relay (env_cfg E)))) \<and>
    (tfl_Type l = TaskFeeLogTypeVestingCreated \<longrightarrow> parse_big (tfl_Amount l) = Some 0)"
proof -
  from assms obtain x where x: "isSupportedTaskFeeLogType (tfl_Type l)" "parse_big (tfl_Amount l) = Some x"
    by (auto simp: check_log_def return_err_def split: if_splits option.splits)
  have t: "TaskFeeLogTypeTaskIncome = 0" "TaskFeeLogTypeDaoTaskShare = 1" "TaskFeeLogTypeWithdrawalFeeIncome = 2"
    "TaskFeeLogTypeDeposit = 3" "TaskFeeLogTypeTaskPayment = 4" "TaskFeeLogTypeTaskRefund = 5"
    "TaskFeeLogTypeWithdraw = 6" "TaskFeeLogTypeWithdrawRefund = 7" "TaskFeeLogTypeUserDelegation = 8"
    "TaskFeeLogTypeVestingCreated = 9" "TaskFeeLogTypeVestingRelease = 10"
    by (simp_all add: log_type_defs)
  show ?thesis
    using assms x
    by (auto simp: check_log_def balance_change_def isBalanceIgnoredTaskFeeLogType_def t return_err_def
        split: if_splits)
qed

theorem checked_event_bounded_witness:
  "balance_change (fee_log 5 ''0xA'' ''30'' TaskFeeLogTypeTaskIncome) \<le> maxTaskFeeAmount sample_env"
proof -
  let ?l = "fee_log 5 ''0xA'' ''30'' TaskFeeLogTypeTaskIncome"
  have "fst (check_log sample_env ?l (world_of ledger_db)) = Inr ()" by code_simp
  then have "check_log sample_env ?l (world_of ledger_db) = (Inr (), snd (check_log sample_env ?l (world_of ledger_db)))"
    by (simp add: prod_eq_iff)
  from checked_event_bounded [OF this] show ?thesis by (simp add: fee_log_def)
qed

text \<open>
  C23: the maximum bounds payments from one side only. A payment event with a negative amount of any
  size passes the check and credits the account with it.
\<close>
theorem negative_payment_credits:
  assumes "0 \<le> n" and "0 \<le> maxTaskFeeAmount E"
  shows "check_log E (fee_log i a (show_int (- n)) TaskFeeLogTypeTaskPayment) w = (Inr (), w) \<and>
    mergeTaskFeeLogs [fee_log i a (show_int (- n)) TaskFeeLogTypeTaskPayment] = Inr [(a, n)]"
  using assms
  by (simp add: check_log_def fee_log_def log_type_defs isSupportedTaskFeeLogType_def
      isBalanceIgnoredTaskFeeLogType_def return_ok_def mergeTaskFeeLogs_def signed_amount_def add_to_def
      map_default_def)

theorem negative_payment_credits_witness:
  "mergeTaskFeeLogs [fee_log 5 ''0xA'' (show_int (- (10 ^ 30))) TaskFeeLogTypeTaskPayment] = Inr [(''0xA'', 10 ^ 30)]"
proof -
  have "0 \<le> maxTaskFeeAmount sample_env" by code_simp
  from negative_payment_credits [OF _ this, of "10 ^ 30" 5 "''0xA''" "world_of ledger_db"] show ?thesis by simp
qed

text \<open>
  The income from withdrawal fees is not subject to the maximum: any amount passes the check when
  the event names the configured address.
\<close>
theorem fee_income_unbounded:
  "check_log E (fee_log i (rel_WithdrawalFeeAddress (cfg_Relay (env_cfg E))) (show_int n)
     TaskFeeLogTypeWithdrawalFeeIncome) w = (Inr (), w) \<and>
   mergeTaskFeeLogs [fee_log i a (show_int n) TaskFeeLogTypeWithdrawalFeeIncome] = Inr [(a, n)]"
  by (simp add: check_log_def fee_log_def log_type_defs isSupportedTaskFeeLogType_def
      isBalanceIgnoredTaskFeeLogType_def return_ok_def mergeTaskFeeLogs_def signed_amount_def add_to_def
      map_default_def)

text \<open>
  A schedule in which the processor debits the account by 50 after the sync has read it and before it
  writes it back.
\<close>

definition racing_env :: env where
  "racing_env = sample_env\<lparr>env_others := (\<lambda>t. if t = 2 then [OtherCredit ''0xA'' (- 50)] else [])\<rparr>"


end
