(* ===== verification/Withdraw_Auth.thy ===== *)
theory Withdraw_Auth
  imports Vesting Relay_Api
begin

text \<open>
  \<open>tasks/process_withdrawal_requests.go\<close> and \<open>models/withdraw.go\<close>: amounts, the signed authorization of
  a withdrawal and its fingerprint, and the updates of a record. The record the processor works on is
  \<open>w_record\<close>, its copy in memory.
\<close>

section \<open>Amounts\<close>

definition parseWithdrawalAmount :: "string \<Rightarrow> go_error + int" where
  "parseWithdrawalAmount amountText =
     (case parse_big amountText of
        None \<Rightarrow> Inl (WithdrawalRequestError ErrWithdrawalRequestAmountInvalid)
      | Some amount \<Rightarrow>
          if amount < 0 then Inl (WithdrawalRequestError ErrWithdrawalRequestAmountInvalid)
          else Inr amount)"

definition withdrawalTotalAmount :: "int \<Rightarrow> int \<Rightarrow> int" where
  "withdrawalTotalAmount amount withdrawalFee = amount + withdrawalFee"

section \<open>Authorization\<close>

definition buildWithdrawalAuthorizationMessage ::
  "string \<Rightarrow> string \<Rightarrow> string \<Rightarrow> string \<Rightarrow> int \<Rightarrow> string" where
  "buildWithdrawalAuthorizationMessage addr amount benefitAddress network timestamp =
     (let action = ''Withdraw '' @ amount @ '' from '' @ addr @ '' to '' @ benefitAddress @
            '' on '' @ network
      in ''Crynux Relay'' @ newline @ ''Action: '' @ action @ newline @ ''Address: '' @ addr @
         newline @ ''Timestamp: '' @ show_int timestamp)"

definition validateWithdrawalAuthorization ::
  "ethlib \<Rightarrow> string \<Rightarrow> string \<Rightarrow> string \<Rightarrow> string \<Rightarrow> int option \<Rightarrow> string option \<Rightarrow> go_error + string" where
  "validateWithdrawalAuthorization L addr amount benefitAddress network timestamp signature =
     (case (timestamp, signature) of
        (Some time, Some sig) \<Rightarrow>
          if TrimSpace sig = [] then Inl (AuthorizationError ErrWithdrawalAuthorizationMissing)
          else (case eth_Decode L (''0x'' @ TrimPrefix sig ''0x'') of
            Inl e \<Rightarrow> Inl (AuthorizationError ErrWithdrawalAuthorizationInvalid)
          | Inr sigBytes \<Rightarrow>
              if length sigBytes \<noteq> 65 then Inl (AuthorizationError ErrWithdrawalAuthorizationInvalid)
              else
                (let message = buildWithdrawalAuthorizationMessage addr amount benefitAddress network time;
                     digest = eth_Keccak256 L (eth_message_prefix (length message) @ message)
                 in case eth_SigToPub L digest (normalize_signature sigBytes) of
                      Inl e \<Rightarrow> Inl (AuthorizationError ErrWithdrawalAuthorizationInvalid)
                    | Inr publicKey \<Rightarrow>
                        if \<not> EqualFold (eth_AddressHex L (eth_PubkeyToAddress L publicKey)) addr
                        then Inl (AuthorizationError ErrWithdrawalAuthorizationAddressMismatch)
                        else Inr (eth_Sha256Hex L message)))
      | _ \<Rightarrow> Inl (AuthorizationError ErrWithdrawalAuthorizationMissing))"

definition withdrawalRequestAuthorization ::
  "ethlib \<Rightarrow> withdrawal_request \<Rightarrow> int \<Rightarrow> go_error + string" where
  "withdrawalRequestAuthorization L request amount =
     validateWithdrawalAuthorization L (wq_Address request) (show_int amount)
       (wq_BenefitAddress request) (wq_Network request)
       (sql_null (wq_Timestamp request \<noteq> 0) (wq_Timestamp request))
       (sql_null (wq_Signature request \<noteq> []) (wq_Signature request))"

definition withdrawalRecordAuthorization :: "ethlib \<Rightarrow> withdraw_record \<Rightarrow> go_error + string" where
  "withdrawalRecordAuthorization L rcd =
     validateWithdrawalAuthorization L (wr_Address rcd) (show_int (wr_Amount rcd))
       (wr_BenefitAddress rcd) (wr_Network rcd) (wr_Timestamp rcd) (wr_Signature rcd)"

section \<open>Records\<close>

definition the_record :: "(world, withdraw_record) action" where
  "the_record = reads w_record"

definition set_record :: "(withdraw_record \<Rightarrow> withdraw_record) \<Rightarrow> (world, unit) action" where
  "set_record f = writes (\<lambda>w. w\<lparr>w_record := f (w_record w)\<rparr>)"

text \<open>\<open>UPDATE withdraw_records SET ... WHERE id = i\<close>.\<close>

definition update_record :: "nat \<Rightarrow> (withdraw_record \<Rightarrow> withdraw_record) \<Rightarrow> db \<Rightarrow> (go_error + unit) \<times> db" where
  "update_record i u d = (Inr (), update_records (\<lambda>r. wr_ID r = i) u d)"

text \<open>\<open>Save\<close> writes the whole row back unless it conflicts with another row.\<close>

definition save_record :: "withdraw_record \<Rightarrow> db \<Rightarrow> (go_error + unit) \<times> db" where
  "save_record rcd d =
     (if \<exists>q \<in> set (db_withdraw_records d). wr_ID q \<noteq> wr_ID rcd \<and> conflicts rcd q
      then (Inl ErrDuplicatedKey, d)
      else update_record (wr_ID rcd) (\<lambda>_. rcd) d)"

definition UpdateStatus :: "env \<Rightarrow> withdraw_status \<Rightarrow> (world, unit) action" where
  "UpdateStatus E status =
     and_then the_record (\<lambda>w.
     and_then (db_action E (update_record (wr_ID w) (\<lambda>r. r\<lparr>wr_Status := status\<rparr>))) (\<lambda>_.
       set_record (\<lambda>r. r\<lparr>wr_Status := status\<rparr>)))"

text \<open>The unique index on the fingerprint rejects one that another row has.\<close>

definition update_fingerprint :: "nat \<Rightarrow> string \<Rightarrow> db \<Rightarrow> (go_error + unit) \<times> db" where
  "update_fingerprint i fingerprint d =
     (if (\<exists>r \<in> set (db_withdraw_records d). wr_ID r = i) \<and>
         (\<exists>r \<in> set (db_withdraw_records d). wr_ID r \<noteq> i \<and> wr_AuthorizationFingerprint r = Some fingerprint)
      then (Inl ErrDuplicatedKey, d)
      else update_record i (\<lambda>r. r\<lparr>wr_AuthorizationFingerprint := Some fingerprint\<rparr>) d)"

definition ensureWithdrawalAuthorizationFingerprint :: "env \<Rightarrow> (world, unit) action" where
  "ensureWithdrawalAuthorizationFingerprint E =
     and_then the_record (\<lambda>rcd.
     and_then (lift_sum (withdrawalRecordAuthorization (env_lib E) rcd)) (\<lambda>fingerprint.
       case wr_AuthorizationFingerprint rcd of
         Some stored \<Rightarrow>
           if stored \<noteq> fingerprint then
             return_err (AuthorizationError ErrWithdrawalAuthorizationInvalid)
           else return_ok ()
       | None \<Rightarrow>
           and_then (db_query E (\<lambda>d. Inr (length (filter (\<lambda>r.
               wr_AuthorizationFingerprint r = Some fingerprint \<and> wr_ID r \<noteq> wr_ID rcd)
               (db_withdraw_records d))))) (\<lambda>existingCount.
             if existingCount > 0 then
               return_err (AuthorizationError ErrWithdrawalAuthorizationReplayed)
             else
               and_then (set_record (\<lambda>r. r\<lparr>wr_AuthorizationFingerprint := Some fingerprint\<rparr>)) (\<lambda>_.
                 db_action E (update_fingerprint (wr_ID rcd) fingerprint)))))"

section \<open>What a valid authorization says\<close>

lemma authorization_ok:
  assumes "validateWithdrawalAuthorization L addr amount benefit network timestamp signature = Inr fp"
  shows "\<exists>time sig sigBytes key. timestamp = Some time \<and> signature = Some sig \<and>
    eth_Decode L (''0x'' @ TrimPrefix sig ''0x'') = Inr sigBytes \<and> length sigBytes = 65 \<and>
    (let message = buildWithdrawalAuthorizationMessage addr amount benefit network time in
     eth_SigToPub L (eth_Keccak256 L (eth_message_prefix (length message) @ message))
       (normalize_signature sigBytes) = Inr key \<and> fp = eth_Sha256Hex L message) \<and>
    EqualFold (eth_AddressHex L (eth_PubkeyToAddress L key)) addr"
  using assms
  by (auto simp: validateWithdrawalAuthorization_def Let_def split: option.splits if_splits sum.splits)

text \<open>A text up to the first occurrence of a character determines the parts.\<close>

lemma append_at_char:
  assumes "c \<notin> set xs" and "c \<notin> set ys" and "xs @ c # us = ys @ c # vs"
  shows "xs = ys \<and> us = vs"
  using assms
proof (induction xs arbitrary: ys)
  case Nil
  then show ?case by (cases ys) auto
next
  case (Cons x xs)
  then show ?case by (cases ys) auto
qed

lemma authorization_message_inject:
  assumes eq: "buildWithdrawalAuthorizationMessage a m b n t = buildWithdrawalAuthorizationMessage a' m' b' n' t'"
    and sp: "CHR '' '' \<notin> set a" "CHR '' '' \<notin> set m" "CHR '' '' \<notin> set b"
      "CHR '' '' \<notin> set a'" "CHR '' '' \<notin> set m'" "CHR '' '' \<notin> set b'"
    and nl: "char_of (10::nat) \<notin> set n" "char_of (10::nat) \<notin> set n'"
  shows "a = a' \<and> m = m' \<and> b = b' \<and> n = n' \<and> t = t'"
proof -
  from eq have e1: "m @ CHR '' '' # (''from '' @ a @ '' to '' @ b @ '' on '' @ n @ newline @ ''Address: '' @ a @
      newline @ ''Timestamp: '' @ show_int t) =
    m' @ CHR '' '' # (''from '' @ a' @ '' to '' @ b' @ '' on '' @ n' @ newline @ ''Address: '' @ a' @
      newline @ ''Timestamp: '' @ show_int t')"
    by (simp add: buildWithdrawalAuthorizationMessage_def Let_def)
  note m = append_at_char [OF sp(2,5) e1]
  from conjunct2 [OF m] have e2: "a @ CHR '' '' # (''to '' @ b @ '' on '' @ n @ newline @ ''Address: '' @ a @
      newline @ ''Timestamp: '' @ show_int t) =
    a' @ CHR '' '' # (''to '' @ b' @ '' on '' @ n' @ newline @ ''Address: '' @ a' @
      newline @ ''Timestamp: '' @ show_int t')" by simp
  note a = append_at_char [OF sp(1,4) e2]
  from conjunct2 [OF a] have e3: "b @ CHR '' '' # (''on '' @ n @ newline @ ''Address: '' @ a @
      newline @ ''Timestamp: '' @ show_int t) =
    b' @ CHR '' '' # (''on '' @ n' @ newline @ ''Address: '' @ a' @
      newline @ ''Timestamp: '' @ show_int t')" by simp
  note b = append_at_char [OF sp(3,6) e3]
  from conjunct2 [OF b] have e4: "n @ char_of (10::nat) # (''Address: '' @ a @ newline @ ''Timestamp: '' @ show_int t) =
    n' @ char_of (10::nat) # (''Address: '' @ a' @ newline @ ''Timestamp: '' @ show_int t')"
    by (simp add: newline_def)
  note n = append_at_char [OF nl(1,2) e4]
  with a have "show_int t = show_int t'" by simp
  with m a b n show ?thesis by (simp add: show_int_inject)
qed

end
