(* ===== verification/Withdraw_Sync.thy ===== *)
theory Withdraw_Sync
  imports Withdraw_Auth
begin

text \<open>
  \<open>tasks/process_withdrawal_requests.go\<close>: checking the withdrawal requests the Relay hands out, the
  daily limits, and storing them as records with the checkpoint.
\<close>

section \<open>Checking requests\<close>

definition minWithdrawalAmount :: "env \<Rightarrow> int" where
  "minWithdrawalAmount E = EtherToWei (uint (swr_MinWithdrawalAmount (cfg_SyncWithdrawalRequests (env_cfg E))))"

fun check_amounts :: "int \<Rightarrow> withdrawal_request list \<Rightarrow> go_error + unit" where
  "check_amounts low [] = Inr ()"
| "check_amounts low (request # requests) =
     bind_sum (parseWithdrawalAmount (wq_Amount request)) (\<lambda>amount.
     bind_sum (parseWithdrawalAmount (wq_WithdrawalFee request)) (\<lambda>withdrawalFee.
       if amount < low then Inl (WithdrawalRequestError ErrWithdrawalRequestAmountTooSmall)
       else if withdrawalTotalAmount amount withdrawalFee \<le> 0 then
         Inl (WithdrawalRequestError ErrWithdrawalRequestAmountInvalid)
       else check_amounts low requests))"

text \<open>The second loop: what the batch takes from every address.\<close>

definition add_total :: "string \<Rightarrow> int \<Rightarrow> (string \<times> int) list \<Rightarrow> (string \<times> int) list" where
  "add_total a x m = AList.update a (map_default 0 m a + x) m"

fun sum_requests ::
  "(string \<times> int) list \<Rightarrow> withdrawal_request list \<Rightarrow> go_error + (string \<times> int) list" where
  "sum_requests m [] = Inr m"
| "sum_requests m (request # requests) =
     (if wq_Status request \<noteq> RelayWithdrawStatusPending then
        Inl (WithdrawalRequestError ErrWithdrawalRequestStatusInvalid)
      else
        bind_sum (parseWithdrawalAmount (wq_Amount request)) (\<lambda>amount.
        bind_sum (parseWithdrawalAmount (wq_WithdrawalFee request)) (\<lambda>withdrawalFee.
          sum_requests (add_total (wq_Address request) (withdrawalTotalAmount amount withdrawalFee) m)
            requests)))"

fun check_balances :: "(string \<times> int) list \<Rightarrow> relay_account list \<Rightarrow> go_error + unit" where
  "check_balances m [] = Inr ()"
| "check_balances m (account # accounts) =
     (if map_default 0 m (ra_Address account) > ra_Balance account
      then Inl (WithdrawalRequestError ErrWithdrawalRequestAmountTooLarge)
      else check_balances m accounts)"

section \<open>Daily limits\<close>

text \<open>Counts are 64-bit words, keyed by network and address.\<close>

type_synonym limit_counts = "((string \<times> string) \<times> 64 word) list"

definition bump :: "string \<times> string \<Rightarrow> limit_counts \<Rightarrow> limit_counts" where
  "bump k counts = AList.update k (map_default 0 counts k + 1) counts"

definition bump_known :: "string \<times> string \<Rightarrow> limit_counts \<Rightarrow> limit_counts" where
  "bump_known k counts = (if map_of counts k = None then counts else bump k counts)"

fun limits_of ::
  "env \<Rightarrow> (string \<times> 64 word) list \<Rightarrow> withdrawal_request list \<Rightarrow> go_error + (string \<times> 64 word) list" where
  "limits_of E limits [] = Inr limits"
| "limits_of E limits (request # requests) =
     (case blockchain_of (env_cfg E) (wq_Network request) of
        None \<Rightarrow> Inl (WithdrawalRequestError ErrWithdrawalRequestNetworkInvalid)
      | Some blockchainConfig \<Rightarrow>
          if bc_MaxWithdrawalsPerDay blockchainConfig = 0 then
            Inl (WithdrawalRequestError ErrWithdrawalRequestNetworkInvalid)
          else limits_of E (AList.update (wq_Network request) (bc_MaxWithdrawalsPerDay blockchainConfig) limits)
                 requests)"

definition requester_key :: "withdrawal_request \<Rightarrow> string \<times> string" where
  "requester_key request = (wq_Network request, wq_Address request)"

definition benefit_key :: "withdrawal_request \<Rightarrow> string \<times> string" where
  "benefit_key request = (wq_Network request, wq_BenefitAddress request)"

text \<open>The records of the day that count against the limits.\<close>

definition counts_today ::
  "withdrawal_request list \<Rightarrow> int \<Rightarrow> withdraw_record \<Rightarrow> bool" where
  "counts_today requests dayStart r \<longleftrightarrow>
     wr_Network r \<in> wq_Network ` set requests \<and>
     (wr_Address r \<in> wq_Address ` set requests \<or> wr_BenefitAddress r \<in> wq_BenefitAddress ` set requests) \<and>
     wr_CreatedAt r \<ge> dayStart \<and>
     wr_Status r \<notin> {WithdrawStatusFailed, WithdrawStatusFinishedRejected} \<and>
     wr_RemoteID r \<notin> wq_ID ` set requests"

fun checkWithdrawalDailyLimitCounts ::
  "limit_counts \<Rightarrow> (string \<times> 64 word) list \<Rightarrow> go_error + unit" where
  "checkWithdrawalDailyLimitCounts [] limits = Inr ()"
| "checkWithdrawalDailyLimitCounts ((key, count) # counts) limits =
     (if count > map_default 0 limits (fst key) then
        Inl (WithdrawalRequestError ErrWithdrawalRequestDailyLimitExceeded)
      else checkWithdrawalDailyLimitCounts counts limits)"

definition checkWithdrawalDailyLimit :: "env \<Rightarrow> withdrawal_request list \<Rightarrow> (world, unit) action" where
  "checkWithdrawalDailyLimit E requests =
     (if requests = [] then return_ok ()
      else and_then (lift_sum (limits_of E [] requests)) (\<lambda>limits.
        let requesterCounts = fold bump (map requester_key requests) [];
            benefitCounts = fold bump (map benefit_key requests) [] in
        and_then (time_now E) (\<lambda>now.
        and_then (db_query E (\<lambda>d. Inr (filter (counts_today requests (now div day * day)) (db_withdraw_records d))))
          (\<lambda>storedRecords.
            let requesterCounts = fold bump_known (map (\<lambda>r. (wr_Network r, wr_Address r)) storedRecords) requesterCounts;
                benefitCounts = fold bump_known (map (\<lambda>r. (wr_Network r, wr_BenefitAddress r)) storedRecords) benefitCounts
            in and_then (lift_sum (checkWithdrawalDailyLimitCounts requesterCounts limits)) (\<lambda>_.
                 lift_sum (checkWithdrawalDailyLimitCounts benefitCounts limits))))))"

fun check_benefit_addresses :: "env \<Rightarrow> withdrawal_request list \<Rightarrow> (world, unit) action" where
  "check_benefit_addresses E [] = return_ok ()"
| "check_benefit_addresses E (request # requests) =
     and_then (GetBenefitAddress E (eth_HexToAddress (env_lib E) (wq_Address request)) (wq_Network request))
       (\<lambda>ba. if \<not> EqualFold (eth_AddressHex (env_lib E) ba) (wq_BenefitAddress request) then
               return_err (WithdrawalRequestError ErrWithdrawalRequestBeneficialAddressInvalid)
             else check_benefit_addresses E requests)"

definition checkWithdrawalRequests :: "env \<Rightarrow> withdrawal_request list \<Rightarrow> (world, unit) action" where
  "checkWithdrawalRequests E requests =
     and_then (lift_sum (check_amounts (minWithdrawalAmount E) requests)) (\<lambda>_.
     and_then (lift_sum (sum_requests [] requests)) (\<lambda>amountMap.
     and_then (db_query E (\<lambda>d. Inr (filter (\<lambda>r. ra_Address r \<in> fst ` set amountMap) (db_relay_accounts d))))
       (\<lambda>accounts.
         if length accounts \<noteq> length amountMap then
           return_err (WithdrawalRequestError ErrWithdrawalRequestAddressNotExists)
         else
           and_then (lift_sum (check_balances amountMap accounts)) (\<lambda>_.
           and_then (checkWithdrawalDailyLimit E requests) (\<lambda>_.
             check_benefit_addresses E requests)))))"

section \<open>Storing requests\<close>

definition new_record :: "withdrawal_request \<Rightarrow> int \<Rightarrow> int \<Rightarrow> withdraw_record" where
  "new_record request amount withdrawalFee =
     \<lparr>wr_ID = 0, wr_CreatedAt = 0, wr_RemoteID = wq_ID request, wr_Address = wq_Address request,
      wr_BenefitAddress = wq_BenefitAddress request, wr_Amount = amount,
      wr_WithdrawalFee = withdrawalFee, wr_Network = wq_Network request,
      wr_Status = WithdrawStatusPending, wr_BlockchainTransactionID = None,
      wr_Timestamp = sql_null (wq_Timestamp request \<noteq> 0) (wq_Timestamp request),
      wr_Signature = sql_null (wq_Signature request \<noteq> []) (wq_Signature request),
      wr_AuthorizationFingerprint = None\<rparr>"

text \<open>The authorization of a request, or the error that marks its record as failed.\<close>

definition authorize_request ::
  "env \<Rightarrow> string list \<Rightarrow> withdrawal_request \<Rightarrow> int \<Rightarrow> (world, go_error + string) action" where
  "authorize_request E seenFingerprints request amount =
     (case withdrawalRequestAuthorization (env_lib E) request amount of
        Inl authorizationErr \<Rightarrow> return_ok (Inl authorizationErr)
      | Inr fingerprint \<Rightarrow>
          if fingerprint \<in> set seenFingerprints then
            return_ok (Inl (AuthorizationError ErrWithdrawalAuthorizationReplayed))
          else
            and_then (db_query E (\<lambda>d. Inr (length (filter (\<lambda>r.
                wr_AuthorizationFingerprint r = Some fingerprint \<and> wr_RemoteID r \<noteq> wq_ID request)
                (db_withdraw_records d))))) (\<lambda>existingCount.
              if existingCount > 0 then
                return_ok (Inl (AuthorizationError ErrWithdrawalAuthorizationReplayed))
              else return_ok (Inr fingerprint)))"

fun build_records ::
  "env \<Rightarrow> string list \<Rightarrow> withdrawal_request list \<Rightarrow>
   (world, withdraw_record list \<times> withdrawal_request list) action" where
  "build_records E seenFingerprints [] = return_ok ([], [])"
| "build_records E seenFingerprints (request # requests) =
     and_then (lift_sum (parseWithdrawalAmount (wq_Amount request))) (\<lambda>amount.
     and_then (lift_sum (parseWithdrawalAmount (wq_WithdrawalFee request))) (\<lambda>withdrawalFee.
     and_then (authorize_request E seenFingerprints request amount) (\<lambda>authorization.
       let rcd = new_record request amount withdrawalFee in
       case authorization of
         Inl authorizationErr \<Rightarrow>
           and_then (build_records E seenFingerprints requests) (\<lambda>(records, valid).
             return_ok (rcd\<lparr>wr_Status := WithdrawStatusFailed\<rparr> # records, valid))
       | Inr fingerprint \<Rightarrow>
           and_then (build_records E (fingerprint # seenFingerprints) requests) (\<lambda>(records, valid).
             return_ok (rcd\<lparr>wr_AuthorizationFingerprint := Some fingerprint\<rparr> # records,
               request # valid)))))"

text \<open>\<open>INSERT ... ON CONFLICT DO NOTHING\<close>.\<close>

fun insert_records :: "int \<Rightarrow> withdraw_record list \<Rightarrow> db \<Rightarrow> db" where
  "insert_records now [] d = d"
| "insert_records now (r # rs) d =
     (if \<exists>q \<in> set (db_withdraw_records d). conflicts r q then insert_records now rs d
      else insert_records now rs
        (d\<lparr>db_withdraw_records := db_withdraw_records d @
             [r\<lparr>wr_ID := db_next_withdraw_record_id d, wr_CreatedAt := now\<rparr>],
           db_next_withdraw_record_id := Suc (db_next_withdraw_record_id d)\<rparr>))"

text \<open>Requests wait until the task-fee sync has applied the event that reserved their amount.\<close>

definition ready_requests :: "nat \<Rightarrow> withdrawal_request list \<Rightarrow> withdrawal_request list" where
  "ready_requests latestTaskFeeLogID requests =
     takeWhile (\<lambda>request. wq_RelayAccountEventID request \<le> latestTaskFeeLogID) requests"

definition store_requests ::
  "env \<Rightarrow> withdrawal_request list \<Rightarrow> withdraw_record list \<Rightarrow> (world, withdrawal_request_checkpoint) action" where
  "store_requests E requests records =
     (let checkpoint = \<lparr>wc_LatestWithdrawalRequestID = wq_ID (last requests),
            wc_LatestWithdrawalRequestTimestamp = wq_CreatedAt (last requests)\<rparr> in
      and_then (db_transaction E
        (and_then (time_now E) (\<lambda>now.
         and_then (db_action E (\<lambda>d. (Inr () :: go_error + unit, insert_records now records d))) (\<lambda>_.
           db_action E (\<lambda>d. (Inr () :: go_error + unit, d\<lparr>db_withdrawal_request_checkpoint := Some checkpoint\<rparr>))))))
        (\<lambda>_. return_ok checkpoint))"

definition first_task_fee_checkpoint :: "env \<Rightarrow> (world, task_fee_checkpoint) action" where
  "first_task_fee_checkpoint E =
     first_or E db_task_fee_checkpoint \<lparr>tc_LatestTaskFeeLogID = 0, tc_LatestTaskFeeLogTimestamp = 0\<rparr>"

definition sync_batch ::
  "env \<Rightarrow> withdrawal_request list \<Rightarrow> (world, withdrawal_request_checkpoint) action" where
  "sync_batch E requests =
     and_then (build_records E [] requests) (\<lambda>(records, validRequests).
     and_then (if validRequests = [] then return_ok () else checkWithdrawalRequests E validRequests) (\<lambda>_.
       store_requests E requests records))"

fun withdrawal_loop :: "env \<Rightarrow> nat \<Rightarrow> withdrawal_request_checkpoint \<Rightarrow> (world, unit) action" where
  "withdrawal_loop E 0 checkpoint = return_err OutOfFuel"
| "withdrawal_loop E (Suc fuel) checkpoint =
     and_then (first_task_fee_checkpoint E) (\<lambda>taskFeeCheckpoint.
     and_then (GetWithdrawalRequests E (wc_LatestWithdrawalRequestID checkpoint)
                (sint (swr_BatchSize (cfg_SyncWithdrawalRequests (env_cfg E))))) (\<lambda>requests.
       let requests = ready_requests (tc_LatestTaskFeeLogID taskFeeCheckpoint) requests in
       if requests = [] then and_then (sleep E) (\<lambda>_. withdrawal_loop E fuel checkpoint)
       else and_then (sync_batch E requests) (\<lambda>checkpoint. withdrawal_loop E fuel checkpoint)))"

definition syncWithdrawalRequests :: "env \<Rightarrow> nat \<Rightarrow> (world, unit) action" where
  "syncWithdrawalRequests E fuel =
     and_then (first_or E db_withdrawal_request_checkpoint
        \<lparr>wc_LatestWithdrawalRequestID = 0, wc_LatestWithdrawalRequestTimestamp = 0\<rparr>) (\<lambda>checkpoint.
       withdrawal_loop E fuel checkpoint)"

fun withdrawal_sync_ticks :: "env \<Rightarrow> nat \<Rightarrow> (world, unit) action" where
  "withdrawal_sync_ticks E 0 = return_err OutOfFuel"
| "withdrawal_sync_ticks E (Suc fuel) =
     and_then (try_result (sleep E)) (\<lambda>tick.
       case tick of
         Inl _ \<Rightarrow> return_ok ()
       | Inr _ \<Rightarrow>
           and_then (try_result (syncWithdrawalRequests E fuel)) (\<lambda>r.
             case r of
               Inl e \<Rightarrow> if IsWithdrawalRequestError e then return_err e else withdrawal_sync_ticks E fuel
             | Inr _ \<Rightarrow> withdrawal_sync_ticks E fuel))"

definition StartSyncWithdrawalRequests :: "env \<Rightarrow> nat \<Rightarrow> (world, unit) action" where
  "StartSyncWithdrawalRequests E fuel =
     (if go_seconds (swr_IntervalSeconds (cfg_SyncWithdrawalRequests (env_cfg E))) \<le> 0
      then return_err (Panic ''non-positive interval for NewTicker'')
      else withdrawal_sync_ticks E fuel)"

end
