(* ===== verification/Withdraw_Checks.thy ===== *)
theory Withdraw_Checks
  imports Withdraw_Sync Fee_Ledger Sample_World
begin

text \<open>
  What a batch of withdrawal requests has passed when \<open>checkWithdrawalRequests\<close> accepts it: amounts,
  balances, daily limits and benefit addresses, against the loops over Go maps that compute them.
\<close>

section \<open>The counts of the daily limits\<close>

lemma map_of_bump: "map_of (bump k counts) x = (if x = k then Some (map_default 0 counts k + 1) else map_of counts x)"
  by (simp add: bump_def update_conv')

lemma distinct_bump: "distinct (map fst counts) \<Longrightarrow> distinct (map fst (bump k counts))"
  by (simp add: bump_def distinct_update)

lemma map_of_bumps:
  "map_of (fold bump ks counts) x =
     (if x \<in> set ks then Some (map_default 0 counts x + of_nat (count_list ks x)) else map_of counts x)"
  by (induction ks arbitrary: counts) (auto simp: map_of_bump map_default_def count_list_0_iff split: option.splits)

lemma map_of_bumps_known:
  "map_of (fold bump_known ks counts) x = map_option (\<lambda>c. c + of_nat (count_list ks x)) (map_of counts x)"
  by (induction ks arbitrary: counts)
    (auto simp: bump_known_def map_of_bump map_default_def option.map_comp comp_def add.assoc option.map_ident
      split: option.splits)

lemma distinct_bumps:
  "distinct (map fst counts) \<Longrightarrow> distinct (map fst (fold bump ks counts))"
  "distinct (map fst counts) \<Longrightarrow> distinct (map fst (fold bump_known ks counts))"
  by (induction ks arbitrary: counts) (simp_all add: distinct_bump bump_known_def)

lemma counts_checked:
  "checkWithdrawalDailyLimitCounts counts limits = Inr () \<Longrightarrow> map_of counts k = Some c \<Longrightarrow>
   c \<le> map_default 0 limits (fst k)"
  by (induction counts limits rule: checkWithdrawalDailyLimitCounts.induct)
    (auto split: if_splits simp: not_less)

lemma limits_of_networks:
  "limits_of E limits rs = Inr limits' \<Longrightarrow>
   (\<forall>n. map_of limits' n = (if n \<in> wq_Network ` set rs
      then map_option bc_MaxWithdrawalsPerDay (blockchain_of (env_cfg E) n) else map_of limits n)) \<and>
   (\<forall>r \<in> set rs. blockchain_of (env_cfg E) (wq_Network r) \<noteq> None)"
  by (induction E limits rs rule: limits_of.induct)
    (auto split: option.splits if_splits simp: update_conv')

text \<open>The withdrawals of one day that count for an address, those of the batch itself aside.\<close>

definition active_today :: "withdrawal_request list \<Rightarrow> int \<Rightarrow> withdraw_record \<Rightarrow> bool" where
  "active_today rs now r \<longleftrightarrow> wr_CreatedAt r \<ge> now div day * day \<and>
     wr_Status r \<notin> {WithdrawStatusFailed, WithdrawStatusFinishedRejected} \<and> wr_RemoteID r \<notin> wq_ID ` set rs"

definition day_count ::
  "withdrawal_request list \<Rightarrow> int \<Rightarrow> db \<Rightarrow> (withdrawal_request \<Rightarrow> string) \<Rightarrow> (withdraw_record \<Rightarrow> string) \<Rightarrow>
   string \<Rightarrow> string \<Rightarrow> nat" where
  "day_count rs now d of_request of_record network a =
     length (filter (\<lambda>q. wq_Network q = network \<and> of_request q = a) rs) +
     length (filter (\<lambda>r. active_today rs now r \<and> wr_Network r = network \<and> of_record r = a) (db_withdraw_records d))"

lemma count_list_map: "count_list (map f xs) k = length (filter (\<lambda>x. f x = k) xs)"
  by (induction xs) auto

text \<open>One of the two counts of \<open>checkWithdrawalDailyLimit\<close>.\<close>

lemma day_count_exact:
  assumes "q \<in> set rs"
    and "\<And>r. (wr_Network r, of_record r) = (wq_Network q, of_request q) \<Longrightarrow>
      wr_Address r \<in> wq_Address ` set rs \<or> wr_BenefitAddress r \<in> wq_BenefitAddress ` set rs"
  shows "map_of (fold bump_known
      (map (\<lambda>r. (wr_Network r, of_record r)) (filter (counts_today rs (now div day * day)) (db_withdraw_records d)))
      (fold bump (map (\<lambda>q. (wq_Network q, of_request q)) rs) [])) (wq_Network q, of_request q) =
    Some (of_nat (day_count rs now d of_request of_record (wq_Network q) (of_request q)))"
proof -
  have "counts_today rs (now div day * day) r \<and> (wr_Network r, of_record r) = (wq_Network q, of_request q) \<longleftrightarrow>
      active_today rs now r \<and> wr_Network r = wq_Network q \<and> of_record r = of_request q" for r
    using assms by (auto simp: counts_today_def active_today_def)
  then have "filter (\<lambda>r. (wr_Network r, of_record r) = (wq_Network q, of_request q))
      (filter (counts_today rs (now div day * day)) (db_withdraw_records d)) =
    filter (\<lambda>r. active_today rs now r \<and> wr_Network r = wq_Network q \<and> of_record r = of_request q) (db_withdraw_records d)"
    by (simp add: conj_commute)
  then show ?thesis
    using assms(1)
    by (auto simp: map_of_bumps_known map_of_bumps count_list_map day_count_def map_default_def image_iff add.commute)
qed

section \<open>The amounts\<close>

definition request_total :: "withdrawal_request \<Rightarrow> int" where
  "request_total q = the (parse_big (wq_Amount q)) + the (parse_big (wq_WithdrawalFee q))"

definition amounts_ok :: "int \<Rightarrow> withdrawal_request \<Rightarrow> bool" where
  "amounts_ok low q \<longleftrightarrow> (\<exists>amount fee. parse_big (wq_Amount q) = Some amount \<and> parse_big (wq_WithdrawalFee q) = Some fee \<and>
     0 \<le> amount \<and> 0 \<le> fee \<and> low \<le> amount \<and> 0 < amount + fee)"

text \<open>What the batch takes from an address.\<close>

definition requested :: "withdrawal_request list \<Rightarrow> string \<Rightarrow> int" where
  "requested rs a = sum_list (map request_total (filter (\<lambda>q. wq_Address q = a) rs))"

lemma parseWithdrawalAmount_ok:
  "parseWithdrawalAmount s = Inr x \<longleftrightarrow> parse_big s = Some x \<and> 0 \<le> x"
  by (auto simp: parseWithdrawalAmount_def split: option.splits if_splits)

lemma check_amounts_ok: "check_amounts low rs = Inr () \<Longrightarrow> \<forall>q \<in> set rs. amounts_ok low q"
  by (induction low rs rule: check_amounts.induct)
    (auto simp: bind_sum_Inr parseWithdrawalAmount_ok amounts_ok_def withdrawalTotalAmount_def split: if_splits)

lemma sum_requests_ok:
  "sum_requests m rs = Inr m' \<Longrightarrow> distinct (map fst m) \<Longrightarrow>
   (\<forall>q \<in> set rs. wq_Status q = RelayWithdrawStatusPending) \<and> distinct (map fst m') \<and>
   fst ` set m' = fst ` set m \<union> wq_Address ` set rs \<and>
   (\<forall>a. map_default 0 m' a = map_default 0 m a + requested rs a)"
proof (induction m rs rule: sum_requests.induct)
  case (1 m)
  then show ?case by (simp add: requested_def)
next
  case (2 m q rs)
  from "2.prems"(1) obtain amount fee where q: "wq_Status q = RelayWithdrawStatusPending"
      "parse_big (wq_Amount q) = Some amount" "parse_big (wq_WithdrawalFee q) = Some fee"
      "parseWithdrawalAmount (wq_Amount q) = Inr amount" "parseWithdrawalAmount (wq_WithdrawalFee q) = Inr fee"
    and rest: "sum_requests (add_total (wq_Address q) (amount + fee) m) rs = Inr m'"
    by (auto simp: bind_sum_Inr parseWithdrawalAmount_ok withdrawalTotalAmount_def split: if_splits)
  have add: "map_default 0 (add_total b x m) a = map_default 0 m a + (if a = b then x else 0)" for a b x
    by (simp add: add_total_def map_default_def update_conv')
  have d: "distinct (map fst (add_total (wq_Address q) (amount + fee) m))"
    using "2.prems"(2) by (simp add: add_total_def distinct_update)
  have "(\<forall>q \<in> set rs. wq_Status q = RelayWithdrawStatusPending) \<and> distinct (map fst m') \<and>
      fst ` set m' = fst ` set (add_total (wq_Address q) (amount + fee) m) \<union> wq_Address ` set rs \<and>
      (\<forall>a. map_default 0 m' a = map_default 0 (add_total (wq_Address q) (amount + fee) m) a + requested rs a)"
    using "2.IH" [of amount fee] q(1) rest d by (simp add: withdrawalTotalAmount_def)
  moreover have "fst ` set (add_total (wq_Address q) (amount + fee) m) = insert (wq_Address q) (fst ` set m)"
    by (simp add: add_total_def dom_update)
  ultimately show ?case
    using q by (auto simp: add requested_def request_total_def)
qed

text \<open>As many accounts as addresses: every address has one, with at least what the batch takes.\<close>

lemma check_balances_ok:
  "check_balances m accounts = Inr () \<Longrightarrow> a \<in> set accounts \<Longrightarrow> map_default 0 m (ra_Address a) \<le> ra_Balance a"
  by (induction m accounts rule: check_balances.induct) (auto split: if_splits)

lemma accounts_found:
  assumes d: "distinct (map ra_Address accounts)" and m: "distinct (map fst m)"
    and found: "length (filter (\<lambda>r. ra_Address r \<in> fst ` set m) accounts) = length m"
    and balances: "check_balances m (filter (\<lambda>r. ra_Address r \<in> fst ` set m) accounts) = Inr ()"
    and a: "a \<in> fst ` set m"
  shows "\<exists>r \<in> set accounts. ra_Address r = a \<and> map_default 0 m a \<le> ra_Balance r"
proof -
  let ?found = "filter (\<lambda>r. ra_Address r \<in> fst ` set m) accounts"
  have "card (ra_Address ` set ?found) = length ?found"
    using distinct_card [of "map ra_Address ?found"] d by (simp add: distinct_map_filter)
  moreover have "card (fst ` set m) = length m" using distinct_card [of "map fst m"] m by simp
  ultimately have "card (ra_Address ` set ?found) = card (fst ` set m)" using found by (simp only:)
  moreover have "ra_Address ` set ?found \<subseteq> fst ` set m" by auto
  ultimately have "ra_Address ` set ?found = fst ` set m"
    by (intro card_subset_eq) simp_all
  then have "a \<in> ra_Address ` set ?found" using a by (simp only:)
  then obtain r where r: "a = ra_Address r" "r \<in> set ?found" by (rule imageE)
  have "map_default 0 m a \<le> ra_Balance r" unfolding r(1) by (rule check_balances_ok [OF balances r(2)])
  moreover have "r \<in> set accounts" using r(2) by simp
  ultimately show ?thesis using r(1) by blast
qed

section \<open>The whole check\<close>

definition has_balance :: "withdrawal_request list \<Rightarrow> db \<Rightarrow> withdrawal_request \<Rightarrow> bool" where
  "has_balance rs d q \<longleftrightarrow>
     (\<exists>r \<in> set (db_relay_accounts d). ra_Address r = wq_Address q \<and> requested rs (wq_Address q) \<le> ra_Balance r)"

text \<open>
  The requester and the receiver stay within the limit of the network on the day of \<open>now\<close>, the batch
  included. The counts are 64-bit words.
\<close>

definition within_limits :: "env \<Rightarrow> withdrawal_request list \<Rightarrow> int \<Rightarrow> db \<Rightarrow> withdrawal_request \<Rightarrow> bool" where
  "within_limits E rs now d q \<longleftrightarrow>
     (\<exists>bc. blockchain_of (env_cfg E) (wq_Network q) = Some bc \<and>
        of_nat (day_count rs now d wq_Address wr_Address (wq_Network q) (wq_Address q)) \<le> bc_MaxWithdrawalsPerDay bc \<and>
        of_nat (day_count rs now d wq_BenefitAddress wr_BenefitAddress (wq_Network q) (wq_BenefitAddress q))
          \<le> bc_MaxWithdrawalsPerDay bc)"

text \<open>The chain names the receiver: the registered benefit address, or the requester when there is none.\<close>

definition receiver_confirmed :: "env \<Rightarrow> (string \<rightharpoonup> client) \<Rightarrow> withdrawal_request \<Rightarrow> bool" where
  "receiver_confirmed E clients q \<longleftrightarrow>
     (\<exists>cl t ba. clients (wq_Network q) = Some cl \<and>
        env_BenefitAddress E t (cl_Network cl) (eth_HexToAddress (env_lib E) (wq_Address q)) = Inr ba \<and>
        EqualFold (eth_AddressHex (env_lib E) (if ba = 0 then eth_HexToAddress (env_lib E) (wq_Address q) else ba))
          (wq_BenefitAddress q))"

lemma check_benefit_addresses_ok:
  "check_benefit_addresses E rs w = (Inr u, w') \<Longrightarrow> \<forall>q \<in> set rs. receiver_confirmed E (w_clients w) q"
proof (induction rs arbitrary: w)
  case (Cons q rs)
  from Cons.prems obtain a w1 where ba: "GetBenefitAddress E (eth_HexToAddress (env_lib E) (wq_Address q)) (wq_Network q) w = (Inr a, w1)"
    and eq: "EqualFold (eth_AddressHex (env_lib E) a) (wq_BenefitAddress q)"
    and rest: "check_benefit_addresses E rs w1 = (Inr u, w')"
    by (auto simp: and_then_ok return_err_def split: if_splits)
  from ba obtain cl t x where "w_clients w (wq_Network q) = Some cl"
      "env_BenefitAddress E t (cl_Network cl) (eth_HexToAddress (env_lib E) (wq_Address q)) = Inr x"
      "a = (if x = 0 then eth_HexToAddress (env_lib E) (wq_Address q) else x)" "w_clients w1 = w_clients w"
    by (auto simp: GetBenefitAddress_def and_then_ok GetBlockchainClient_def ask_def return_ok_def split: option.splits)
  moreover from this eq have "receiver_confirmed E (w_clients w) q" unfolding receiver_confirmed_def by blast
  ultimately show ?case using Cons.IH [OF rest] by simp
qed simp

lemma seen_steps: "\<exists>ss. seen_db E w = run_steps ss (w_db w)"
proof -
  have "seen_db E w = run_steps (if w_in_tx w \<and> env_serializable E then [] else env_others E (w_tick w)) (w_db w)"
    by (simp add: seen_db_def run_steps_def)
  then show ?thesis by blast
qed

lemma query_seen:
  assumes "db_query E f w = (Inr x, w')"
  shows "\<exists>ss. f (run_steps ss (w_db w)) = Inr x \<and> w_db w' = run_steps ss (w_db w) \<and> w_clients w' = w_clients w"
  using assms seen_steps [of E w] by (auto simp: db_query_def db_action_def Let_def split: option.splits)

lemma checkWithdrawalDailyLimit_ok:
  assumes run: "checkWithdrawalDailyLimit E rs w = (Inr u, w')"
  shows "\<exists>ss t. (\<forall>q \<in> set rs. within_limits E rs (env_now E t) (run_steps ss (w_db w)) q) \<and>
    w_clients w' = w_clients w"
proof (cases "rs = []")
  case True
  with run show ?thesis by (simp add: checkWithdrawalDailyLimit_def return_ok_def)
next
  case False
  define now where "now = env_now E (w_tick w)"
  obtain limits x where limits: "limits_of E [] rs = Inr limits"
    and stored: "db_query E (\<lambda>d. Inr (filter (counts_today rs (now div day * day)) (db_withdraw_records d)))
        (w\<lparr>w_tick := Suc (w_tick w)\<rparr>) = (Inr x, w')"
    and requester: "checkWithdrawalDailyLimitCounts (fold bump_known (map (\<lambda>r. (wr_Network r, wr_Address r)) x)
        (fold bump (map requester_key rs) [])) limits = Inr ()"
    and benefit: "checkWithdrawalDailyLimitCounts (fold bump_known (map (\<lambda>r. (wr_Network r, wr_BenefitAddress r)) x)
        (fold bump (map benefit_key rs) [])) limits = Inr ()"
    using run False
    by (auto simp: checkWithdrawalDailyLimit_def and_then_ok lift_sum_def time_now_def ask_def Let_def now_def)
  from query_seen [OF stored] obtain ss
    where x: "x = filter (counts_today rs (now div day * day)) (db_withdraw_records (run_steps ss (w_db w)))"
      and clients: "w_clients w' = w_clients w" by auto
  have keys: "requester_key = (\<lambda>q. (wq_Network q, wq_Address q))" "benefit_key = (\<lambda>q. (wq_Network q, wq_BenefitAddress q))"
    by (simp_all add: fun_eq_iff requester_key_def benefit_key_def)
  have "within_limits E rs now (run_steps ss (w_db w)) q" if q: "q \<in> set rs" for q
  proof -
    obtain bc where bc: "blockchain_of (env_cfg E) (wq_Network q) = Some bc"
      using limits_of_networks [OF limits] q by blast
    then have "map_default 0 limits (wq_Network q) = bc_MaxWithdrawalsPerDay bc"
      using limits_of_networks [OF limits] q by (auto simp: map_default_def)
    with counts_checked [OF requester [unfolded x keys] day_count_exact [OF q]]
      counts_checked [OF benefit [unfolded x keys] day_count_exact [OF q]] bc q
    show ?thesis by (fastforce simp: within_limits_def)
  qed
  with clients show ?thesis unfolding now_def by blast
qed

text \<open>The keys of the accounts stay distinct under the steps of the other goroutines.\<close>

lemma run_step_accounts: "accounts_ok d \<Longrightarrow> accounts_ok (run_step s d)"
  by (cases s) (auto simp: accounts_ok_def book_def credit_account_def insert_withdraw_record_def fail_with_retry_def
      update_where_def comp_def Let_def if_distrib [of ra_Address] cong: if_cong split: option.split)

lemma run_steps_accounts: "accounts_ok d \<Longrightarrow> accounts_ok (run_steps ss d)"
  unfolding run_steps_def by (induction ss arbitrary: d) (simp_all add: run_step_accounts)

text \<open>
  What a checked batch is: only pending requests, each for at least the minimum amount, with a fee that
  is not negative; an account of every requester with at least what the whole batch takes from it;
  requester and receiver within the daily limit of the network; the receiver named by the chain. The
  balances are those of the database at one moment, the limits those of a later one.
\<close>

definition passed_check :: "env \<Rightarrow> world \<Rightarrow> withdrawal_request list \<Rightarrow> bool" where
  "passed_check E w rs \<longleftrightarrow>
     (\<exists>ss ss' t. \<forall>q \<in> set rs. wq_Status q = RelayWithdrawStatusPending \<and> amounts_ok (minWithdrawalAmount E) q \<and>
        has_balance rs (run_steps ss (w_db w)) q \<and>
        within_limits E rs (env_now E t) (run_steps ss' (run_steps ss (w_db w))) q \<and>
        receiver_confirmed E (w_clients w) q)"

lemma checkWithdrawalRequests_ok:
  assumes "accounts_ok (w_db w)" and "checkWithdrawalRequests E rs w = (Inr u, w')"
  shows "passed_check E w rs"
proof -
  obtain m accounts w1 w2 v where amounts: "check_amounts (minWithdrawalAmount E) rs = Inr ()"
    and sums: "sum_requests [] rs = Inr m"
    and found: "db_query E (\<lambda>d. Inr (filter (\<lambda>r. ra_Address r \<in> fst ` set m) (db_relay_accounts d))) w = (Inr accounts, w1)"
    and all: "length accounts = length m" and balances: "check_balances m accounts = Inr ()"
    and limits: "checkWithdrawalDailyLimit E rs w1 = (Inr v, w2)"
    and receivers: "check_benefit_addresses E rs w2 = (Inr u, w')"
    using assms(2)
    by (auto simp: checkWithdrawalRequests_def and_then_ok lift_sum_def return_err_def split: if_splits)
  from query_seen [OF found] obtain ss where
    accounts: "accounts = filter (\<lambda>r. ra_Address r \<in> fst ` set m) (db_relay_accounts (run_steps ss (w_db w)))"
    and w1: "w_db w1 = run_steps ss (w_db w)" "w_clients w1 = w_clients w" by auto
  from checkWithdrawalDailyLimit_ok [OF limits] obtain ss' t where
    within: "\<forall>q \<in> set rs. within_limits E rs (env_now E t) (run_steps ss' (w_db w1)) q" and "w_clients w2 = w_clients w1"
    by blast
  then have confirmed: "\<forall>q \<in> set rs. receiver_confirmed E (w_clients w) q"
    using check_benefit_addresses_ok [OF receivers] w1 by simp
  have distinct: "distinct (map ra_Address (db_relay_accounts (run_steps ss (w_db w))))"
    using run_steps_accounts [OF assms(1)] by (simp add: accounts_ok_def map_fst_book)
  from sum_requests_ok [OF sums] have m: "\<forall>q \<in> set rs. wq_Status q = RelayWithdrawStatusPending" "distinct (map fst m)"
      "fst ` set m = wq_Address ` set rs" "\<And>a. map_default 0 m a = requested rs a"
    by (simp_all add: map_default_def)
  have "has_balance rs (run_steps ss (w_db w)) q" if "q \<in> set rs" for q
    using accounts_found [OF distinct m(2) all [unfolded accounts] balances [unfolded accounts], of "wq_Address q"] that m(3,4)
    unfolding has_balance_def by simp
  with m(1) check_amounts_ok [OF amounts] within confirmed w1 show ?thesis unfolding passed_check_def by metis
qed


lemma run_steps_run_steps: "run_steps ts (run_steps ss d) = run_steps (ss @ ts) d"
  by (simp add: run_steps_def)

lemma passed_check_later:
  "passed_check E w1 rs \<Longrightarrow> w_db w1 = run_steps ss (w_db w) \<Longrightarrow> w_clients w1 = w_clients w \<Longrightarrow> passed_check E w rs"
  unfolding passed_check_def by (metis run_steps_run_steps)

text \<open>The check writes nothing.\<close>

lemma check_benefit_addresses_seen: "check_benefit_addresses E rs w = (r, w') \<Longrightarrow> w_db w' = w_db w"
proof (induction rs arbitrary: w)
  case (Cons q rs)
  have "w_db u = w_db w" if "GetBenefitAddress E a n w = (s, u)" for a n s u
    using that by (auto simp: GetBenefitAddress_def and_then_def GetBlockchainClient_def ask_def return_ok_def
        split: option.splits prod.splits sum.splits)
  with Cons show ?case by (fastforce simp: and_then_def return_err_def split: prod.splits sum.splits if_splits)
qed (simp add: return_ok_def)

lemma check_seen:
  assumes "checkWithdrawalRequests E rs w = (Inr u, w')"
  shows "\<exists>ss. w_db w' = run_steps ss (w_db w)"
proof -
  obtain f accounts w1 w2 v where "db_query E f w = (Inr (accounts :: relay_account list), w1)"
      "checkWithdrawalDailyLimit E rs w1 = (Inr v, w2)" "check_benefit_addresses E rs w2 = (Inr u, w')"
    using assms by (auto simp: checkWithdrawalRequests_def and_then_ok lift_sum_def return_err_def split: if_splits)
  moreover have "\<exists>ss. w_db y = run_steps ss (w_db x)" if "checkWithdrawalDailyLimit E rs x = (Inr v, y)" for x y
    using that exI [of "\<lambda>ss. w_db x = run_steps ss (w_db x)" "[]"]
    by (auto simp: checkWithdrawalDailyLimit_def and_then_ok lift_sum_def time_now_def ask_def Let_def return_ok_def
        run_steps_def [of "[]"] split: if_splits dest!: query_seen)
  ultimately show ?thesis
    using query_seen check_benefit_addresses_seen by (metis run_steps_run_steps)
qed

section \<open>Building and storing the records\<close>

text \<open>The record of a request: pending with the fingerprint of its authorization, or failed.\<close>

definition record_of :: "env \<Rightarrow> withdrawal_request \<Rightarrow> withdraw_record \<Rightarrow> bool" where
  "record_of E q r \<longleftrightarrow> (\<exists>amount fee. parse_big (wq_Amount q) = Some amount \<and> 0 \<le> amount \<and>
     parse_big (wq_WithdrawalFee q) = Some fee \<and> 0 \<le> fee \<and>
     (r = (new_record q amount fee)\<lparr>wr_Status := WithdrawStatusFailed\<rparr> \<or>
      (\<exists>fp. withdrawalRequestAuthorization (env_lib E) q amount = Inr fp \<and>
         r = (new_record q amount fee)\<lparr>wr_AuthorizationFingerprint := Some fp\<rparr>)))"

lemma authorize_request_ok:
  assumes "authorize_request E seen q amount w = (Inr r, w')"
  shows "(\<forall>fp. r = Inr fp \<longrightarrow> withdrawalRequestAuthorization (env_lib E) q amount = Inr fp) \<and>
    (\<exists>ss. w_db w' = run_steps ss (w_db w)) \<and> w_clients w' = w_clients w"
proof -
  have here: "\<exists>ss. w_db w = run_steps ss (w_db w)" by (rule exI [of _ "[]"]) (simp add: run_steps_def)
  show ?thesis
    using assms here
    by (auto simp: authorize_request_def return_ok_def and_then_ok split: sum.splits if_splits dest!: query_seen)
qed

lemma build_records_ok:
  "build_records E seen rs w = (Inr (records, valid), w') \<Longrightarrow>
   list_all2 (record_of E) rs records \<and>
   valid = map fst (filter (\<lambda>(q, r). wr_Status r = WithdrawStatusPending) (zip rs records)) \<and>
   (\<exists>ss. w_db w' = run_steps ss (w_db w)) \<and> w_clients w' = w_clients w"
proof (induction rs arbitrary: seen records valid w)
  case Nil
  then show ?case by (auto simp: return_ok_def intro: exI [of _ "[]"] simp: run_steps_def)
next
  case (Cons q rs)
  from Cons.prems obtain amount fee authorization w1 where
    q: "parse_big (wq_Amount q) = Some amount" "0 \<le> amount" "parse_big (wq_WithdrawalFee q) = Some fee" "0 \<le> fee"
    and auth: "authorize_request E seen q amount w = (Inr authorization, w1)"
    and rest: "(case authorization of
         Inl e \<Rightarrow> and_then (build_records E seen rs) (\<lambda>(records, valid).
             return_ok ((new_record q amount fee)\<lparr>wr_Status := WithdrawStatusFailed\<rparr> # records, valid))
       | Inr fp \<Rightarrow> and_then (build_records E (fp # seen) rs) (\<lambda>(records, valid).
             return_ok ((new_record q amount fee)\<lparr>wr_AuthorizationFingerprint := Some fp\<rparr> # records, q # valid)))
       w1 = (Inr (records, valid), w')"
    by (auto simp: and_then_ok lift_sum_def parseWithdrawalAmount_ok Let_def)
  obtain ss where ss: "w_db w1 = run_steps ss (w_db w)" "w_clients w1 = w_clients w"
    using authorize_request_ok [OF auth] by blast
  have new: "wr_Status (new_record q amount fee) = WithdrawStatusPending" by (simp add: new_record_def)
  show ?case
  proof (cases authorization)
    case (Inl e)
    with rest obtain records' valid' where
      "build_records E seen rs w1 = (Inr (records', valid'), w')"
      "records = (new_record q amount fee)\<lparr>wr_Status := WithdrawStatusFailed\<rparr> # records'" "valid = valid'"
      by (auto simp: and_then_ok return_ok_def)
    with Cons.IH [OF this(1)] q ss show ?thesis
      by (auto simp: record_of_def run_steps_run_steps)
  next
    case (Inr fp)
    with rest obtain records' valid' where
      "build_records E (fp # seen) rs w1 = (Inr (records', valid'), w')"
      "records = (new_record q amount fee)\<lparr>wr_AuthorizationFingerprint := Some fp\<rparr> # records'" "valid = q # valid'"
      by (auto simp: and_then_ok return_ok_def)
    with Cons.IH [OF this(1)] q ss new authorize_request_ok [OF auth] Inr show ?thesis
      by (auto simp: record_of_def run_steps_run_steps)
  qed
qed

lemma insert_records_rows:
  "\<exists>new. db_withdraw_records (insert_records now rs d) = db_withdraw_records d @ new \<and>
     (\<forall>n \<in> set new. \<exists>r \<in> set rs. n = r\<lparr>wr_ID := wr_ID n, wr_CreatedAt := now\<rparr>)"
proof (induction rs arbitrary: d)
  case (Cons r rs)
  let ?d = "d\<lparr>db_withdraw_records := db_withdraw_records d @ [r\<lparr>wr_ID := db_next_withdraw_record_id d, wr_CreatedAt := now\<rparr>],
     db_next_withdraw_record_id := Suc (db_next_withdraw_record_id d)\<rparr>"
  obtain new where "db_withdraw_records (insert_records now rs ?d) = db_withdraw_records ?d @ new"
      "\<forall>n \<in> set new. \<exists>r \<in> set rs. n = r\<lparr>wr_ID := wr_ID n, wr_CreatedAt := now\<rparr>"
    using Cons [of ?d] by blast
  moreover have "r\<lparr>wr_ID := i, wr_CreatedAt := now\<rparr> = r\<lparr>wr_ID := wr_ID (r\<lparr>wr_ID := i, wr_CreatedAt := now\<rparr>), wr_CreatedAt := now\<rparr>" for i
    by simp
  ultimately have "\<exists>new. db_withdraw_records (insert_records now rs ?d) = db_withdraw_records d @ new \<and>
      (\<forall>n \<in> set new. \<exists>q \<in> set (r # rs). n = q\<lparr>wr_ID := wr_ID n, wr_CreatedAt := now\<rparr>)"
    by (intro exI [of _ "r\<lparr>wr_ID := db_next_withdraw_record_id d, wr_CreatedAt := now\<rparr> # new"]) auto
  with Cons [of d] show ?case by (auto simp: Let_def)
qed simp

lemma action_seen:
  assumes "db_action E f w = (r, w')" and "\<And>d. f d = (Inr x, g d)" and "r = Inr y"
  shows "\<exists>ss. w_db w' = g (run_steps ss (w_db w))"
  using assms seen_steps [of E w] by (auto simp: db_action_def Let_def split: option.splits)

lemma store_requests_ok:
  assumes "store_requests E rs records w = (Inr c, w')"
  shows "c = \<lparr>wc_LatestWithdrawalRequestID = wq_ID (last rs), wc_LatestWithdrawalRequestTimestamp = wq_CreatedAt (last rs)\<rparr> \<and>
    (\<exists>ss ss' now. w_db w' = (run_steps ss' (insert_records now records (run_steps ss (w_db w))))
       \<lparr>db_withdrawal_request_checkpoint := Some c\<rparr>)"
proof -
  let ?c = "\<lparr>wc_LatestWithdrawalRequestID = wq_ID (last rs), wc_LatestWithdrawalRequestTimestamp = wq_CreatedAt (last rs)\<rparr>"
  let ?body = "and_then (time_now E) (\<lambda>now.
         and_then (db_action E (\<lambda>d. (Inr () :: go_error + unit, insert_records now records d))) (\<lambda>_.
           db_action E (\<lambda>d. (Inr () :: go_error + unit, d\<lparr>db_withdrawal_request_checkpoint := Some ?c\<rparr>))))"
  obtain y where c: "c = ?c" and tx: "db_transaction E ?body w = (Inr y, w')"
    using assms by (auto simp: store_requests_def Let_def and_then_ok return_ok_def)
  obtain v u where v: "?body v = (Inr y, u)" "w_db w' = w_db u" and begun: "w_db v = seen_db E w"
    using tx by (rule db_transaction_commits) (auto simp: db_query_def db_action_def Let_def split: option.splits)
  obtain now w1 w2 y1 where
    ins: "db_action E (\<lambda>d. (Inr () :: go_error + unit, insert_records now records d)) w1 = (Inr y1, w2)" "w_db w1 = w_db v"
    and chk: "db_action E (\<lambda>d. (Inr () :: go_error + unit, d\<lparr>db_withdrawal_request_checkpoint := Some ?c\<rparr>)) w2 = (Inr y, u)"
    using v(1) by (auto simp: and_then_ok time_now_def ask_def)
  obtain s0 where "w_db v = run_steps s0 (w_db w)"
    using begun seen_steps by metis
  with action_seen [OF ins(1) refl refl] action_seen [OF chk refl refl] ins(2) v(2) c show ?thesis
    by (metis run_steps_run_steps)
qed

text \<open>
  C39: what a successful round of the withdrawal sync writes: one record per request of the batch, in
  order, pending only when the owner's authorization of exactly these terms is valid, and then the request
  has passed the check: at least the minimum amount, backed by the balance of its account together with
  all others of the batch, within the daily limits, to the receiver the chain names; every other record
  is failed. A record that conflicts with one already there is not written again, and the checkpoint
  moves to the last request in the same transaction.
\<close>
theorem synced_requests:
  assumes "accounts_ok (w_db w)" and "sync_batch E rs w = (Inr c, w')"
  shows "\<exists>records ss ss' now. list_all2 (record_of E) rs records \<and>
    passed_check E w (map fst (filter (\<lambda>(q, r). wr_Status r = WithdrawStatusPending) (zip rs records))) \<and>
    w_db w' = (run_steps ss' (insert_records now records (run_steps ss (w_db w))))\<lparr>db_withdrawal_request_checkpoint := Some c\<rparr> \<and>
    c = \<lparr>wc_LatestWithdrawalRequestID = wq_ID (last rs), wc_LatestWithdrawalRequestTimestamp = wq_CreatedAt (last rs)\<rparr>"
proof -
  obtain records valid w1 w2 v where built: "build_records E [] rs w = (Inr (records, valid), w1)"
    and check: "(if valid = [] then return_ok () else checkWithdrawalRequests E valid) w1 = (Inr v, w2)"
    and store: "store_requests E rs records w2 = (Inr c, w')"
    using assms(2) by (auto simp: sync_batch_def and_then_ok)
  from build_records_ok [OF built] obtain ss where
    records: "list_all2 (record_of E) rs records"
      "valid = map fst (filter (\<lambda>(q, r). wr_Status r = WithdrawStatusPending) (zip rs records))"
    and w1: "w_db w1 = run_steps ss (w_db w)" "w_clients w1 = w_clients w" by blast
  have "accounts_ok (w_db w1)" using run_steps_accounts [OF assms(1)] w1 by simp
  then have "passed_check E w1 valid"
    using check checkWithdrawalRequests_ok by (cases "valid = []") (simp add: passed_check_def, simp)
  then have passed: "passed_check E w valid" using w1 by (rule passed_check_later)
  obtain s2 where s2: "w_db w2 = run_steps s2 (w_db w)"
  proof (cases "valid = []")
    case True
    with check w1 that show ?thesis by (simp add: return_ok_def)
  next
    case False
    with check w1 that check_seen [of E valid w1 v w2] show ?thesis by (auto simp: run_steps_run_steps)
  qed
  from store_requests_ok [OF store] s2 records passed show ?thesis by (metis run_steps_run_steps)
qed

definition sample_request :: withdrawal_request where
  "sample_request = \<lparr>wq_ID = 4, wq_CreatedAt = 9, wq_Address = ''0x0'', wq_BenefitAddress = ''0xB'',
     wq_Amount = ''7'', wq_WithdrawalFee = ''1'', wq_Network = ''base'',
     wq_Status = RelayWithdrawStatusPending, wq_RelayAccountEventID = 3, wq_Timestamp = 5,
     wq_Signature = replicate 63 (CHR ''s'')\<rparr>"

text \<open>A minimum of zero keeps the numbers of the run small.\<close>

definition low_env :: env where
  "low_env = sample_env\<lparr>env_cfg := sample_cfg\<lparr>cfg_SyncWithdrawalRequests :=
     (cfg_SyncWithdrawalRequests sample_cfg)\<lparr>swr_MinWithdrawalAmount := 0\<rparr>\<rparr>\<rparr>"

definition requests_world :: world where
  "requests_world = client_world (empty_db\<lparr>db_relay_accounts :=
     [\<lparr>ra_ID = 1, ra_Address = ''0x0'', ra_Balance = 9\<rparr>], db_next_relay_account_id := 2\<rparr>)"

theorem synced_requests_witness:
  "\<exists>records. list_all2 (record_of low_env) [sample_request] records \<and>
     passed_check low_env requests_world
       (map fst (filter (\<lambda>(q, r). wr_Status r = WithdrawStatusPending) (zip [sample_request] records)))"
proof -
  have "case fst (sync_batch low_env [sample_request] requests_world) of Inr _ \<Rightarrow> True | Inl _ \<Rightarrow> False"
    by code_simp
  then obtain c where "sync_batch low_env [sample_request] requests_world =
      (Inr c, snd (sync_batch low_env [sample_request] requests_world))"
    by (metis prod.collapse sum.case_eq_if sum.collapse(2))
  moreover have "accounts_ok (w_db requests_world)"
    by (simp add: requests_world_def client_world_def world_of_def accounts_ok_def book_def)
  ultimately show ?thesis using synced_requests by blast
qed

end
