(* ===== verification/Withdraw_Process.thy ===== *)
theory Withdraw_Process
  imports Withdraw_Auth
begin

text \<open>
  \<open>tasks/process_withdrawal_requests.go\<close>: the processor of one withdrawal record: attaching a payout,
  waiting for its outcome, debiting the account, and telling the Relay. The variable
  \<open>blockchainTransaction\<close> of the code is the \<open>btx option\<close> that the steps pass on.
\<close>

section \<open>Reading the chain\<close>

definition withdrawalChainHasCommittedBroadcast :: "env \<Rightarrow> nat \<Rightarrow> (world, bool) action" where
  "withdrawalChainHasCommittedBroadcast E rootID =
     and_then (ListTransactionChain E rootID) (\<lambda>transactions.
       return_ok (\<exists>tx \<in> set transactions. HasCommittedBroadcast tx))"

definition getCurrentBlockchainTransaction :: "env \<Rightarrow> nat \<Rightarrow> (world, btx) action" where
  "getCurrentBlockchainTransaction E i =
     and_then (GetTransactionByID E i) (\<lambda>blockchainTransaction.
       if tx_Status blockchainTransaction \<noteq> TransactionStatusFailed then return_ok blockchainTransaction
       else and_then (GetRetryTransactionsByID E i) (\<lambda>retryTransactions.
         return_ok (if retryTransactions = [] then blockchainTransaction else last retryTransactions)))"

section \<open>Stopping\<close>

text \<open>The message ends with the time of the cancellation request, which is left out here.\<close>

definition blocking_message :: "withdraw_record \<Rightarrow> btx \<Rightarrow> string" where
  "blocking_message rcd tx =
     ''withdrawal processor stopped because timeout transaction is not cancellable or terminal: record_id='' @
     show_nat (wr_ID rcd) @ '' remote_id='' @ show_nat (wr_RemoteID rcd) @
     '' blockchain_transaction_id='' @ show_nat (tx_ID tx) @
     '' transaction_status='' @ show_nat (tx_status_code (tx_Status tx)) @
     '' tx_hash='' @ null_string (tx_TxHash tx) @
     '' status_message='' @ null_string (tx_StatusMessage tx)"

definition stopForBlockingTimeout :: "btx \<Rightarrow> (world, 'a) action" where
  "stopForBlockingTimeout tx =
     and_then the_record (\<lambda>rcd.
     and_then (tell (Alert ''ProcessWithdrawalRequests'' (blocking_message rcd tx))) (\<lambda>_.
       return_err (WithdrawalRequestError ErrWithdrawalRequestTransactionUnconfirmedTimeout)))"

section \<open>Safety of the answer to the Relay\<close>

text \<open>\<open>transactions[0]\<close> is the root, which \<open>ListTransactionChain\<close> always returns.\<close>

definition ensureWithdrawalRejectSafe :: "env \<Rightarrow> (world, unit) action" where
  "ensureWithdrawalRejectSafe E =
     and_then the_record (\<lambda>rcd.
       case wr_BlockchainTransactionID rcd of
         None \<Rightarrow> return_ok ()
       | Some rootID \<Rightarrow>
           and_then (ListTransactionChain E rootID) (\<lambda>transactions.
             let outcome = ClassifyTransactionChain transactions in
             if co_ConfirmedCount outcome > 0 then
               (case find (\<lambda>tx. tx_Status tx = TransactionStatusConfirmed) transactions of
                  Some tx \<Rightarrow> stopForBlockingTimeout tx
                | None \<Rightarrow>
                    (case co_Blocking outcome of
                       Some blocker \<Rightarrow> stopForBlockingTimeout blocker
                     | None \<Rightarrow> stopForBlockingTimeout (hd transactions)))
             else if \<not> co_AllProvenFail outcome then
               (case co_Blocking outcome of
                  Some blocker \<Rightarrow> stopForBlockingTimeout blocker
                | None \<Rightarrow> stopForBlockingTimeout (hd transactions))
             else return_ok ()))"

definition ensureWithdrawalFulfillSafe :: "env \<Rightarrow> btx option \<Rightarrow> (world, unit) action" where
  "ensureWithdrawalFulfillSafe E current =
     and_then the_record (\<lambda>rcd.
       case wr_BlockchainTransactionID rcd of
         None \<Rightarrow> return_err
           (ErrorsNew ''withdrawal fulfill safety check requires an attached blockchain transaction'')
       | Some rootID \<Rightarrow>
           (case current of
              None \<Rightarrow> return_err (WithdrawalRequestError ErrWithdrawalRequestTransactionUnconfirmedTimeout)
            | Some tx \<Rightarrow>
                if tx_Status tx \<noteq> TransactionStatusConfirmed \<or> tx_TxHash tx = None then
                  stopForBlockingTimeout tx
                else
                  and_then (ListTransactionChain E rootID) (\<lambda>transactions.
                    let outcome = ClassifyTransactionChain transactions in
                    if co_ConfirmedCount outcome \<noteq> 1 then
                      (case co_Blocking outcome of
                         Some blocker \<Rightarrow> stopForBlockingTimeout blocker
                       | None \<Rightarrow> stopForBlockingTimeout tx)
                    else
                      (case find (\<lambda>t. tx_Status t \<noteq> TransactionStatusConfirmed \<and>
                                      \<not> IsProvenTerminalFailure t) transactions of
                         Some t \<Rightarrow> stopForBlockingTimeout t
                       | None \<Rightarrow> return_ok ()))))"

definition rejectWithdrawalRequestSafely :: "env \<Rightarrow> (world, unit) action" where
  "rejectWithdrawalRequestSafely E =
     and_then (ensureWithdrawalRejectSafe E) (\<lambda>_.
     and_then the_record (\<lambda>rcd.
     and_then (RejectWithdrawalRequest E (wr_RemoteID rcd)) (\<lambda>_.
       UpdateStatus E WithdrawStatusFinishedRejected)))"

section \<open>Attaching a payout\<close>

definition find_account :: "string \<Rightarrow> db \<Rightarrow> go_error + relay_account" where
  "find_account a d =
     (case find (\<lambda>r. ra_Address r = a) (db_relay_accounts d) of
        None \<Rightarrow> Inl ErrRecordNotFound
      | Some r \<Rightarrow> Inr r)"

definition payout_address :: "ethlib \<Rightarrow> withdraw_record \<Rightarrow> address" where
  "payout_address L rcd =
     (if wr_BenefitAddress rcd \<noteq> [] then eth_HexToAddress L (wr_BenefitAddress rcd)
      else eth_HexToAddress L (wr_Address rcd))"

text \<open>A network that is not configured reads as the zero value, whose token type is empty.\<close>

definition new_payout :: "env \<Rightarrow> withdraw_record \<Rightarrow> go_error + btx" where
  "new_payout E rcd =
     (case blockchain_of (env_cfg E) (wr_Network rcd) of
        None \<Rightarrow> Inl ErrBlockchainNotFound
      | Some blockchainConfig \<Rightarrow>
          if bc_TokenType blockchainConfig = TokenTypeNative then
            NewSendETHTransaction E (payout_address (env_lib E) rcd) (wr_Amount rcd) (wr_Network rcd)
          else if bc_TokenType blockchainConfig = TokenTypeERC20 then
            NewSendERC20Transaction E (eth_HexToAddress (env_lib E) (bc_TokenAddress blockchainConfig))
              (payout_address (env_lib E) rcd) (wr_Amount rcd) (wr_Network rcd)
          else Inl ErrBlockchainNotFound)"

text \<open>The reference in memory is set before the transaction commits.\<close>

definition attach_payout :: "env \<Rightarrow> btx \<Rightarrow> (world, btx) action" where
  "attach_payout E tx =
     db_transaction E
       (and_then (Save E tx) (\<lambda>tx.
        and_then (set_record (\<lambda>r. r\<lparr>wr_BlockchainTransactionID := Some (tx_ID tx)\<rparr>)) (\<lambda>_.
        and_then the_record (\<lambda>rcd.
        and_then (db_action E (save_record rcd)) (\<lambda>_. return_ok tx)))))"

text \<open>\<open>Stop\<close> is the \<open>break\<close> of the loop over a pending record, \<open>Again\<close> its \<open>continue\<close>.\<close>

datatype 'a flow = Stop "btx option" | Again "btx option" | Go_on 'a

definition fail_record :: "env \<Rightarrow> btx option \<Rightarrow> (world, 'a flow) action" where
  "fail_record E tx = and_then (UpdateStatus E WithdrawStatusFailed) (\<lambda>_. return_ok (Stop tx))"

text \<open>The first branch: a payout is attached and may have to be withdrawn.\<close>

definition recheck_attached :: "env \<Rightarrow> btx option \<Rightarrow> nat \<Rightarrow> (world, btx option flow) action" where
  "recheck_attached E tx rootID =
     and_then (withdrawalChainHasCommittedBroadcast E rootID) (\<lambda>committed.
       if committed then return_ok (Go_on tx)
       else and_then (try_result (ensureWithdrawalAuthorizationFingerprint E)) (\<lambda>authorization.
         case authorization of
           Inr _ \<Rightarrow> return_ok (Go_on tx)
         | Inl authorizationErr \<Rightarrow>
             and_then (getCurrentBlockchainTransaction E rootID) (\<lambda>current.
             and_then (if tx_Status current = TransactionStatusPending \<or>
                          tx_Status current = TransactionStatusSending
                       then and_then (RequestCancellation E current (error_text authorizationErr))
                              (\<lambda>(_, current). return_ok current)
                       else return_ok current) (\<lambda>current.
             and_then (if tx_Status current = TransactionStatusPending
                       then CancelRequestedUnbroadcasted E current
                       else return_ok (True, current)) (\<lambda>(cancelled, current).
               if \<not> cancelled then return_ok (Again (Some current))
               else if tx_Status current \<noteq> TransactionStatusSending then fail_record E (Some current)
               else return_ok (Go_on (Some current)))))))"

text \<open>The second branch: no payout yet.\<close>

definition start_payout :: "env \<Rightarrow> btx option \<Rightarrow> (world, btx flow) action" where
  "start_payout E tx =
     and_then (try_result (ensureWithdrawalAuthorizationFingerprint E)) (\<lambda>authorization.
       case authorization of
         Inl authorizationErr \<Rightarrow> fail_record E tx
       | Inr _ \<Rightarrow>
           and_then the_record (\<lambda>rcd.
           and_then (db_query E (find_account (wr_Address rcd))) (\<lambda>account.
             if ra_Balance account < withdrawalTotalAmount (wr_Amount rcd) (wr_WithdrawalFee rcd)
             then fail_record E tx
             else
               and_then (lift_sum (new_payout E rcd)) (\<lambda>payout.
               and_then (attach_payout E payout) (\<lambda>payout. return_ok (Go_on payout))))))"

definition find_payout :: "env \<Rightarrow> btx option \<Rightarrow> (world, btx flow) action" where
  "find_payout E tx =
     and_then the_record (\<lambda>rcd.
       case wr_BlockchainTransactionID rcd of
         None \<Rightarrow> start_payout E tx
       | Some rootID \<Rightarrow>
           and_then (recheck_attached E tx rootID) (\<lambda>flow.
             case flow of
               Stop tx \<Rightarrow> return_ok (Stop tx)
             | Again tx \<Rightarrow> return_ok (Again tx)
             | Go_on _ \<Rightarrow>
                 and_then (getCurrentBlockchainTransaction E rootID) (\<lambda>tx. return_ok (Go_on tx))))"

section \<open>The outcome\<close>

definition is_terminal_status :: "tx_status \<Rightarrow> bool" where
  "is_terminal_status s \<longleftrightarrow> s = TransactionStatusConfirmed \<or> s = TransactionStatusFailed \<or>
     s = TransactionStatusCancelled"

fun await_outcome :: "env \<Rightarrow> nat \<Rightarrow> btx \<Rightarrow> (world, btx) action" where
  "await_outcome E 0 tx = return_err OutOfFuel"
| "await_outcome E (Suc fuel) tx =
     (if is_terminal_status (tx_Status tx) then return_ok tx
      else and_then (Sync E tx) (\<lambda>tx. and_then (sleep E) (\<lambda>_. await_outcome E fuel tx)))"

definition save_balance :: "nat \<Rightarrow> int \<Rightarrow> db \<Rightarrow> (go_error + unit) \<times> db" where
  "save_balance i b d =
     (Inr (), d\<lparr>db_relay_accounts := update_where (\<lambda>r. ra_ID r = i) (\<lambda>r. r\<lparr>ra_Balance := b\<rparr>)
        (db_relay_accounts d)\<rparr>)"

text \<open>The debit: the account read, reduced and saved, and the record marked, in one transaction.\<close>

definition debit_account :: "env \<Rightarrow> (world, unit) action" where
  "debit_account E =
     and_then the_record (\<lambda>rcd.
       let totalAmount = withdrawalTotalAmount (wr_Amount rcd) (wr_WithdrawalFee rcd) in
       db_transaction E
         (and_then (db_query E (find_account (wr_Address rcd))) (\<lambda>account.
            if ra_Balance account < totalAmount then
              return_err (WithdrawalRequestError ErrWithdrawalRequestTaskFeeNotEnough)
            else
              and_then (db_action E (save_balance (ra_ID account) (ra_Balance account - totalAmount))) (\<lambda>_.
                UpdateStatus E WithdrawStatusSuccess))))"

definition settle_outcome :: "env \<Rightarrow> btx \<Rightarrow> (world, unit) action" where
  "settle_outcome E tx =
     (if tx_Status tx = TransactionStatusConfirmed then
        and_then (ensureWithdrawalFulfillSafe E (Some tx)) (\<lambda>_. debit_account E)
      else if tx_Status tx = TransactionStatusCancelled then UpdateStatus E WithdrawStatusFailed
      else if tx_RetryCount tx \<ge> tx_MaxRetries tx then UpdateStatus E WithdrawStatusFailed
      else return_ok ())"

fun process_pending :: "env \<Rightarrow> nat \<Rightarrow> btx option \<Rightarrow> (world, btx option) action" where
  "process_pending E 0 tx = return_err OutOfFuel"
| "process_pending E (Suc fuel) tx =
     and_then the_record (\<lambda>rcd.
       if wr_Status rcd \<noteq> WithdrawStatusPending then return_ok tx
       else and_then (find_payout E tx) (\<lambda>flow.
         case flow of
           Stop tx \<Rightarrow> return_ok tx
         | Again tx \<Rightarrow> process_pending E fuel tx
         | Go_on tx \<Rightarrow>
             and_then (await_outcome E fuel tx) (\<lambda>tx.
             and_then (settle_outcome E tx) (\<lambda>_. process_pending E fuel (Some tx)))))"

text \<open>The payout whose hash is reported: the one processed, or the attached one read again.\<close>

definition payout_to_report :: "env \<Rightarrow> btx option \<Rightarrow> (world, btx) action" where
  "payout_to_report E tx =
     (case tx of
        Some tx \<Rightarrow> return_ok tx
      | None \<Rightarrow>
          and_then the_record (\<lambda>rcd.
            case wr_BlockchainTransactionID rcd of
              None \<Rightarrow> return_err (ErrorsNew ''successful withdrawal record has no blockchain transaction'')
            | Some rootID \<Rightarrow> getCurrentBlockchainTransaction E rootID))"

definition answer_relay :: "env \<Rightarrow> btx option \<Rightarrow> (world, unit) action" where
  "answer_relay E tx =
     and_then the_record (\<lambda>rcd.
       if wr_Status rcd = WithdrawStatusSuccess then
         and_then (payout_to_report E tx) (\<lambda>tx.
         and_then (ensureWithdrawalFulfillSafe E (Some tx)) (\<lambda>_.
         and_then (FulfillWithdrawalRequest E (wr_RemoteID rcd) (null_string (tx_TxHash tx))) (\<lambda>_.
           UpdateStatus E WithdrawStatusFinished)))
       else rejectWithdrawalRequestSafely E)"

definition processWithdrawalRecord :: "env \<Rightarrow> nat \<Rightarrow> (world, unit) action" where
  "processWithdrawalRecord E fuel =
     and_then (process_pending E fuel None) (\<lambda>tx. answer_relay E tx)"

section \<open>Time-outs and retries\<close>

definition find_record :: "nat \<Rightarrow> db \<Rightarrow> go_error + withdraw_record" where
  "find_record i d =
     (case find (\<lambda>r. wr_ID r = i) (db_withdraw_records d) of
        None \<Rightarrow> Inl ErrRecordNotFound
      | Some r \<Rightarrow> Inr r)"

definition timeout_message :: string where
  "timeout_message = ''Withdrawal request timed out before broadcast''"

definition cannot_reject :: "go_error \<Rightarrow> go_error" where
  "cannot_reject e = Wrapped ''ProcessWithdrawalRecords: cannot reject timeout withdrawal request due to '' e"

definition reject_timed_out :: "env \<Rightarrow> (world, bool) action" where
  "reject_timed_out E =
     and_then (try_result (rejectWithdrawalRequestSafely E)) (\<lambda>r.
       case r of Inl e \<Rightarrow> return_err (cannot_reject e) | Inr _ \<Rightarrow> return_ok True)"

text \<open>A payout that the sender holds: wait for it to give it back, up to the settlement time-out.\<close>

definition await_cancellation :: "env \<Rightarrow> btx \<Rightarrow> (world, bool) action" where
  "await_cancellation E tx =
     and_then (Sync E tx) (\<lambda>tx.
       case tx_CancellationRequestedAt tx of
         None \<Rightarrow> return_ok False
       | Some requestedAt \<Rightarrow>
           and_then (time_now E) (\<lambda>now.
             if \<not> now < requestedAt + go_seconds (pwr_CancellationSettlementTimeoutSeconds
                                          (cfg_ProcessWithdrawalRequests (env_cfg E)))
             then stopForBlockingTimeout tx
             else return_ok False))"

definition cancel_timed_out :: "env \<Rightarrow> btx \<Rightarrow> (world, bool) action" where
  "cancel_timed_out E tx =
     and_then (RequestCancellation E tx timeout_message) (\<lambda>(_, tx).
       if tx_Status tx = TransactionStatusPending then
         and_then (CancelRequestedUnbroadcasted E tx) (\<lambda>(cancelled, tx).
           if cancelled then reject_timed_out E else return_ok False)
       else await_cancellation E tx)"

definition handleTimeoutWithdrawalRequest :: "env \<Rightarrow> nat \<Rightarrow> (world, bool) action" where
  "handleTimeoutWithdrawalRequest E fuel =
     and_then the_record (\<lambda>rcd.
     and_then (db_query E (find_record (wr_ID rcd))) (\<lambda>rcd.
     and_then (set_record (\<lambda>_. rcd)) (\<lambda>_.
       case wr_BlockchainTransactionID rcd of
         None \<Rightarrow> reject_timed_out E
       | Some rootID \<Rightarrow>
           and_then (getCurrentBlockchainTransaction E rootID) (\<lambda>tx.
             if tx_Status tx = TransactionStatusConfirmed \<or> tx_Status tx = TransactionStatusCancelled \<or>
                tx_Status tx = TransactionStatusFailed \<and> tx_RetryCount tx \<ge> tx_MaxRetries tx
             then and_then (processWithdrawalRecord E fuel) (\<lambda>_. return_ok True)
             else if HasCommittedBroadcast tx \<or> tx_Status tx = TransactionStatusBroadcasting \<or>
                tx_Status tx \<noteq> TransactionStatusPending \<and> tx_Status tx \<noteq> TransactionStatusSending
             then stopForBlockingTimeout tx
             else cancel_timed_out E tx))))"

fun processWithdrawalRecordWithRetry :: "env \<Rightarrow> nat \<Rightarrow> (world, unit) action" where
  "processWithdrawalRecordWithRetry E 0 = return_err OutOfFuel"
| "processWithdrawalRecordWithRetry E (Suc fuel) =
     and_then the_record (\<lambda>rcd.
     let deadline = wr_CreatedAt rcd + go_seconds (pwr_Timeout (cfg_ProcessWithdrawalRequests (env_cfg E))) in
     and_then (time_now E) (\<lambda>now.
       if now > deadline then
         and_then (handleTimeoutWithdrawalRequest E fuel) (\<lambda>completed.
           if completed then return_ok ()
           else and_then (sleep E) (\<lambda>_. processWithdrawalRecordWithRetry E fuel))
       else
         and_then (try_result (processWithdrawalRecord E fuel)) (\<lambda>r.
           case r of
             Inr _ \<Rightarrow> return_ok ()
           | Inl e \<Rightarrow>
               if is_deadline_exceeded e then processWithdrawalRecordWithRetry E fuel
               else if IsWithdrawalRequestError e then return_err e
               else and_then (sleep E) (\<lambda>_. processWithdrawalRecordWithRetry E fuel))))"

section \<open>All records\<close>

definition limit_rows :: "int \<Rightarrow> 'a list \<Rightarrow> 'a list" where
  "limit_rows limit rows = (if limit < 0 then rows else take (nat limit) rows)"

definition getUnfinishedWithdrawalRecords :: "env \<Rightarrow> nat \<Rightarrow> int \<Rightarrow> (world, withdraw_record list) action" where
  "getUnfinishedWithdrawalRecords E startID limit =
     db_query E (\<lambda>d. Inr (limit_rows limit (filter (\<lambda>r.
        wr_Status r \<notin> {WithdrawStatusFinished, WithdrawStatusFinishedRejected} \<and> wr_ID r > startID)
        (db_withdraw_records d))))"

fun process_batch :: "env \<Rightarrow> nat \<Rightarrow> nat \<Rightarrow> withdraw_record list \<Rightarrow> (world, nat) action" where
  "process_batch E fuel startID [] = return_ok startID"
| "process_batch E fuel startID (rcd # records) =
     and_then (set_record (\<lambda>_. rcd)) (\<lambda>_.
     and_then (processWithdrawalRecordWithRetry E fuel) (\<lambda>_. process_batch E fuel (wr_ID rcd) records))"

fun process_records :: "env \<Rightarrow> nat \<Rightarrow> nat \<Rightarrow> (world, unit) action" where
  "process_records E 0 startID = return_err OutOfFuel"
| "process_records E (Suc fuel) startID =
     and_then (getUnfinishedWithdrawalRecords E startID
                (sint (pwr_BatchSize (cfg_ProcessWithdrawalRequests (env_cfg E))))) (\<lambda>records.
       if records = [] then and_then (sleep E) (\<lambda>_. process_records E fuel startID)
       else and_then (process_batch E fuel startID records) (\<lambda>startID. process_records E fuel startID))"

definition processWithdrawalRecords :: "env \<Rightarrow> nat \<Rightarrow> (world, unit) action" where
  "processWithdrawalRecords E fuel = process_records E fuel 0"

fun process_ticks :: "env \<Rightarrow> nat \<Rightarrow> (world, unit) action" where
  "process_ticks E 0 = return_err OutOfFuel"
| "process_ticks E (Suc fuel) =
     and_then (try_result (sleep E)) (\<lambda>tick.
       case tick of
         Inl _ \<Rightarrow> return_ok ()
       | Inr _ \<Rightarrow>
           and_then (try_result (processWithdrawalRecords E fuel)) (\<lambda>r.
             case r of
               Inl e \<Rightarrow> if IsWithdrawalRequestError e then return_err e else process_ticks E fuel
             | Inr _ \<Rightarrow> process_ticks E fuel))"

definition StartProcessWithdrawalRequests :: "env \<Rightarrow> nat \<Rightarrow> (world, unit) action" where
  "StartProcessWithdrawalRequests E fuel =
     (if go_seconds (pwr_IntervalSeconds (cfg_ProcessWithdrawalRequests (env_cfg E))) \<le> 0
      then return_err (Panic ''non-positive interval for NewTicker'')
      else process_ticks E fuel)"

end
