(* ===== verification/Withdraw_Frame.thy ===== *)
theory Withdraw_Frame
  imports Withdraw_Process
begin

text \<open>
  What a run of the withdrawal processor keeps of the transaction table and of the memory of the
  goroutine, what its safety checks establish, and the payout it attaches. Other goroutines write
  between any two statements throughout.
\<close>

section \<open>The payouts of a withdrawal when it is answered\<close>

definition has_row :: "nat \<Rightarrow> db \<Rightarrow> bool" where
  "has_row k d \<longleftrightarrow> (\<exists>q \<in> set (db_transactions d). tx_ID q = k)"

text \<open>Rejected: every attached row is proven never to pay.\<close>

definition never_paid :: "nat \<Rightarrow> db \<Rightarrow> bool" where
  "never_paid k d \<longleftrightarrow> has_row k d \<and>
     (\<forall>r \<in> set (db_transactions d). attached k r \<longrightarrow> IsProvenTerminalFailure r)"

text \<open>Fulfilled: one attached row is confirmed with the hash, all others are proven never to pay.\<close>

definition paid_once :: "nat \<Rightarrow> string \<Rightarrow> db \<Rightarrow> bool" where
  "paid_once k h d \<longleftrightarrow> has_row k d \<and>
     (\<exists>r \<in> set (db_transactions d). attached k r \<and> tx_Status r = TransactionStatusConfirmed \<and>
        tx_TxHash r = Some h \<and>
        (\<forall>s \<in> set (db_transactions d). attached k s \<longrightarrow> s = r \<or> IsProvenTerminalFailure s))"

lemma terminal_failure: "IsProvenTerminalFailure r \<Longrightarrow> terminal r"
  by (auto simp: IsProvenTerminalFailure_def IsProvenUnbroadcastedCancellation_def
      IsProvenOnChainFailure_def terminal_def)

lemma confirmed_terminal: "tx_Status r = TransactionStatusConfirmed \<Longrightarrow> terminal r"
  by (simp add: terminal_def)

lemma failure_not_confirmed: "IsProvenTerminalFailure r \<Longrightarrow> tx_Status r \<noteq> TransactionStatusConfirmed"
  by (auto simp: IsProvenTerminalFailure_def IsProvenUnbroadcastedCancellation_def
      IsProvenOnChainFailure_def)

lemma row_le_attached: "row_le r r' \<Longrightarrow> attached k r' = attached k r"
  by (auto simp: row_le_def identity_def attached_def)

lemma has_row_lasting: "lasting (has_row k)"
  unfolding lasting_def has_row_def by (metis row_leD(1) txs_leD(1))

text \<open>Once all attached rows are settled, no attached row changes and none is added.\<close>

lemma attached_frozen:
  assumes ok: "table_ok d" "table_ok d'" and le: "txs_le d d'" and k: "has_row k d"
    and settled: "\<And>r. r \<in> set (db_transactions d) \<Longrightarrow> attached k r \<Longrightarrow> terminal r"
  shows "s \<in> set (db_transactions d') \<and> attached k s \<longleftrightarrow> s \<in> set (db_transactions d) \<and> attached k s"
proof
  assume "s \<in> set (db_transactions d) \<and> attached k s"
  then show "s \<in> set (db_transactions d') \<and> attached k s"
    using le settled by (metis row_leD(3) txs_leD(1))
next
  assume s: "s \<in> set (db_transactions d') \<and> attached k s"
  obtain q where q: "q \<in> set (db_transactions d)" "tx_ID q = k" using k by (auto simp: has_row_def)
  then obtain q' where q': "q' \<in> set (db_transactions d')" "row_le q q'" using le by (blast dest: txs_leD(1))
  have id': "tx_ID q' = k" using q' q(2) by (simp add: row_leD(1))
  have ids': "ids_ok d'" and roots': "roots_ok d'" using ok(2) by (simp_all add: table_ok_def txs_ok_def)
  show "s \<in> set (db_transactions d) \<and> attached k s"
  proof (cases "tx_ID s < db_next_transaction_id d")
    case True
    with le s obtain r where r: "r \<in> set (db_transactions d)" "row_le r s" by (blast dest: txs_leD(2))
    with s have "attached k r" by (simp add: row_le_attached)
    with r settled have "s = r" by (simp add: row_leD(3))
    with r s show ?thesis by simp
  next
    case False
    have "k < db_next_transaction_id d"
      using ok(1) q by (auto simp: table_ok_def txs_ok_def ids_ok_def)
    with False s have retry: "tx_RetryTransactionID s = Some k" by (auto simp: attached_def)
    with roots' s obtain p where "p \<in> set (db_transactions d')" "tx_ID p = k" "tx_RetryTransactionID p = None"
      by (auto simp: roots_ok_def)
    with ids' q'(1) id' have "tx_RetryTransactionID q' = None" using same_row by metis
    with q'(2) have root: "tx_RetryTransactionID q = None" by (simp add: row_le_def identity_def)
    have "in_chain k d r \<Longrightarrow> r \<in> set (db_transactions d) \<and> attached k r" for r
      by (simp add: in_chain_def root_attached)
    with settled q root have "settled k d"
      by (auto simp: settled_def in_chain_def RootTransactionID_def intro: exI [of _ q])
    then have "in_chain k d' s \<longleftrightarrow> in_chain k d s"
      using txs_le_settled_chain [OF le] by blast
    moreover have "in_chain k d' s" using s retry by (simp add: in_chain_def RootTransactionID_def)
    ultimately show ?thesis using s by (simp add: in_chain_def)
  qed
qed

lemma never_paid_lasting: "lasting (never_paid k)"
  unfolding lasting_def
proof (intro allI impI)
  fix d d' assume ok: "table_ok d" "table_ok d'" and le: "txs_le d d'" and F: "never_paid k d"
  have "has_row k d'" using has_row_lasting ok le F by (auto simp: lasting_def never_paid_def)
  with F attached_frozen [OF ok le, of k] show "never_paid k d'"
    by (simp add: never_paid_def) (metis terminal_failure)
qed

lemma paid_once_lasting: "lasting (paid_once k h)"
  unfolding lasting_def
proof (intro allI impI)
  fix d d' assume ok: "table_ok d" "table_ok d'" and le: "txs_le d d'" and F: "paid_once k h d"
  have k: "has_row k d" "has_row k d'" using has_row_lasting ok le F by (auto simp: lasting_def paid_once_def)
  have "r \<in> set (db_transactions d) \<Longrightarrow> attached k r \<Longrightarrow> terminal r" for r
    using F by (auto simp: paid_once_def terminal_failure confirmed_terminal)
  from attached_frozen [OF ok le k(1) this] F k(2) show "paid_once k h d'"
    unfolding paid_once_def by metis
qed

text \<open>The table that \<open>ListTransactionChain\<close> leaves, when all it read is settled, is what it read.\<close>

lemma chain_read_settled:
  assumes "chain_read k chain d" and "\<And>c. c \<in> set chain \<Longrightarrow> terminal c"
  shows "has_row k d" and "s \<in> set (db_transactions d) \<and> attached k s \<longleftrightarrow> s \<in> set chain"
proof -
  show "has_row k d"
    using assms unfolding chain_read_def has_row_def by (metis row_leD(1))
  show "s \<in> set (db_transactions d) \<and> attached k s \<longleftrightarrow> s \<in> set chain"
    using assms unfolding chain_read_def by (metis row_leD(3))
qed

section \<open>What the steps keep\<close>

fun is_answer :: "ext_call \<Rightarrow> bool" where
  "is_answer (Fulfill i h) = True"
| "is_answer (Reject i) = True"
| "is_answer c = False"

text \<open>The answers given to the Relay so far.\<close>

definition answers :: "world \<Rightarrow> ext_call list" where
  "answers w = filter is_answer (w_calls w)"

text \<open>What the processor never changes in a record.\<close>

definition terms :: "withdraw_record \<Rightarrow> withdraw_record" where
  "terms r = r\<lparr>wr_Status := WithdrawStatusPending, wr_BlockchainTransactionID := None,
     wr_AuthorizationFingerprint := None\<rparr>"

lemma terms_update [simp]:
  "terms (r\<lparr>wr_Status := s\<rparr>) = terms r" "terms (r\<lparr>wr_BlockchainTransactionID := b\<rparr>) = terms r"
  "terms (r\<lparr>wr_AuthorizationFingerprint := f\<rparr>) = terms r"
  by (simp_all add: terms_def)

lemma terms_fields:
  "terms r = q \<Longrightarrow> wr_ID r = wr_ID q \<and> wr_RemoteID r = wr_RemoteID q \<and> wr_Address r = wr_Address q \<and>
     wr_Amount r = wr_Amount q \<and> wr_WithdrawalFee r = wr_WithdrawalFee q \<and>
     wr_BenefitAddress r = wr_BenefitAddress q \<and> wr_Network r = wr_Network q"
  by (auto simp: terms_def)

text \<open>
  The memory the safety of an answer depends on: the attached payout, the terms of the withdrawal, the
  answers.
\<close>

definition memo :: "nat option \<Rightarrow> withdraw_record \<Rightarrow> ext_call list \<Rightarrow> world \<Rightarrow> bool" where
  "memo b i cs w \<longleftrightarrow> wr_BlockchainTransactionID (w_record w) = b \<and>
     terms (w_record w) = i \<and> answers w = cs"

named_theorems calm \<open>actions that keep \<open>memo\<close>\<close>

lemmas memo_defs = memo_def answers_def

lemma calm_primitives [calm]:
  "keeps (memo b i cs) (ask f)" "keeps (memo b i cs) (ask_unit g)"
  "keeps (memo b i cs) (time_now E)" "keeps (memo b i cs) (sleep E)"
  "keeps (memo b i cs) (db_action E h)" "keeps (memo b i cs) (db_query E k)"
  "keeps (memo b i cs) (db_update E u v)" "keeps (memo b i cs) (tell (Alert task msg))"
  "keeps (memo b i cs) the_record"
  by (auto simp: keeps_def ask_def ask_unit_def time_now_def sleep_def db_action_def db_query_def
      db_update_def tell_def writes_def the_record_def reads_def memo_defs Let_def
      split: option.splits prod.splits)

lemma calm_set_record [calm]:
  "(\<And>r. wr_BlockchainTransactionID (f r) = wr_BlockchainTransactionID r) \<Longrightarrow>
   (\<And>r. terms (f r) = terms r) \<Longrightarrow> keeps (memo b i cs) (set_record f)"
  by (simp add: keeps_def set_record_def writes_def memo_defs)

text \<open>A transaction, committed or not, keeps what its body keeps of the memory.\<close>

lemma memory_transaction:
  assumes m: "keeps P m" and P: "\<And>w. P w = R (w_record w) (w_calls w)"
  shows "keeps P (db_transaction E m)"
proof -
  have "P (snd (commit_or_rollback E t0 d0 (m (w\<lparr>w_in_tx := True\<rparr>))))" if "P w" for w t0 d0
  proof -
    have "P (snd (m (w\<lparr>w_in_tx := True\<rparr>)))"
      using m that by (simp add: keeps_def P)
    then show ?thesis
      by (auto simp: commit_or_rollback_def rollback_def P split: prod.split sum.split option.split)
  qed
  moreover have "keeps P (db_query E f)" for f :: "db \<Rightarrow> go_error + unit"
    by (auto simp: keeps_def db_query_def db_action_def Let_def P split: option.splits)
  ultimately show ?thesis
    unfolding db_transaction_def by (intro keeps_and_then) (simp_all add: keeps_def)
qed

lemma calm_transaction [calm]: "keeps (memo b i cs) m \<Longrightarrow> keeps (memo b i cs) (db_transaction E m)"
  by (rule memory_transaction [where R = "\<lambda>r es. wr_BlockchainTransactionID r = b \<and>
      terms r = i \<and> filter is_answer es = cs"]) (simp_all add: memo_defs)

lemma silent_record [silent]:
  "keeps (unchanged cs cl) the_record" "keeps (unchanged cs cl) (set_record f)"
  by (auto simp: keeps_def the_record_def set_record_def reads_def writes_def unchanged_def)

lemma grows_record [grows]:
  "keeps (grown_from L d0) the_record" "keeps (grown_from L d0) (set_record f)"
  by (auto simp: keeps_def the_record_def set_record_def reads_def writes_def grown_from_def world_ok_def
      clients_ok_def sends_recorded_def)

text \<open>Statements that leave the transaction table alone.\<close>

lemma table_ok_unrelated:
  "db_transactions d' = db_transactions d \<Longrightarrow> db_next_transaction_id d' = db_next_transaction_id d \<Longrightarrow>
   table_ok d \<Longrightarrow> table_ok d' \<and> txs_le d d'"
  by (simp add: table_ok_def txs_ok_other_tables [of d' d] ancestors_ok_other_tables [of d' d] db_started_def
      txs_le_other_tables)

lemma grows_unrelated [grows]:
  assumes "\<And>d. db_transactions (snd (f d)) = db_transactions d"
    and "\<And>d. db_next_transaction_id (snd (f d)) = db_next_transaction_id d"
  shows "keeps (grown_from L d0) (db_action E f)"
  using assms by (intro grows_db_action) (simp add: table_ok_unrelated)

lemma record_statements [simp]:
  "db_transactions (snd (update_record i u d)) = db_transactions d"
  "db_next_transaction_id (snd (update_record i u d)) = db_next_transaction_id d"
  "db_transactions (snd (update_fingerprint i fp d)) = db_transactions d"
  "db_next_transaction_id (snd (update_fingerprint i fp d)) = db_next_transaction_id d"
  "db_transactions (snd (save_record q d)) = db_transactions d"
  "db_next_transaction_id (snd (save_record q d)) = db_next_transaction_id d"
  "db_transactions (snd (save_balance i x d)) = db_transactions d"
  "db_next_transaction_id (snd (save_balance i x d)) = db_next_transaction_id d"
  by (simp_all add: update_record_def update_fingerprint_def save_record_def save_balance_def)

text \<open>The steps of the processor, in the order of the calls.\<close>

lemma calm_reads [calm]:
  "keeps (memo b i cs) (Sync E tx)" "keeps (memo b i cs) (GetTransactionByID E k)"
  "keeps (memo b i cs) (GetRetryTransactionsByID E k)"
  by (auto simp: Sync_def GetTransactionByID_def GetRetryTransactionsByID_def intro: calm)

lemma calm_ListTransactionChain [calm]: "keeps (memo b i cs) (ListTransactionChain E k)"
  unfolding ListTransactionChain_def by (intro safe calm)

lemma calm_cancellation [calm]:
  "keeps (memo b i cs) (RequestCancellation E tx msg)"
  "keeps (memo b i cs) (CancelRequestedUnbroadcasted E tx)"
  unfolding RequestCancellation_def CancelRequestedUnbroadcasted_def by (intro safe calm)+

lemma UpdateStatus_keeps:
  "keeps (memo b i cs) (UpdateStatus E s)" "keeps (grown_from L d0) (UpdateStatus E s)"
  "keeps (unchanged es cl) (UpdateStatus E s)"
  unfolding UpdateStatus_def by (intro safe calm grows silent; simp)+

declare UpdateStatus_keeps(1) [calm] UpdateStatus_keeps(2) [grows] UpdateStatus_keeps(3) [silent]

lemma ensureFingerprint_keeps:
  "keeps (memo b i cs) (ensureWithdrawalAuthorizationFingerprint E)"
  "keeps (grown_from L d0) (ensureWithdrawalAuthorizationFingerprint E)"
  unfolding ensureWithdrawalAuthorizationFingerprint_def by (intro safe calm grows; simp)+

declare ensureFingerprint_keeps(1) [calm] ensureFingerprint_keeps(2) [grows]

lemma chain_reads_keep:
  "keeps (memo b i cs) (withdrawalChainHasCommittedBroadcast E k)"
  "keeps (grown_from L d0) (withdrawalChainHasCommittedBroadcast E k)"
  "keeps (memo b i cs) (getCurrentBlockchainTransaction E k)"
  "keeps (grown_from L d0) (getCurrentBlockchainTransaction E k)"
  unfolding withdrawalChainHasCommittedBroadcast_def getCurrentBlockchainTransaction_def
  by (intro safe calm grows)+

declare chain_reads_keep(1,3) [calm] chain_reads_keep(2,4) [grows]

lemma stop_keeps:
  "keeps (memo b i cs) (stopForBlockingTimeout tx)" "keeps (grown_from L d0) (stopForBlockingTimeout tx)"
  unfolding stopForBlockingTimeout_def by (intro safe calm grows; simp)+

declare stop_keeps(1) [calm] stop_keeps(2) [grows]

lemma stop_triple: "triple P (stopForBlockingTimeout tx) Q (\<lambda>_ _. True)"
  by (auto simp: triple_def stopForBlockingTimeout_def the_record_def tell_def action_defs)

lemma ensure_safe_keeps:
  "keeps (memo b i cs) (ensureWithdrawalRejectSafe E)"
  "keeps (grown_from L d0) (ensureWithdrawalRejectSafe E)"
  "keeps (memo b i cs) (ensureWithdrawalFulfillSafe E tx)"
  "keeps (grown_from L d0) (ensureWithdrawalFulfillSafe E tx)"
  unfolding ensureWithdrawalRejectSafe_def ensureWithdrawalFulfillSafe_def Let_def
  by (intro safe calm grows)+

declare ensure_safe_keeps(1,3) [calm] ensure_safe_keeps(2,4) [grows]

lemma fail_record_keeps:
  "keeps (memo b i cs) (fail_record E tx)" "keeps (grown_from L d0) (fail_record E tx)"
  unfolding fail_record_def by (intro safe calm grows)+

declare fail_record_keeps(1) [calm] fail_record_keeps(2) [grows]

lemma recheck_attached_keeps:
  "keeps (memo b i cs) (recheck_attached E tx k)" "keeps (grown_from L d0) (recheck_attached E tx k)"
  unfolding recheck_attached_def by (intro safe calm grows)+

declare recheck_attached_keeps(1) [calm] recheck_attached_keeps(2) [grows]

lemma calm_await_outcome [calm]: "keeps (memo b i cs) (await_outcome E n tx)"
  by (induction E n tx rule: await_outcome.induct) (auto intro!: safe calm)

lemma grows_await_outcome [grows]: "keeps (grown_from L d0) (await_outcome E n tx)"
  by (induction E n tx rule: await_outcome.induct) (auto intro!: safe grows)

lemma debit_account_keeps:
  "keeps (memo b i cs) (debit_account E)" "keeps (grown_from L d0) (debit_account E)"
  unfolding debit_account_def Let_def by (intro safe calm grows silent; simp)+

declare debit_account_keeps(1) [calm] debit_account_keeps(2) [grows]

lemma settle_outcome_keeps:
  "keeps (memo b i cs) (settle_outcome E tx)" "keeps (grown_from L d0) (settle_outcome E tx)"
  unfolding settle_outcome_def by (intro safe calm grows)+

declare settle_outcome_keeps(1) [calm] settle_outcome_keeps(2) [grows]

lemma payout_to_report_keeps:
  "keeps (memo b i cs) (payout_to_report E tx)" "keeps (grown_from L d0) (payout_to_report E tx)"
  unfolding payout_to_report_def by (intro safe calm grows)+

declare payout_to_report_keeps(1) [calm] payout_to_report_keeps(2) [grows]

section \<open>The payouts the processor holds in memory\<close>

text \<open>A row in memory that is attached to \<open>k\<close>, and final as it is when it is settled.\<close>

definition mine :: "nat \<Rightarrow> btx \<Rightarrow> db \<Rightarrow> bool" where
  "mine k tx d \<longleftrightarrow> attached k tx \<and> 0 < tx_ID tx \<and>
     (\<exists>q \<in> set (db_transactions d). identity q = identity tx \<and> (terminal tx \<longrightarrow> q = tx))"

lemma mine_lasting: "lasting (mine k tx)"
  unfolding lasting_def mine_def
  by (metis identity_def row_le_def txs_leD(1))

lemma mine_row: "table_ok d \<Longrightarrow> r \<in> set (db_transactions d) \<Longrightarrow> attached k r \<Longrightarrow> mine k r d"
  by (auto simp: mine_def table_ok_def txs_ok_def ids_ok_def)

lemma Sync_mine:
  "triple (\<lambda>w. grown_from L d0 w \<and> mine k tx (w_db w)) (Sync E tx)
     (\<lambda>tx w. grown_from L d0 w \<and> mine k tx (w_db w)) (\<lambda>_. grown_from L d0)"
proof -
  have "mine k r d" if d: "table_ok d" "mine k tx d" "first_transaction (tx_ID tx) d = Inr r" for d r
  proof -
    obtain q where q: "q \<in> set (db_transactions d)" "identity q = identity tx" "0 < tx_ID tx" "attached k tx"
      using d(2) by (auto simp: mine_def)
    have r: "r \<in> set (db_transactions d)" "tx_ID r = tx_ID tx"
      using d(3) q(3) by (auto intro: first_transaction_row first_transaction_id)
    then have "r = q" using d(1) q(1,2) same_row [of d r q] by (simp add: table_ok_def txs_ok_def identity_def)
    with q r d(1) show ?thesis by (intro mine_row) (auto simp: attached_def identity_def)
  qed
  then show ?thesis
    unfolding Sync_def
    by (intro triple_weaken [OF query_triple [where F = "mine k tx" and Q = "mine k", OF _ mine_lasting]]) auto
qed

lemma await_outcome_mine:
  "triple (\<lambda>w. grown_from L d0 w \<and> mine k tx (w_db w)) (await_outcome E n tx)
     (\<lambda>tx w. grown_from L d0 w \<and> mine k tx (w_db w)) (\<lambda>_. grown_from L d0)"
proof (induction E n tx rule: await_outcome.induct)
  case (1 E tx)
  then show ?case by (auto intro: triple_return_err)
next
  case (2 E n tx)
  have sleep: "triple (\<lambda>w. grown_from L d0 w \<and> mine k x (w_db w)) (sleep E)
     (\<lambda>_ w. grown_from L d0 w \<and> mine k x (w_db w)) (\<lambda>_. grown_from L d0)" for x
    using grows_lasting [OF grows_primitives(4) mine_lasting] unfolding keeps_triple
    by (rule triple_weaken) auto
  show ?case
  proof (cases "is_terminal_status (tx_Status tx)")
    case True
    then show ?thesis by (simp add: triple_return_ok)
  next
    case False
    with 2 show ?thesis
      by (auto intro!: triple_and_then [OF Sync_mine] triple_and_then [OF sleep])
  qed
qed

lemma current_mine:
  assumes "0 < k"
  shows "triple (grown_from L d0) (getCurrentBlockchainTransaction E k)
     (\<lambda>tx w. grown_from L d0 w \<and> mine k tx (w_db w)) (\<lambda>_. grown_from L d0)"
  unfolding getCurrentBlockchainTransaction_def
proof (rule triple_and_then)
  have "mine k r d" if "table_ok d" "first_transaction k d = Inr r" for d r
    using that assms first_transaction_row first_transaction_id [OF that(2) assms]
    by (intro mine_row) (auto simp: attached_def)
  then show "triple (grown_from L d0) (GetTransactionByID E k)
      (\<lambda>tx w. grown_from L d0 w \<and> mine k tx (w_db w)) (\<lambda>_. grown_from L d0)"
    unfolding GetTransactionByID_def
    by (intro triple_weaken [OF query_triple [where F = "\<lambda>_. True" and Q = "mine k", OF _ true_lasting]]) auto
  fix tx
  have "triple (\<lambda>w. grown_from L d0 w \<and> mine k tx (w_db w)) (GetRetryTransactionsByID E k)
      (\<lambda>rs w. grown_from L d0 w \<and> mine k tx (w_db w) \<and> (\<forall>r \<in> set rs. mine k r (w_db w)))
      (\<lambda>_. grown_from L d0)"
    unfolding GetRetryTransactionsByID_def
    by (intro query_triple mine_lasting) (auto simp: retry_rows_def attached_def intro: mine_row)
  then show "triple (\<lambda>w. grown_from L d0 w \<and> mine k tx (w_db w))
      (if tx_Status tx \<noteq> TransactionStatusFailed then return_ok tx
       else and_then (GetRetryTransactionsByID E k) (\<lambda>retryTransactions.
         return_ok (if retryTransactions = [] then tx else last retryTransactions)))
      (\<lambda>tx w. grown_from L d0 w \<and> mine k tx (w_db w)) (\<lambda>_. grown_from L d0)"
    by (intro triple_if triple_return_ok) (auto intro!: triple_and_then triple_return_ok)
qed

text \<open>What the two safety checks establish when they pass.\<close>

lemma stop_never_ok [simp]: "stopForBlockingTimeout tx w \<noteq> (Inr x, w')"
  by (auto simp: stopForBlockingTimeout_def and_then_ok return_err_def)

lemma the_record_eq [simp]: "the_record w = (Inr (w_record w), w)"
  by (simp add: the_record_def reads_def)

lemma chain_read_after:
  assumes "grown_from L d0 w" and "k \<noteq> 0" and "ListTransactionChain E k w = (Inr chain, t)"
  shows "grown_from L d0 t \<and> chain_read k chain (w_db t)"
  using tripleD_ok [OF ListTransactionChain_triple [OF _ true_lasting] _ assms(3), of L d0] assms(1,2) by auto

lemma reject_safe_ok:
  assumes g: "grown_from L d0 w" and k: "wr_BlockchainTransactionID (w_record w) = Some k" "k \<noteq> 0"
    and run: "ensureWithdrawalRejectSafe E w = (Inr x, w')"
  shows "never_paid k (w_db w')"
proof -
  obtain chain where chain: "ListTransactionChain E k w = (Inr chain, w')"
    and all: "co_AllProvenFail (ClassifyTransactionChain chain)"
    using run k(1)
    by (auto simp: ensureWithdrawalRejectSafe_def and_then_ok Let_def return_ok_def
        split: if_splits option.splits)
  have "chain_read k chain (w_db w')" using chain_read_after [OF g k(2) chain] by simp
  with all show ?thesis
    using chain_read_settled [of k chain "w_db w'"] terminal_failure
    unfolding never_paid_def ClassifyTransactionChain_eq by blast
qed

lemma fulfill_safe_ok:
  assumes g: "grown_from L d0 w" and k: "wr_BlockchainTransactionID (w_record w) = Some k" "k \<noteq> 0"
    and mine: "tx_Status tx = TransactionStatusConfirmed \<Longrightarrow> mine k tx (w_db w)"
    and run: "ensureWithdrawalFulfillSafe E (Some tx) w = (Inr x, w')"
  shows "tx_Status tx = TransactionStatusConfirmed \<and> (\<exists>h. tx_TxHash tx = Some h \<and> paid_once k h (w_db w'))"
proof -
  let ?confirmed = "\<lambda>t. tx_Status t = TransactionStatusConfirmed"
  obtain chain where chain: "ListTransactionChain E k w = (Inr chain, w')"
    and one: "length (filter ?confirmed chain) = 1"
    and rest: "find (\<lambda>t. \<not> ?confirmed t \<and> \<not> IsProvenTerminalFailure t) chain = None"
    and tx: "?confirmed tx" "tx_TxHash tx \<noteq> None"
    using run k(1)
    by (auto simp: ensureWithdrawalFulfillSafe_def and_then_ok Let_def return_ok_def
        ClassifyTransactionChain_eq split: if_splits option.splits)
  have g': "grown_from L d0 w'" and read: "chain_read k chain (w_db w')"
    using chain_read_after [OF g k(2) chain] by simp_all
  have kinds: "?confirmed c \<or> IsProvenTerminalFailure c" if "c \<in> set chain" for c
    using rest that by (auto simp: find_None_iff)
  then have settled: "c \<in> set chain \<Longrightarrow> terminal c" for c
    by (auto intro: terminal_failure confirmed_terminal)
  note same = chain_read_settled [OF read settled]
  have "mine k tx (w_db w')"
    using keepsD [OF grows_lasting [OF grows_ListTransactionChain mine_lasting] _ chain] g mine [OF tx(1)] by blast
  with tx(1) have "tx \<in> set (db_transactions (w_db w'))" "attached k tx"
    by (auto simp: mine_def confirmed_terminal)
  then have "tx \<in> set chain" using same(2) by blast
  then have c: "tx \<in> set (filter ?confirmed chain)" using tx(1) by simp
  obtain u where "filter ?confirmed chain = [u]" using one by (auto simp: length_Suc_conv)
  with c have u: "filter ?confirmed chain = [tx]" by simp
  have "s = tx \<or> IsProvenTerminalFailure s" if "s \<in> set (db_transactions (w_db w'))" "attached k s" for s
  proof -
    have s: "s \<in> set chain" using same(2) that by blast
    then have "?confirmed s \<Longrightarrow> s \<in> set (filter ?confirmed chain)" by simp
    with u kinds [OF s] show ?thesis by auto
  qed
  moreover obtain h where "tx_TxHash tx = Some h" using tx(2) by auto
  ultimately show ?thesis
    using same(1) tx(1) \<open>tx \<in> set (db_transactions (w_db w'))\<close> \<open>attached k tx\<close> unfolding paid_once_def by blast
qed

section \<open>Attaching\<close>

lemma new_payout_root:
  "new_payout E rcd = Inr tx \<Longrightarrow> fresh_row tx \<and> tx_ID tx = 0 \<and> tx_RetryTransactionID tx = None"
  by (auto simp: new_payout_def split: option.splits if_splits
      dest: NewSendETHTransaction_ok NewSendERC20Transaction_ok)

text \<open>The processor's own memory: the remote request and the answers.\<close>

definition at_request :: "withdraw_record \<Rightarrow> ext_call list \<Rightarrow> world \<Rightarrow> bool" where
  "at_request i cs w \<longleftrightarrow> terms (w_record w) = i \<and> answers w = cs"

lemma memo_at_request: "memo b i cs w \<longleftrightarrow> wr_BlockchainTransactionID (w_record w) = b \<and> at_request i cs w"
  by (auto simp: memo_def at_request_def)

lemma calm_at_request:
  assumes "\<And>b. keeps (memo b i cs) m"
  shows "keeps (at_request i cs) m"
  using assms unfolding keeps_def memo_at_request by metis

lemma save_root_row:
  assumes "table_ok d" and "tx_ID tx = 0" and "fresh_row tx" and "tx_RetryTransactionID tx = None"
  shows "mine (db_next_transaction_id d) (tx\<lparr>tx_ID := db_next_transaction_id d\<rparr>) (insert_transaction tx d)"
  using assms table_ok_insert_root [of d tx]
  by (intro mine_row) (auto simp: attached_def)

lemma Save_root_triple:
  assumes "tx_ID tx = 0" and "fresh_row tx" and "tx_RetryTransactionID tx = None"
  shows "triple (grown_from L d0) (Save E tx)
     (\<lambda>p w. grown_from L d0 w \<and> mine (tx_ID p) p (w_db w)) (\<lambda>_. grown_from L d0)"
  unfolding Save_def using assms
  by (intro triple_weaken [OF db_action_triple [where F = "\<lambda>_. True", OF true_lasting]])
    (auto simp: save_root_row dest: table_ok_insert_root intro: txs_le_trans)

definition attach_body :: "env \<Rightarrow> btx \<Rightarrow> (world, btx) action" where
  "attach_body E tx =
     and_then (Save E tx) (\<lambda>tx.
     and_then (set_record (\<lambda>r. r\<lparr>wr_BlockchainTransactionID := Some (tx_ID tx)\<rparr>)) (\<lambda>_.
     and_then the_record (\<lambda>rcd.
     and_then (db_action E (save_record rcd)) (\<lambda>_. return_ok tx))))"

lemma attach_payout_eq: "attach_payout E tx = db_transaction E (attach_body E tx)"
  by (simp add: attach_payout_def attach_body_def)

lemma attach_body_keeps:
  assumes "tx_ID tx = 0" and "fresh_row tx" and "tx_RetryTransactionID tx = None"
  shows "keeps (grown_from L d0) (attach_body E tx)"
  unfolding attach_body_def using assms by (intro safe grows grows_Save_root; simp)

lemma silent_attach_body: "keeps (unchanged cs cl) (attach_body E tx)"
  unfolding attach_body_def Save_def by (intro safe silent)

lemma attach_body_ok:
  assumes g: "grown_from L d0 w" and tx: "tx_ID tx = 0" "fresh_row tx" "tx_RetryTransactionID tx = None"
    and run: "attach_body E tx w = (Inr p, u)"
  shows "grown_from L d0 u \<and> wr_BlockchainTransactionID (w_record u) = Some (tx_ID p) \<and> mine (tx_ID p) p (w_db u)"
proof -
  let ?attach = "\<lambda>r. r\<lparr>wr_BlockchainTransactionID := Some (tx_ID p)\<rparr>"
  obtain v where v: "Save E tx w = (Inr p, v)"
    and save: "db_action E (save_record (?attach (w_record v))) (v\<lparr>w_record := ?attach (w_record v)\<rparr>) = (Inr (), u)"
    using run by (auto simp: attach_body_def and_then_ok return_ok_def set_record_def writes_def)
  let ?v = "v\<lparr>w_record := ?attach (w_record v)\<rparr>"
  have "grown_from L d0 ?v \<and> mine (tx_ID p) p (w_db ?v)"
    using tripleD_ok [OF Save_root_triple [OF tx] g v]
    by (simp add: grown_from_def world_ok_def clients_ok_def sends_recorded_def)
  moreover have keep: "keeps (\<lambda>w. grown_from L d0 w \<and> mine (tx_ID p) p (w_db w)) (db_action E (save_record q))" for q
    by (rule grows_lasting [OF _ mine_lasting], rule grows_unrelated) simp_all
  ultimately have "grown_from L d0 u \<and> mine (tx_ID p) p (w_db u)"
    using keepsD [OF keep _ save] by simp
  moreover have "wr_BlockchainTransactionID (w_record u) = Some (tx_ID p)"
    using save by (auto simp: db_action_def Let_def split: option.splits prod.splits)
  ultimately show ?thesis by simp
qed

lemma attach_payout_ok:
  assumes g: "grown_from L d0 w" and tx: "tx_ID tx = 0" "fresh_row tx" "tx_RetryTransactionID tx = None"
    and run: "attach_payout E tx w = (Inr p, w')"
  shows "wr_BlockchainTransactionID (w_record w') = Some (tx_ID p) \<and> mine (tx_ID p) p (w_db w')"
proof -
  obtain v u where v: "attach_body E tx v = (Inr p, u)" "w' = u\<lparr>w_in_tx := False, w_tick := Suc (w_tick u)\<rparr>"
    "v = (snd (db_query E (\<lambda>_. Inr () :: go_error + unit) w))\<lparr>w_in_tx := True\<rparr>"
    using run unfolding attach_payout_eq by (rule db_transaction_commits)
  have "grown_from L d0 (snd (db_query E (\<lambda>_. Inr () :: go_error + unit) w))"
    by (rule keepsD [OF grows_primitives(5) g prod.collapse [symmetric]])
  then have "grown_from L d0 v"
    by (simp add: v(3) grown_from_def world_ok_def clients_ok_def sends_recorded_def)
  from attach_body_ok [OF this tx v(1)] v(2) show ?thesis by simp
qed

lemma grows_attach_payout:
  assumes "tx_ID tx = 0" and "fresh_row tx" and "tx_RetryTransactionID tx = None"
  shows "keeps (grown_from L d0) (attach_payout E tx)"
  unfolding attach_payout_eq by (intro grows_transaction silent_attach_body attach_body_keeps [OF assms])

end
