(* ===== verification/Withdraw_Safety.thy ===== *)
theory Withdraw_Safety
  imports Withdraw_Frame
begin

text \<open>
  Safety of the withdrawal processor: the row it goes on with in every round over a pending record,
  and what holds of the payouts of a withdrawal whenever the Relay is answered, also after a time-out.
\<close>

section \<open>Processing a pending record\<close>

text \<open>
  The row the processor goes on with. When it is confirmed, it is the attached row itself: a row that
  the processor has changed in memory only is never confirmed.
\<close>

definition reported :: "nat option \<Rightarrow> btx option \<Rightarrow> db \<Rightarrow> bool" where
  "reported b t d \<longleftrightarrow> (\<forall>tx. t = Some tx \<longrightarrow> tx_Status tx = TransactionStatusConfirmed \<longrightarrow>
     (\<exists>k. b = Some k \<and> mine k tx d))"

lemma reported_lasting: "lasting (reported b t)"
  using mine_lasting unfolding lasting_def reported_def by metis

lemma reported_None [simp]: "reported b None d"
  by (simp add: reported_def)

lemma reported_open: "tx_Status tx \<noteq> TransactionStatusConfirmed \<Longrightarrow> reported b (Some tx) d"
  by (simp add: reported_def)

lemma reported_mine: "mine k tx d \<Longrightarrow> reported (Some k) (Some tx) d"
  by (simp add: reported_def)

lemma RequestCancellation_status:
  "returns (RequestCancellation E tx msg) (\<lambda>(_, tx'). tx_Status tx' = tx_Status tx)"
  by (auto simp: returns_def RequestCancellation_def and_then_ok return_ok_def return_err_def
      request_cancellation_set_def split: if_splits)

lemma CancelRequestedUnbroadcasted_status:
  "returns (CancelRequestedUnbroadcasted E tx)
     (\<lambda>(_, tx'). tx_Status tx' = tx_Status tx \<or> tx_Status tx' = TransactionStatusCancelled)"
  by (auto simp: returns_def CancelRequestedUnbroadcasted_def and_then_ok return_ok_def return_err_def
      cancel_set_def split: if_splits)

lemma keeps_reported:
  "(\<And>d1. txs_le d0 d1 \<Longrightarrow> keeps (grown_from L d1) m) \<Longrightarrow>
   keeps (\<lambda>w. grown_from L d0 w \<and> reported b t (w_db w)) m"
  by (rule grows_lasting [OF _ reported_lasting])

lemma fail_record_triple:
  "triple (\<lambda>w. grown_from L d0 w \<and> reported b t (w_db w)) (fail_record E t)
     (\<lambda>flow w. grown_from L d0 w \<and> flow = Stop t \<and> reported b t (w_db w)) (\<lambda>_. grown_from L d0)"
proof -
  have "triple (\<lambda>w. grown_from L d0 w \<and> reported b t (w_db w)) (fail_record E t)
      (\<lambda>flow w. (grown_from L d0 w \<and> reported b t (w_db w)) \<and> flow = Stop t)
      (\<lambda>_ w. grown_from L d0 w \<and> reported b t (w_db w))"
    by (intro triple_returns keeps_reported grows)
      (auto simp: fail_record_def returns_def and_then_ok return_ok_def)
  then show ?thesis by (rule triple_weaken) auto
qed

definition stops_with :: "(btx option \<Rightarrow> bool) \<Rightarrow> ('a \<Rightarrow> bool) \<Rightarrow> 'a flow \<Rightarrow> bool" where
  "stops_with P Q flow \<longleftrightarrow> (case flow of Stop t \<Rightarrow> P t | Again t \<Rightarrow> P t | Go_on x \<Rightarrow> Q x)"

lemma stops_with_simps [simp]:
  "stops_with P Q (Stop t) = P t" "stops_with P Q (Again t) = P t" "stops_with P Q (Go_on x) = Q x"
  by (simp_all add: stops_with_def)

lemma recheck_attached_triple:
  assumes "0 < k"
  shows "triple (grown_from L d0) (recheck_attached E t k)
     (\<lambda>flow w. grown_from L d0 w \<and> stops_with (\<lambda>t. reported (Some k) t (w_db w)) (\<lambda>_. True) flow)
     (\<lambda>_. grown_from L d0)"
proof -
  let ?R = "\<lambda>tx w. grown_from L d0 w \<and> reported (Some k) (Some tx) (w_db w)"
  let ?S = "\<lambda>flow w. grown_from L d0 w \<and> stops_with (\<lambda>t. reported (Some k) t (w_db w)) (\<lambda>_. True) flow"
  have grown: "keeps (grown_from L d0) m \<Longrightarrow> triple (grown_from L d0) m (\<lambda>_. grown_from L d0) (\<lambda>_. grown_from L d0)"
    for m :: "(world, 'z) action"
    by (simp add: keeps_triple)
  have request: "triple (?R tx) (if tx_Status tx = TransactionStatusPending \<or> tx_Status tx = TransactionStatusSending
       then and_then (RequestCancellation E tx msg) (\<lambda>(_, current). return_ok current)
       else return_ok tx) ?R (\<lambda>_. grown_from L d0)" for tx msg
  proof (rule triple_if)
    assume open_tx: "tx_Status tx = TransactionStatusPending \<or> tx_Status tx = TransactionStatusSending"
    have run: "triple (?R tx) (RequestCancellation E tx msg)
        (\<lambda>(_, c) w. grown_from L d0 w \<and> tx_Status c = tx_Status tx) (\<lambda>_. grown_from L d0)"
      by (rule triple_weaken [OF triple_returns [OF grows_RequestCancellation RequestCancellation_status]]) auto
    show "triple (?R tx) (and_then (RequestCancellation E tx msg) (\<lambda>(_, current). return_ok current)) ?R
        (\<lambda>_. grown_from L d0)"
      using open_tx by (intro triple_and_then [OF run]) (auto intro!: triple_return_ok simp: reported_def)
  qed (rule triple_return_ok)
  have cancel: "triple (?R tx) (if tx_Status tx = TransactionStatusPending then CancelRequestedUnbroadcasted E tx
       else return_ok (True, tx)) (\<lambda>(_, tx'). ?R tx') (\<lambda>_. grown_from L d0)" for tx
  proof (rule triple_if)
    assume pending: "tx_Status tx = TransactionStatusPending"
    show "triple (?R tx) (CancelRequestedUnbroadcasted E tx) (\<lambda>(_, tx'). ?R tx') (\<lambda>_. grown_from L d0)"
      using pending
      by (intro triple_weaken [OF triple_returns
            [OF grows_CancelRequestedUnbroadcasted [of L d0] CancelRequestedUnbroadcasted_status]])
        (auto intro: reported_open)
  qed (rule triple_return_ok, simp)
  have current: "triple (grown_from L d0) (getCurrentBlockchainTransaction E k) ?R (\<lambda>_. grown_from L d0)"
    by (rule triple_weaken [OF current_mine [OF assms]]) (auto intro: reported_mine)
  have stop: "triple (?R tx) (fail_record E (Some tx)) ?S (\<lambda>_. grown_from L d0)" for tx
    by (rule triple_weaken [OF fail_record_triple]) auto
  have withdraw: "triple (\<lambda>w. grown_from L d0 w) (and_then (getCurrentBlockchainTransaction E k) (\<lambda>current.
       and_then (if tx_Status current = TransactionStatusPending \<or> tx_Status current = TransactionStatusSending
                 then and_then (RequestCancellation E current (error_text authorizationErr))
                        (\<lambda>(_, current). return_ok current)
                 else return_ok current) (\<lambda>current.
       and_then (if tx_Status current = TransactionStatusPending then CancelRequestedUnbroadcasted E current
                 else return_ok (True, current)) (\<lambda>(cancelled, current).
         if \<not> cancelled then return_ok (Again (Some current))
         else if tx_Status current \<noteq> TransactionStatusSending then fail_record E (Some current)
         else return_ok (Go_on (Some current)))))) ?S (\<lambda>_. grown_from L d0)" for authorizationErr
    by (rule triple_and_then [OF current], rule triple_and_then [OF request], rule triple_and_then [OF cancel])
      (auto intro!: triple_if triple_return_ok stop)
  show ?thesis
    unfolding recheck_attached_def
    by (intro triple_and_then [OF grown [OF chain_reads_keep(2)]] triple_if
        triple_and_then [OF grown [OF keeps_try [OF ensureFingerprint_keeps(2)]]])
      (auto intro!: triple_return_ok withdraw split: sum.split)
qed

text \<open>Memory and table between two rounds of the loop over a pending record.\<close>

definition holding :: "ethlib \<Rightarrow> db \<Rightarrow> withdraw_record \<Rightarrow> ext_call list \<Rightarrow> btx option \<Rightarrow> world \<Rightarrow> bool" where
  "holding L d0 i cs t w \<longleftrightarrow> grown_from L d0 w \<and> at_request i cs w \<and>
     wr_BlockchainTransactionID (w_record w) \<noteq> Some 0 \<and>
     reported (wr_BlockchainTransactionID (w_record w)) t (w_db w)"

text \<open>The row to wait for.\<close>

definition awaiting :: "ethlib \<Rightarrow> db \<Rightarrow> withdraw_record \<Rightarrow> ext_call list \<Rightarrow> btx \<Rightarrow> world \<Rightarrow> bool" where
  "awaiting L d0 i cs tx w \<longleftrightarrow> grown_from L d0 w \<and> at_request i cs w \<and>
     (\<exists>k. k \<noteq> 0 \<and> wr_BlockchainTransactionID (w_record w) = Some k \<and> mine k tx (w_db w))"

definition undecided :: "ethlib \<Rightarrow> db \<Rightarrow> withdraw_record \<Rightarrow> ext_call list \<Rightarrow> world \<Rightarrow> bool" where
  "undecided L d0 i cs w \<longleftrightarrow> grown_from L d0 w \<and> at_request i cs w"

lemma awaiting_holding: "awaiting L d0 i cs tx w \<Longrightarrow> holding L d0 i cs (Some tx) w"
  by (auto simp: awaiting_def holding_def reported_def)

text \<open>A calm action that grows the table keeps both, and any lasting fact.\<close>

lemma holding_keeps:
  assumes "\<And>d1. txs_le d0 d1 \<Longrightarrow> keeps (grown_from L d1) m" and calm: "\<And>b. keeps (memo b i cs) m"
  shows "keeps (holding L d0 i cs t) m"
  unfolding keeps_def
proof (intro allI impI)
  fix w assume w: "holding L d0 i cs t w"
  let ?b = "wr_BlockchainTransactionID (w_record w)"
  have "memo ?b i cs (snd (m w))"
    using calm [of ?b] w by (simp add: keeps_def memo_at_request holding_def)
  moreover have "grown_from L d0 (snd (m w)) \<and> reported ?b t (w_db (snd (m w)))"
    using keeps_reported [OF assms(1), where b = ?b and t = t] w by (simp add: keeps_def holding_def)
  ultimately show "holding L d0 i cs t (snd (m w))"
    using w by (simp add: holding_def memo_at_request)
qed

lemma holding_undecided: "holding L d0 i cs t w \<Longrightarrow> undecided L d0 i cs w"
  by (simp add: holding_def undecided_def)

lemma awaiting_undecided: "awaiting L d0 i cs t w \<Longrightarrow> undecided L d0 i cs w"
  by (simp add: awaiting_def undecided_def)

lemma attach_payout_request: "keeps (at_request i cs) (attach_payout E tx)"
  unfolding attach_payout_eq
proof (rule memory_transaction)
  have set: "keeps (at_request i cs) (set_record (\<lambda>r. r\<lparr>wr_BlockchainTransactionID := b\<rparr>))" for b
    by (simp add: keeps_def set_record_def writes_def at_request_def answers_def)
  show "keeps (at_request i cs) (attach_body E tx)"
    unfolding attach_body_def Save_def by (intro keeps_and_then set) (intro calm_at_request calm safe)+
  show "at_request i cs w = (\<lambda>r es. terms r = i \<and> filter is_answer es = cs) (w_record w) (w_calls w)" for w
    by (simp add: at_request_def answers_def)
qed

lemma attach_payout_triple:
  assumes tx: "tx_ID tx = 0" "fresh_row tx" "tx_RetryTransactionID tx = None"
  shows "triple (undecided L d0 i cs) (attach_payout E tx) (awaiting L d0 i cs) (\<lambda>_. undecided L d0 i cs)"
  unfolding triple_def
proof (intro allI impI)
  fix w r t assume w: "undecided L d0 i cs w" and run: "attach_payout E tx w = (r, t)"
  then have t: "undecided L d0 i cs t"
    using keepsD [OF grows_attach_payout [OF tx] _ run] keepsD [OF attach_payout_request _ run]
    by (auto simp: undecided_def)
  then show "case r of Inl e \<Rightarrow> undecided L d0 i cs t | Inr x \<Rightarrow> awaiting L d0 i cs x t"
    using attach_payout_ok [OF _ tx] w run
    by (cases r) (auto simp: undecided_def awaiting_def mine_def)
qed

lemma holding_then:
  assumes "\<And>d1. txs_le d0 d1 \<Longrightarrow> keeps (grown_from L d1) m" and "\<And>b. keeps (memo b i cs) m"
    and "\<And>x. triple (holding L d0 i cs t) (f x) Q (\<lambda>_. undecided L d0 i cs)"
  shows "triple (holding L d0 i cs t) (and_then m f) Q (\<lambda>_. undecided L d0 i cs)"
  using holding_keeps [OF assms(1,2)]
  by (intro triple_and_then [where B = "\<lambda>_. holding L d0 i cs t"] assms(3))
    (auto simp: keeps_triple intro: triple_weaken holding_undecided)

lemma lift_then_triple:
  "(\<And>x. r = Inr x \<Longrightarrow> triple P (f x) Q R) \<Longrightarrow> (\<And>e s. P s \<Longrightarrow> R e s) \<Longrightarrow> triple P (and_then (lift_sum r) f) Q R"
  by (cases r) (auto simp: triple_def and_then_def lift_sum_def)

lemma fail_record_holding:
  "triple (holding L d0 i cs t) (fail_record E t)
     (\<lambda>flow w. flow = Stop t \<and> holding L d0 i cs t w) (\<lambda>_. undecided L d0 i cs)"
proof -
  have "keeps (holding L d0 i cs t) (fail_record E t)"
    by (intro holding_keeps fail_record_keeps)
  moreover have "returns (fail_record E t) (\<lambda>flow. flow = Stop t)"
    by (auto simp: fail_record_def returns_def and_then_ok return_ok_def)
  ultimately show ?thesis
    by (rule triple_weaken [OF triple_returns]) (auto intro: holding_undecided)
qed

lemma start_payout_triple:
  "triple (holding L d0 i cs t) (start_payout E t)
     (\<lambda>flow w. case flow of Go_on tx \<Rightarrow> awaiting L d0 i cs tx w | Stop t \<Rightarrow> holding L d0 i cs t w
        | Again t \<Rightarrow> holding L d0 i cs t w) (\<lambda>_. undecided L d0 i cs)"
proof -
  have attach: "triple (holding L d0 i cs t) (and_then (attach_payout E payout) (\<lambda>payout. return_ok (Go_on payout)))
     (\<lambda>flow w. case flow of Go_on tx \<Rightarrow> awaiting L d0 i cs tx w | Stop t \<Rightarrow> holding L d0 i cs t w
        | Again t \<Rightarrow> holding L d0 i cs t w) (\<lambda>_. undecided L d0 i cs)"
    if "new_payout E rcd = Inr payout" for payout rcd
  proof -
    have "triple (holding L d0 i cs t) (attach_payout E payout) (awaiting L d0 i cs) (\<lambda>_. undecided L d0 i cs)"
      using new_payout_root [OF that] by (intro triple_weaken [OF attach_payout_triple]) (auto intro: holding_undecided)
    then show ?thesis
      by (rule triple_and_then) (rule triple_return_ok, simp)
  qed
  have stop: "triple (holding L d0 i cs t) (fail_record E t)
     (\<lambda>flow w. case flow of Go_on tx \<Rightarrow> awaiting L d0 i cs tx w | Stop t \<Rightarrow> holding L d0 i cs t w
        | Again t \<Rightarrow> holding L d0 i cs t w) (\<lambda>_. undecided L d0 i cs)"
    by (rule triple_weaken [OF fail_record_holding]) auto
  show ?thesis
    unfolding start_payout_def
  proof (rule holding_then)
    fix a
    show "triple (holding L d0 i cs t) (case a of Inl e \<Rightarrow> fail_record E t
       | Inr _ \<Rightarrow> and_then the_record (\<lambda>rcd.
           and_then (db_query E (find_account (wr_Address rcd))) (\<lambda>account.
             if ra_Balance account < withdrawalTotalAmount (wr_Amount rcd) (wr_WithdrawalFee rcd)
             then fail_record E t
             else and_then (lift_sum (new_payout E rcd)) (\<lambda>payout.
                  and_then (attach_payout E payout) (\<lambda>payout. return_ok (Go_on payout))))))
      (\<lambda>flow w. case flow of Go_on tx \<Rightarrow> awaiting L d0 i cs tx w | Stop t \<Rightarrow> holding L d0 i cs t w
        | Again t \<Rightarrow> holding L d0 i cs t w) (\<lambda>_. undecided L d0 i cs)"
      by (cases a) (auto intro!: stop holding_then grows calm triple_if lift_then_triple attach
          intro: holding_undecided)
  qed (intro safe grows calm)+
qed

definition flow_ok :: "ethlib \<Rightarrow> db \<Rightarrow> withdraw_record \<Rightarrow> ext_call list \<Rightarrow> btx flow \<Rightarrow> world \<Rightarrow> bool" where
  "flow_ok L d0 i cs flow w \<longleftrightarrow>
     (case flow of Go_on tx \<Rightarrow> awaiting L d0 i cs tx w | Stop t \<Rightarrow> holding L d0 i cs t w
        | Again t \<Rightarrow> holding L d0 i cs t w)"

lemma recheck_holding:
  assumes "k \<noteq> 0"
  shows "triple (\<lambda>w. undecided L d0 i cs w \<and> memo (Some k) i cs w) (recheck_attached E t k)
     (\<lambda>flow w. (grown_from L d0 w \<and> stops_with (\<lambda>t. reported (Some k) t (w_db w)) (\<lambda>_. True) flow) \<and>
        memo (Some k) i cs w) (\<lambda>_. undecided L d0 i cs)"
  using assms
  by (intro triple_weaken [OF triple_frame [OF recheck_attached_triple recheck_attached_keeps(1)]])
    (auto simp: undecided_def memo_at_request)

lemma current_awaiting:
  assumes "k \<noteq> 0"
  shows "triple (\<lambda>w. undecided L d0 i cs w \<and> memo (Some k) i cs w) (getCurrentBlockchainTransaction E k)
     (awaiting L d0 i cs) (\<lambda>_. undecided L d0 i cs)"
  using assms
  by (intro triple_weaken [OF triple_frame [OF current_mine chain_reads_keep(3)]])
    (auto simp: undecided_def awaiting_def memo_at_request)

text \<open>Reading the record splits on the payout it names.\<close>

lemma record_cases_triple:
  assumes "\<And>r. wr_BlockchainTransactionID r = None \<Longrightarrow> triple P (f r) Q R"
    and "\<And>r k. wr_BlockchainTransactionID r = Some k \<Longrightarrow>
      triple (\<lambda>w. P w \<and> wr_BlockchainTransactionID (w_record w) = Some k) (f r) Q R"
  shows "triple P (and_then the_record f) Q R"
  unfolding triple_def
proof (intro allI impI)
  fix w r t assume "P w" and "and_then the_record f w = (r, t)"
  with assms show "case r of Inl e \<Rightarrow> R e t | Inr x \<Rightarrow> Q x t"
    by (cases "wr_BlockchainTransactionID (w_record w)") (auto simp: triple_def and_then_def)
qed

lemma find_payout_triple:
  "triple (holding L d0 i cs t) (find_payout E t) (flow_ok L d0 i cs) (\<lambda>_. undecided L d0 i cs)"
  unfolding find_payout_def
proof (rule record_cases_triple)
  fix r assume "wr_BlockchainTransactionID r = None"
  then show "triple (holding L d0 i cs t) (case wr_BlockchainTransactionID r of None \<Rightarrow> start_payout E t
      | Some rootID \<Rightarrow> and_then (recheck_attached E t rootID) (\<lambda>flow. case flow of Stop tx \<Rightarrow> return_ok (Stop tx)
           | Again tx \<Rightarrow> return_ok (Again tx)
           | Go_on _ \<Rightarrow> and_then (getCurrentBlockchainTransaction E rootID) (\<lambda>tx. return_ok (Go_on tx))))
      (flow_ok L d0 i cs) (\<lambda>_. undecided L d0 i cs)"
    using start_payout_triple [of L d0 i cs t E] by (simp add: flow_ok_def [abs_def])
next
  fix r k assume r: "wr_BlockchainTransactionID r = Some k"
  show "triple (\<lambda>w. holding L d0 i cs t w \<and> wr_BlockchainTransactionID (w_record w) = Some k)
      (case wr_BlockchainTransactionID r of None \<Rightarrow> start_payout E t
      | Some rootID \<Rightarrow> and_then (recheck_attached E t rootID) (\<lambda>flow. case flow of Stop tx \<Rightarrow> return_ok (Stop tx)
           | Again tx \<Rightarrow> return_ok (Again tx)
           | Go_on _ \<Rightarrow> and_then (getCurrentBlockchainTransaction E rootID) (\<lambda>tx. return_ok (Go_on tx))))
      (flow_ok L d0 i cs) (\<lambda>_. undecided L d0 i cs)"
  proof (cases "k = 0")
    case True
    then show ?thesis by (auto simp: triple_def holding_def)
  next
    case False
    have go_on: "triple (\<lambda>w. undecided L d0 i cs w \<and> memo (Some k) i cs w)
        (and_then (getCurrentBlockchainTransaction E k) (\<lambda>tx. return_ok (Go_on tx)))
        (flow_ok L d0 i cs) (\<lambda>_. undecided L d0 i cs)"
      by (rule triple_and_then [OF current_awaiting [OF False]]) (rule triple_return_ok, simp add: flow_ok_def)
    have "triple (\<lambda>w. undecided L d0 i cs w \<and> memo (Some k) i cs w)
        (and_then (recheck_attached E t k) (\<lambda>flow. case flow of Stop tx \<Rightarrow> return_ok (Stop tx)
           | Again tx \<Rightarrow> return_ok (Again tx)
           | Go_on _ \<Rightarrow> and_then (getCurrentBlockchainTransaction E k) (\<lambda>tx. return_ok (Go_on tx))))
        (flow_ok L d0 i cs) (\<lambda>_. undecided L d0 i cs)"
    proof (rule triple_and_then [OF recheck_holding [OF False]])
      fix flow
      show "triple (\<lambda>w. (grown_from L d0 w \<and> stops_with (\<lambda>t. reported (Some k) t (w_db w)) (\<lambda>_. True) flow) \<and>
           memo (Some k) i cs w)
         (case flow of Stop tx \<Rightarrow> return_ok (Stop tx) | Again tx \<Rightarrow> return_ok (Again tx)
           | Go_on _ \<Rightarrow> and_then (getCurrentBlockchainTransaction E k) (\<lambda>tx. return_ok (Go_on tx)))
         (flow_ok L d0 i cs) (\<lambda>_. undecided L d0 i cs)"
        using False
        by (cases flow) (auto simp: flow_ok_def holding_def memo_at_request undecided_def intro!: triple_return_ok
            intro: triple_weaken [OF go_on])
    qed
    with r show ?thesis
      by (auto elim!: triple_weaken simp: holding_def undecided_def memo_at_request)
  qed
qed

lemma await_outcome_awaiting:
  "triple (awaiting L d0 i cs tx) (await_outcome E n tx) (awaiting L d0 i cs) (\<lambda>_. undecided L d0 i cs)"
  unfolding triple_def
proof (intro allI impI)
  fix w r t assume w: "awaiting L d0 i cs tx w" and run: "await_outcome E n tx w = (r, t)"
  then obtain k where k: "k \<noteq> 0" "memo (Some k) i cs w" "grown_from L d0 w" "mine k tx (w_db w)"
    by (auto simp: awaiting_def memo_at_request)
  have "memo (Some k) i cs t" using keepsD [OF calm_await_outcome k(2) run] .
  moreover have "grown_from L d0 t" using keepsD [OF grows_await_outcome k(3) run] .
  moreover have "mine k x (w_db t)" if "r = Inr x" for x
    using tripleD_ok [OF await_outcome_mine conjI [OF k(3,4)]] run that by blast
  ultimately show "case r of Inl e \<Rightarrow> undecided L d0 i cs t | Inr x \<Rightarrow> awaiting L d0 i cs x t"
    using k(1) by (auto simp: awaiting_def undecided_def memo_at_request split: sum.split)
qed

lemma settle_outcome_holding:
  "triple (awaiting L d0 i cs tx) (settle_outcome E tx) (\<lambda>_. holding L d0 i cs (Some tx))
     (\<lambda>_. undecided L d0 i cs)"
proof -
  have "keeps (holding L d0 i cs (Some tx)) (settle_outcome E tx)"
    by (intro holding_keeps settle_outcome_keeps)
  then show ?thesis
    unfolding keeps_triple by (rule triple_weaken) (auto intro: awaiting_holding holding_undecided)
qed

lemma process_pending_triple:
  "triple (holding L d0 i cs t) (process_pending E n t) (\<lambda>t. holding L d0 i cs t) (\<lambda>_. undecided L d0 i cs)"
proof (induction n arbitrary: t)
  case 0
  then show ?case by (auto intro: triple_return_err holding_undecided)
next
  case (Suc n)
  have "triple (flow_ok L d0 i cs flow) (case flow of Stop tx \<Rightarrow> return_ok tx | Again tx \<Rightarrow> process_pending E n tx
       | Go_on tx \<Rightarrow> and_then (await_outcome E n tx) (\<lambda>tx.
           and_then (settle_outcome E tx) (\<lambda>_. process_pending E n (Some tx))))
      (\<lambda>t. holding L d0 i cs t) (\<lambda>_. undecided L d0 i cs)" for flow
    using Suc
    by (cases flow) (auto simp: flow_ok_def [abs_def] intro!: triple_return_ok
        triple_and_then [OF await_outcome_awaiting] triple_and_then [OF settle_outcome_holding])
  then have step: "triple (holding L d0 i cs t) (and_then (find_payout E t) (\<lambda>flow. case flow of Stop tx \<Rightarrow> return_ok tx
       | Again tx \<Rightarrow> process_pending E n tx
       | Go_on tx \<Rightarrow> and_then (await_outcome E n tx) (\<lambda>tx.
           and_then (settle_outcome E tx) (\<lambda>_. process_pending E n (Some tx)))))
      (\<lambda>t. holding L d0 i cs t) (\<lambda>_. undecided L d0 i cs)"
    by (rule triple_and_then [OF find_payout_triple])
  show ?case
    unfolding process_pending.simps
    by (rule triple_and_then [where B = "\<lambda>_. holding L d0 i cs t"])
      (auto intro!: triple_if step triple_return_ok intro: triple_weaken simp: triple_def [of _ the_record])
qed

section \<open>Answering\<close>

lemma SignData_effect: "SignData E data key w = (r, w') \<Longrightarrow> \<exists>t. w' = w\<lparr>w_tick := t\<rparr>"
  by (auto simp: SignData_def and_then_def lift_sum_def time_now_def ask_def return_ok_def Let_def
      split: sum.splits intro: exI [of _ "w_tick w"])

lemma signed_post_effect:
  assumes "signed_post E path call input w = (r, w')"
  shows "(\<exists>t. w' = w\<lparr>w_tick := t\<rparr> \<and> (\<exists>e. r = Inl e)) \<or> (\<exists>t. w' = w\<lparr>w_calls := w_calls w @ [call], w_tick := t\<rparr>)"
proof -
  obtain q v where v: "SignData E (JObj input) (api_key E) w = (q, v)" by fastforce
  then obtain t where t: "v = w\<lparr>w_tick := t\<rparr>" using SignData_effect by blast
  show ?thesis
  proof (cases q)
    case (Inl e)
    with assms v t show ?thesis by (auto simp: signed_post_def and_then_def)
  next
    case (Inr a)
    obtain ts sg where "a = (ts, sg)" by fastforce
    with assms v t Inr show ?thesis
      by (cases "env_NewRequest E ''POST'' (api_url E path)")
        (auto simp: signed_post_def and_then_def NewRequest_def lift_sum_def tell_def writes_def ask_def
          split: sum.splits)
  qed
qed

text \<open>What the answer says of the payouts of the withdrawal.\<close>

definition justified :: "ext_call \<Rightarrow> nat option \<Rightarrow> db \<Rightarrow> bool" where
  "justified c b d \<longleftrightarrow> (case c of
       Reject i \<Rightarrow> (\<forall>k. b = Some k \<longrightarrow> never_paid k d)
     | Fulfill i h \<Rightarrow> (\<exists>k. b = Some k \<and> paid_once k h d)
     | _ \<Rightarrow> False)"

fun answer_to :: "ext_call \<Rightarrow> nat \<Rightarrow> bool" where
  "answer_to (Reject i) j = (i = j)"
| "answer_to (Fulfill i h) j = (i = j)"
| "answer_to _ _ = False"

definition answered_with ::
  "ethlib \<Rightarrow> db \<Rightarrow> withdraw_record \<Rightarrow> ext_call list \<Rightarrow> ext_call \<Rightarrow> world \<Rightarrow> bool" where
  "answered_with L d0 i cs c w \<longleftrightarrow> grown_from L d0 w \<and> terms (w_record w) = i \<and>
     (answers w = cs \<or>
      answers w = cs @ [c] \<and> justified c (wr_BlockchainTransactionID (w_record w)) (w_db w))"

definition answered :: "ethlib \<Rightarrow> db \<Rightarrow> withdraw_record \<Rightarrow> ext_call list \<Rightarrow> world \<Rightarrow> bool" where
  "answered L d0 i cs w \<longleftrightarrow> (\<exists>c. answer_to c (wr_RemoteID i) \<and> answered_with L d0 i cs c w)"

lemma justified_lasting: "lasting (justified c b)"
  using never_paid_lasting paid_once_lasting unfolding lasting_def justified_def
  by (cases c) (simp_all, metis+)

lemma undecided_answered_with: "undecided L d0 i cs w \<Longrightarrow> answered_with L d0 i cs c w"
  by (auto simp: undecided_def answered_with_def at_request_def)

lemma undecided_answered: "undecided L d0 i cs w \<Longrightarrow> answered L d0 i cs w"
  unfolding answered_def using undecided_answered_with answer_to.simps(1) by blast

lemma grown_from_memory:
  "grown_from L d0 w \<Longrightarrow> (\<And>n s. c \<noteq> SendRaw n s) \<Longrightarrow> grown_from L d0 (w\<lparr>w_calls := w_calls w @ [c], w_tick := t\<rparr>)"
  "grown_from L d0 w \<Longrightarrow> grown_from L d0 (w\<lparr>w_tick := t\<rparr>)"
  by (auto simp: grown_from_def world_ok_def clients_ok_def sends_recorded_def)

text \<open>The answer and the last update of the record.\<close>

lemma answer_and_update:
  assumes w: "undecided L d0 i cs w" and b: "wr_BlockchainTransactionID (w_record w) = b"
    and call: "is_answer c" "justified c b (w_db w)"
    and run: "and_then (signed_post E path c input) (\<lambda>_. UpdateStatus E s) w = (r, w')"
  shows "answered_with L d0 i cs c w'"
proof -
  obtain q v where v: "signed_post E path c input w = (q, v)" by fastforce
  have g: "grown_from L d0 w" using w by (simp add: undecided_def)
  have no_send: "c \<noteq> SendRaw n x" for n x using call(1) by auto
  from signed_post_effect [OF v] show ?thesis
  proof (elim disjE exE conjE)
    fix t e assume "v = w\<lparr>w_tick := t\<rparr>" "q = Inl e"
    with v run w show ?thesis
      by (auto simp: and_then_def undecided_def at_request_def answers_def answered_with_def grown_from_memory)
  next
    fix t assume t: "v = w\<lparr>w_calls := w_calls w @ [c], w_tick := t\<rparr>"
    with g no_send have gv: "grown_from L d0 v \<and> justified c b (w_db v)"
      using call(2) by (simp add: grown_from_memory)
    have mv: "memo b i (cs @ [c]) v"
      using w b t call(1) by (simp add: memo_def undecided_def at_request_def answers_def)
    have post: "answered_with L d0 i cs c u" if "grown_from L d0 u \<and> justified c b (w_db u)" "memo b i (cs @ [c]) u" for u
      using that by (auto simp: answered_with_def memo_def)
    show ?thesis
    proof (cases q)
      case (Inl e)
      with v run have "w' = v" by (simp add: and_then_def)
      with gv mv post show ?thesis by simp
    next
      case (Inr x)
      with v run have u: "UpdateStatus E s v = (r, w')" by (simp add: and_then_def)
      have keep: "keeps (\<lambda>w. grown_from L d0 w \<and> justified c b (w_db w)) (UpdateStatus E s)"
        by (rule grows_lasting [OF UpdateStatus_keeps(2) justified_lasting])
      show ?thesis
        using keepsD [OF keep gv u] keepsD [OF UpdateStatus_keeps(1) mv u] by (rule post)
    qed
  qed
qed

lemma undecided_step:
  assumes "undecided L d0 i cs w" and "keeps (grown_from L d0) m" and "\<And>b. keeps (memo b i cs) m"
    and "m w = (r, w')"
  shows "undecided L d0 i cs w' \<and>
    wr_BlockchainTransactionID (w_record w') = wr_BlockchainTransactionID (w_record w)"
  using keepsD [OF assms(2) _ assms(4)] keepsD [OF assms(3) _ assms(4)] assms(1)
  by (simp add: undecided_def memo_at_request)

lemma reject_answered:
  assumes w: "undecided L d0 i cs w" and nz: "wr_BlockchainTransactionID (w_record w) \<noteq> Some 0"
    and run: "rejectWithdrawalRequestSafely E w = (r, w')"
  shows "answered_with L d0 i cs (Reject (wr_RemoteID i)) w'"
proof -
  obtain q v where v: "ensureWithdrawalRejectSafe E w = (q, v)" by fastforce
  let ?b = "wr_BlockchainTransactionID (w_record w)"
  have uv: "undecided L d0 i cs v" and bv: "wr_BlockchainTransactionID (w_record v) = ?b"
    using undecided_step [OF w ensure_safe_keeps(2,1) v] by simp_all
  show ?thesis
  proof (cases q)
    case (Inl e)
    with v run uv show ?thesis
      by (auto simp: rejectWithdrawalRequestSafely_def and_then_def intro: undecided_answered_with)
  next
    case (Inr x)
    have "justified (Reject (wr_RemoteID i)) ?b (w_db v)"
      using reject_safe_ok [of L d0 w _ E x v] w v Inr nz
      by (auto simp: justified_def undecided_def)
    moreover have "wr_RemoteID (w_record v) = wr_RemoteID i"
      using uv terms_fields [of "w_record v" i] by (simp add: undecided_def at_request_def)
    ultimately show ?thesis
      using run v Inr bv
      by (intro answer_and_update [OF uv, of ?b "Reject (wr_RemoteID i)"])
        (auto simp: rejectWithdrawalRequestSafely_def and_then_def RejectWithdrawalRequest_def)
  qed
qed

lemma report_triple:
  "triple (holding L d0 i cs t) (payout_to_report E t) (\<lambda>tx. holding L d0 i cs (Some tx)) (\<lambda>_. undecided L d0 i cs)"
proof (cases t)
  case (Some tx)
  then show ?thesis by (simp add: payout_to_report_def triple_return_ok)
next
  case None
  have cur: "triple (\<lambda>w. holding L d0 i cs None w \<and> wr_BlockchainTransactionID (w_record w) = Some k)
      (getCurrentBlockchainTransaction E k) (\<lambda>tx. holding L d0 i cs (Some tx)) (\<lambda>_. undecided L d0 i cs)" for k
  proof (cases "k = 0")
    case True
    then show ?thesis by (auto simp: triple_def holding_def)
  next
    case False
    show ?thesis
      by (rule triple_weaken [OF current_awaiting [OF False, of L d0 i cs]])
        (simp add: holding_def undecided_def memo_at_request, erule awaiting_holding, assumption)
  qed
  show ?thesis
    unfolding None payout_to_report_def option.simps
    by (rule record_cases_triple) (auto intro: triple_return_err holding_undecided cur)
qed

lemma answer_relay_answered:
  assumes w: "holding L d0 i cs t w" and run: "answer_relay E t w = (r, w')"
  shows "if wr_Status (w_record w) = WithdrawStatusSuccess
    then \<exists>h. answered_with L d0 i cs (Fulfill (wr_RemoteID i) h) w'
    else answered_with L d0 i cs (Reject (wr_RemoteID i)) w'"
proof (cases "wr_Status (w_record w) = WithdrawStatusSuccess")
  case False
  with run w show ?thesis
    by (auto simp: answer_relay_def and_then_def holding_def undecided_def intro: reject_answered)
next
  case True
  have miss: ?thesis if "undecided L d0 i cs w'"
    using undecided_answered_with [OF that] True by simp
  obtain q v where v: "payout_to_report E t w = (q, v)" by fastforce
  show ?thesis
  proof (cases q)
    case (Inl e)
    with v run True tripleD_err [OF report_triple w] show ?thesis
      by (intro miss) (auto simp: answer_relay_def and_then_def)
  next
    case (Inr tx)
    have hv: "holding L d0 i cs (Some tx) v" using tripleD_ok [OF report_triple w] v Inr by simp
    obtain p u where u: "ensureWithdrawalFulfillSafe E (Some tx) v = (p, u)" by fastforce
    let ?b = "wr_BlockchainTransactionID (w_record v)"
    have uu: "undecided L d0 i cs u" and bu: "wr_BlockchainTransactionID (w_record u) = ?b"
      using undecided_step [OF holding_undecided [OF hv] ensure_safe_keeps(4,3) u] by simp_all
    show ?thesis
    proof (cases p)
      case (Inl e)
      with u v Inr run True uu show ?thesis
        by (intro miss) (auto simp: answer_relay_def and_then_def)
    next
      case (Inr x)
      obtain k where k: "?b = Some k"
        using u Inr by (cases ?b) (auto simp: ensureWithdrawalFulfillSafe_def and_then_def return_err_def)
      have nz: "k \<noteq> 0" and g: "grown_from L d0 v" using hv k by (auto simp: holding_def)
      have "tx_Status tx = TransactionStatusConfirmed \<Longrightarrow> mine k tx (w_db v)"
        using hv k by (auto simp: holding_def reported_def)
      from fulfill_safe_ok [OF g k nz this] u Inr
      obtain h where h: "tx_TxHash tx = Some h" "paid_once k h (w_db u)" by blast
      then have "justified (Fulfill (wr_RemoteID i) h) ?b (w_db u)" using k by (simp add: justified_def)
      moreover have "wr_RemoteID (w_record w) = wr_RemoteID i"
        using w terms_fields [of "w_record w" i] by (simp add: holding_def at_request_def)
      then have "and_then (FulfillWithdrawalRequest E (wr_RemoteID i) h) (\<lambda>_. UpdateStatus E WithdrawStatusFinished) u = (r, w')"
        using run v u \<open>q = Inr tx\<close> Inr True h(1) by (simp add: answer_relay_def and_then_def null_string_def)
      ultimately have "answered_with L d0 i cs (Fulfill (wr_RemoteID i) h) w'"
        unfolding FulfillWithdrawalRequest_def
        by (intro answer_and_update [OF uu bu, of "Fulfill (wr_RemoteID i) h"]) simp_all
      with True show ?thesis by auto
    qed
  qed
qed

lemma process_answered:
  assumes w: "undecided L d0 i cs w" and nz: "wr_BlockchainTransactionID (w_record w) \<noteq> Some 0"
    and run: "processWithdrawalRecord E n w = (r, w')"
  shows "answered L d0 i cs w'"
proof -
  obtain q v where v: "process_pending E n None w = (q, v)" by fastforce
  have h: "holding L d0 i cs None w" using w nz by (simp add: undecided_def holding_def)
  show ?thesis
  proof (cases q)
    case (Inl e)
    with v run tripleD_err [OF process_pending_triple h] show ?thesis
      by (auto simp: processWithdrawalRecord_def and_then_def intro: undecided_answered)
  next
    case (Inr t)
    with v have ht: "holding L d0 i cs t v" using tripleD_ok [OF process_pending_triple h] by simp
    have "answer_relay E t v = (r, w')" using run v Inr by (simp add: processWithdrawalRecord_def and_then_def)
    from answer_relay_answered [OF ht this] show ?thesis
      unfolding answered_def by (metis answer_to.simps(1,2))
  qed
qed

section \<open>Time-outs\<close>

text \<open>The database never hands out the key 0, so no record names it.\<close>

definition records_ok :: "db \<Rightarrow> bool" where
  "records_ok d \<longleftrightarrow> (\<forall>r \<in> set (db_withdraw_records d). wr_BlockchainTransactionID r \<noteq> Some 0)"

lemma run_step_records_ok: "records_ok d \<Longrightarrow> records_ok (run_step s d)"
  by (cases s) (auto simp: records_ok_def fail_with_retry_def insert_withdraw_record_def set_update_where Let_def
      update_transactions_def insert_transaction_def split: option.splits)

interpretation record_keys: db_invariant records_ok
  by unfold_locales (rule run_step_records_ok)

text \<open>An action that may answer the Relay, once, and only when the answer is justified.\<close>

definition decides :: "ethlib \<Rightarrow> db \<Rightarrow> withdraw_record \<Rightarrow> ext_call list \<Rightarrow> (world, 'a) action \<Rightarrow> bool" where
  "decides L d0 i cs m \<longleftrightarrow>
     (\<forall>w r w'. undecided L d0 i cs w \<longrightarrow> wr_BlockchainTransactionID (w_record w) \<noteq> Some 0 \<longrightarrow>
        m w = (r, w') \<longrightarrow> answered L d0 i cs w')"

lemma decides_then:
  assumes "keeps (grown_from L d0) m" and "\<And>b. keeps (memo b i cs) m" and f: "\<And>x. decides L d0 i cs (f x)"
  shows "decides L d0 i cs (and_then m f)"
  unfolding decides_def
proof (intro allI impI)
  fix w r w' assume w: "undecided L d0 i cs w" "wr_BlockchainTransactionID (w_record w) \<noteq> Some 0"
    and run: "and_then m f w = (r, w')"
  obtain q v where v: "m w = (q, v)" by fastforce
  from undecided_step [OF w(1) assms(1,2) v] w(2)
  have uv: "undecided L d0 i cs v" "wr_BlockchainTransactionID (w_record v) \<noteq> Some 0" by simp_all
  show "answered L d0 i cs w'"
    using run v uv f by (cases q) (auto simp: and_then_def decides_def intro: undecided_answered)
qed

lemma decides_calm:
  "keeps (grown_from L d0) m \<Longrightarrow> (\<And>b. keeps (memo b i cs) m) \<Longrightarrow> decides L d0 i cs m"
  unfolding decides_def by (blast dest: undecided_step intro: undecided_answered)

lemma decides_map:
  assumes "decides L d0 i cs m" and "\<And>x w. snd (f x w) = w"
  shows "decides L d0 i cs (and_then m f)"
  using assms unfolding decides_def and_then_def
  by (auto split: prod.splits sum.splits) (metis snd_conv)+

lemma decides_if:
  "(c \<Longrightarrow> decides L d0 i cs m) \<Longrightarrow> (\<not> c \<Longrightarrow> decides L d0 i cs n) \<Longrightarrow> decides L d0 i cs (if c then m else n)"
  by simp

lemma reject_answers:
  "undecided L d0 i cs w \<Longrightarrow> wr_BlockchainTransactionID (w_record w) \<noteq> Some 0 \<Longrightarrow>
   rejectWithdrawalRequestSafely E w = (r, w') \<Longrightarrow> answered L d0 i cs w'"
  unfolding answered_def using reject_answered answer_to.simps(1) by blast

lemma reject_timed_out_decides: "decides L d0 i cs (reject_timed_out E)"
  unfolding reject_timed_out_def
proof (rule decides_map)
  show "decides L d0 i cs (try_result (rejectWithdrawalRequestSafely E))"
    unfolding decides_def try_result_def
    by (auto intro: reject_answers split: prod.splits sum.splits if_splits)
qed (auto simp: return_ok_def return_err_def split: sum.split)

lemma await_cancellation_keeps:
  "keeps (memo b i cs) (await_cancellation E tx)" "keeps (grown_from L d0) (await_cancellation E tx)"
  unfolding await_cancellation_def by (intro safe calm grows)+

lemma cancel_timed_out_decides: "decides L d0 i cs (cancel_timed_out E tx)"
proof -
  have await: "decides L d0 i cs (await_cancellation E q)" for q
    by (intro decides_calm await_cancellation_keeps)
  have ret: "decides L d0 i cs (return_ok x)" for x :: bool
    by (intro decides_calm safe)
  have cancel: "decides L d0 i cs (and_then (CancelRequestedUnbroadcasted E q) (\<lambda>(cancelled, tx).
      if cancelled then reject_timed_out E else return_ok False))" for q
    by (intro decides_then grows calm) (auto intro!: reject_timed_out_decides ret)
  show ?thesis
    unfolding cancel_timed_out_def
    by (intro decides_then grows calm) (auto intro!: await cancel)
qed

lemma process_decides: "decides L d0 i cs (processWithdrawalRecord E n)"
  unfolding decides_def using process_answered by blast

lemma timeout_answered:
  assumes g: "grown_from L d0 w" and rec: "records_ok (w_db w)"
    and run: "handleTimeoutWithdrawalRequest E n w = (r, w')"
  shows "answered L d0 (terms (w_record w')) (answers w) w'"
proof -
  let ?cs = "answers w"
  obtain q v where v: "db_query E (find_record (wr_ID (w_record w))) w = (q, v)" by fastforce
  have gv: "grown_from L d0 v" using keepsD [OF grows_primitives(5) g v] .
  have same: "answers v = ?cs" "w_record v = w_record w"
    using v by (auto simp: db_query_def db_action_def Let_def answers_def split: option.splits)
  show ?thesis
  proof (cases q)
    case (Inl e)
    with run v gv same show ?thesis
      by (simp add: handleTimeoutWithdrawalRequest_def and_then_def undecided_answered undecided_def at_request_def)
  next
    case (Inr rcd)
    have "rcd \<in> set (db_withdraw_records (seen_db E w))"
      using v Inr by (auto simp: db_query_def db_action_def Let_def find_record_def find_Some_iff
          split: option.splits)
    then have nz: "wr_BlockchainTransactionID rcd \<noteq> Some 0"
      using record_keys.seen_db_keeps [OF rec] by (auto simp: records_ok_def)
    let ?v = "v\<lparr>w_record := rcd\<rparr>" and ?i = "terms rcd"
    have u: "undecided L d0 ?i ?cs ?v"
      using gv same by (simp add: undecided_def at_request_def answers_def grown_from_def world_ok_def
          clients_ok_def sends_recorded_def)
    have stop: "decides L d0 ?i ?cs (stopForBlockingTimeout tx)" for tx
      by (intro decides_calm stop_keeps)
    have go: "decides L d0 ?i ?cs (and_then (processWithdrawalRecord E n) (\<lambda>_. return_ok True))"
      by (intro decides_map process_decides) (simp add: return_ok_def)
    have "decides L d0 ?i ?cs (case wr_BlockchainTransactionID rcd of
         None \<Rightarrow> reject_timed_out E
       | Some rootID \<Rightarrow>
           and_then (getCurrentBlockchainTransaction E rootID) (\<lambda>tx.
             if tx_Status tx = TransactionStatusConfirmed \<or> tx_Status tx = TransactionStatusCancelled \<or>
                tx_Status tx = TransactionStatusFailed \<and> tx_RetryCount tx \<ge> tx_MaxRetries tx
             then and_then (processWithdrawalRecord E n) (\<lambda>_. return_ok True)
             else if HasCommittedBroadcast tx \<or> tx_Status tx = TransactionStatusBroadcasting \<or>
                tx_Status tx \<noteq> TransactionStatusPending \<and> tx_Status tx \<noteq> TransactionStatusSending
             then stopForBlockingTimeout tx
             else cancel_timed_out E tx))"
      by (cases "wr_BlockchainTransactionID rcd")
        (auto intro!: reject_timed_out_decides decides_then chain_reads_keep decides_if stop go cancel_timed_out_decides)
    then have "answered L d0 ?i ?cs w'"
      using run v Inr u nz
      by (simp add: handleTimeoutWithdrawalRequest_def and_then_def set_record_def writes_def decides_def)
    then show ?thesis by (auto simp: answered_def answered_with_def)
  qed
qed

end
