(* ===== verification/Withdraw_Ledger.thy ===== *)
theory Withdraw_Ledger
  imports Withdraw_Safety Fee_Ledger
begin

text \<open>
  The books of the withdrawal processor: which steps leave the accounts alone, what the debit does to
  them, and how often a run debits.
\<close>

section \<open>The accounts beside the debit\<close>

definition accounts_quiet :: "env \<Rightarrow> bool" where
  "accounts_quiet E \<longleftrightarrow> (\<forall>t. \<forall>s \<in> set (env_others E t). \<forall>a x. s \<noteq> OtherCredit a x)"

lemma accounts_stable: "accounts_quiet E \<Longrightarrow> stable_view E db_relay_accounts"
proof
  fix s t d assume "accounts_quiet E" and "s \<in> set (env_others E t)"
  then have "\<forall>a x. s \<noteq> OtherCredit a x" by (auto simp: accounts_quiet_def)
  then show "db_relay_accounts (run_step s d) = db_relay_accounts d"
    by (cases s) (auto simp: fail_with_retry_def insert_withdraw_record_def Let_def
        update_records_def update_transactions_def insert_transaction_def split: option.splits)
qed

text \<open>
  \<open>purse A Z w\<close>: the accounts are \<open>A\<close>, and the status of the record in memory satisfies \<open>Z\<close>.
\<close>

definition purse :: "relay_account list \<Rightarrow> (withdraw_status \<Rightarrow> bool) \<Rightarrow> world \<Rightarrow> bool" where
  "purse A Z w \<longleftrightarrow> db_relay_accounts (w_db w) = A \<and> Z (wr_Status (w_record w))"

named_theorems frugal \<open>actions that keep \<open>purse\<close> when nobody else writes the accounts\<close>

lemma purse_parts:
  "keeps (\<lambda>w. db_relay_accounts (w_db w) = A) m \<Longrightarrow> keeps (\<lambda>w. Z (wr_Status (w_record w))) m \<Longrightarrow>
   keeps (purse A Z) m"
  unfolding purse_def by (rule keeps_conj)

lemma frugal_memory [frugal]:
  "keeps (purse A Z) (ask f)" "keeps (purse A Z) (time_now E)" "keeps (purse A Z) (sleep E)"
  "keeps (purse A Z) (tell c)" "keeps (purse A Z) the_record"
  by (auto simp: purse_def keeps_def ask_def ask_unit_def time_now_def sleep_def tell_def writes_def
      the_record_def reads_def)

lemma frugal_query [frugal]: "accounts_quiet E \<Longrightarrow> keeps (purse A Z) (db_query E g)"
  using stable_view.seen_view [OF accounts_stable]
  by (auto simp: purse_def keeps_def db_query_def db_action_def Let_def split: option.splits)

lemma frugal_db_action [frugal]:
  assumes "accounts_quiet E" and "\<And>d. db_relay_accounts (snd (f d)) = db_relay_accounts d"
  shows "keeps (purse A Z) (db_action E f)"
  using stable_view.view_action [OF accounts_stable [OF assms(1)], of f A] assms(2)
  by (intro purse_parts) (auto simp: keeps_def db_action_def Let_def split: option.splits prod.splits)

lemma frugal_db_update [frugal]: "accounts_quiet E \<Longrightarrow> keeps (purse A Z) (db_update E g u)"
  unfolding db_update_def by (rule frugal_db_action) simp_all

lemma frugal_set_record [frugal]:
  "(\<And>r. wr_Status (f r) = wr_Status r) \<Longrightarrow> keeps (purse A Z) (set_record f)"
  by (simp add: keeps_def set_record_def writes_def purse_def)

lemma frugal_transaction [frugal]:
  assumes q: "accounts_quiet E" and m: "keeps (purse A Z) m"
  shows "keeps (purse A Z) (db_transaction E m)"
proof -
  have undo: "purse A Z (rollback E t0 (w_db v) u)" if "purse A Z v" "purse A Z u" for t0 u v
    using that stable_view.rollback_view [OF accounts_stable [OF q], of t0 "w_db v" u]
    by (simp add: purse_def) (simp add: rollback_def)
  have "purse A Z (snd (commit_or_rollback E (w_tick v) (w_db v) (m (v\<lparr>w_in_tx := True\<rparr>))))" if v: "purse A Z v" for v
  proof -
    obtain r u where run: "m (v\<lparr>w_in_tx := True\<rparr>) = (r, u)" by fastforce
    then have u: "purse A Z u" using keepsD [OF m _ run] v by (simp add: purse_def)
    then have "purse A Z (u\<lparr>w_in_tx := False, w_tick := t\<rparr>)" "purse A Z (u\<lparr>w_tick := t\<rparr>)" for t
      by (simp_all add: purse_def)
    with run u v undo show ?thesis
      by (auto simp: commit_or_rollback_def split: sum.split option.split)
  qed
  then show ?thesis
    unfolding db_transaction_def
    by (intro keeps_and_then frugal_query q) (simp add: keeps_def)
qed

lemma frugal_UpdateStatus:
  assumes "accounts_quiet E" and "Z s"
  shows "keeps (purse A Z) (UpdateStatus E s)"
proof -
  have "keeps (purse A Z) (set_record (\<lambda>r. r\<lparr>wr_Status := s\<rparr>))"
    using assms(2) by (simp add: keeps_def set_record_def writes_def purse_def)
  moreover have "keeps (purse A Z) (db_action E (update_record i u))" for i u
    by (rule frugal_db_action [OF assms(1)]) (simp add: update_record_def)
  ultimately show ?thesis
    unfolding UpdateStatus_def by (intro keeps_and_then frugal_memory)
qed

lemma frugal_reads [frugal]:
  "accounts_quiet E \<Longrightarrow> keeps (purse A Z) (Sync E tx)"
  "accounts_quiet E \<Longrightarrow> keeps (purse A Z) (GetTransactionByID E k)"
  "accounts_quiet E \<Longrightarrow> keeps (purse A Z) (GetRetryTransactionsByID E k)"
  "accounts_quiet E \<Longrightarrow> keeps (purse A Z) (ListTransactionChain E k)"
  unfolding Sync_def GetTransactionByID_def GetRetryTransactionsByID_def ListTransactionChain_def
  by (intro safe frugal; assumption)+

lemma frugal_stop [frugal]: "keeps (purse A Z) (stopForBlockingTimeout tx)"
  unfolding stopForBlockingTimeout_def by (intro safe frugal)

lemma frugal_steps [frugal]:
  assumes q: "accounts_quiet E"
  shows "keeps (purse A Z) (RequestCancellation E tx msg)"
    "keeps (purse A Z) (CancelRequestedUnbroadcasted E tx)"
    "keeps (purse A Z) (withdrawalChainHasCommittedBroadcast E k)"
    "keeps (purse A Z) (getCurrentBlockchainTransaction E k)"
  unfolding RequestCancellation_def CancelRequestedUnbroadcasted_def withdrawalChainHasCommittedBroadcast_def
    getCurrentBlockchainTransaction_def
  by (intro safe frugal q)+

lemma frugal_checks [frugal]:
  assumes q: "accounts_quiet E"
  shows "keeps (purse A Z) (ensureWithdrawalRejectSafe E)" "keeps (purse A Z) (ensureWithdrawalFulfillSafe E t)"
  unfolding ensureWithdrawalRejectSafe_def ensureWithdrawalFulfillSafe_def Let_def
  by (intro safe frugal q)+

lemma frugal_fingerprint [frugal]:
  "accounts_quiet E \<Longrightarrow> keeps (purse A Z) (ensureWithdrawalAuthorizationFingerprint E)"
  unfolding ensureWithdrawalAuthorizationFingerprint_def
  by (intro safe frugal) (auto simp: update_fingerprint_def update_record_def)

lemma frugal_fail: "accounts_quiet E \<Longrightarrow> Z WithdrawStatusFailed \<Longrightarrow> keeps (purse A Z) (fail_record E t)"
  unfolding fail_record_def by (intro safe frugal_UpdateStatus)

lemma frugal_attach [frugal]: "accounts_quiet E \<Longrightarrow> keeps (purse A Z) (attach_payout E tx)"
  unfolding attach_payout_def Save_def
  by (intro safe frugal) (auto simp: save_record_def update_record_def)

lemma frugal_find_payout:
  assumes "accounts_quiet E" and "Z WithdrawStatusFailed"
  shows "keeps (purse A Z) (find_payout E t)"
  unfolding find_payout_def start_payout_def recheck_attached_def
  by (intro safe frugal frugal_fail assms)+ (auto intro!: safe frugal frugal_fail assms split: flow.split)

lemma frugal_await [frugal]: "accounts_quiet E \<Longrightarrow> keeps (purse A Z) (await_outcome E n tx)"
  by (induction E n tx rule: await_outcome.induct) (auto intro!: safe frugal)

section \<open>The debit\<close>

definition total_of :: "withdraw_record \<Rightarrow> int" where
  "total_of q = withdrawalTotalAmount (wr_Amount q) (wr_WithdrawalFee q)"

definition debit :: "withdraw_record \<Rightarrow> relay_account list \<Rightarrow> relay_account list \<Rightarrow> bool" where
  "debit q A A' \<longleftrightarrow> (\<exists>acc. find (\<lambda>r. ra_Address r = wr_Address q) A = Some acc \<and>
     total_of q \<le> ra_Balance acc \<and>
     A' = update_where (\<lambda>r. ra_ID r = ra_ID acc) (\<lambda>r. r\<lparr>ra_Balance := ra_Balance acc - total_of q\<rparr>) A)"

definition debit_body :: "env \<Rightarrow> withdraw_record \<Rightarrow> (world, unit) action" where
  "debit_body E q =
     and_then (db_query E (find_account (wr_Address q))) (\<lambda>account.
       if ra_Balance account < total_of q then
         return_err (WithdrawalRequestError ErrWithdrawalRequestTaskFeeNotEnough)
       else
         and_then (db_action E (save_balance (ra_ID account) (ra_Balance account - total_of q))) (\<lambda>_.
           UpdateStatus E WithdrawStatusSuccess))"

lemma debit_account_eq:
  "debit_account E w = db_transaction E (debit_body E (terms (w_record w))) w"
  unfolding debit_account_def debit_body_def total_of_def terms_def
  by (simp add: Let_def and_then_def [of the_record] cong: if_cong)

lemma UpdateStatus_ok: "UpdateStatus E s w = (Inr x, w') \<Longrightarrow> wr_Status (w_record w') = s"
  by (auto simp: UpdateStatus_def and_then_ok set_record_def writes_def)

lemma debit_body_ok:
  assumes q: "accounts_quiet E" and run: "debit_body E q v = (Inr x, u)"
  shows "debit q (db_relay_accounts (w_db v)) (db_relay_accounts (w_db u)) \<and>
    wr_Status (w_record u) = WithdrawStatusSuccess"
proof -
  obtain acc v1 v2 where acc: "db_query E (find_account (wr_Address q)) v = (Inr acc, v1)"
    and enough: "total_of q \<le> ra_Balance acc"
    and save: "db_action E (save_balance (ra_ID acc) (ra_Balance acc - total_of q)) v1 = (Inr (), v2)"
    and last: "UpdateStatus E WithdrawStatusSuccess v2 = (Inr x, u)"
    using run by (auto simp: debit_body_def and_then_ok return_err_def split: if_splits)
  have v1: "db_relay_accounts (w_db v1) = db_relay_accounts (w_db v)" using stable_view.query_view [OF accounts_stable [OF q] acc] .
  have "find (\<lambda>r. ra_Address r = wr_Address q) (db_relay_accounts (w_db v)) = Some acc"
    using acc stable_view.seen_view [OF accounts_stable [OF q]]
    by (auto simp: db_query_def db_action_def Let_def find_account_def split: option.splits)
  moreover have "db_relay_accounts (w_db v2) = update_where (\<lambda>r. ra_ID r = ra_ID acc)
      (\<lambda>r. r\<lparr>ra_Balance := ra_Balance acc - total_of q\<rparr>) (db_relay_accounts (w_db v))"
    using save v1 stable_view.seen_view [OF accounts_stable [OF q]]
    by (auto simp: db_action_def Let_def save_balance_def split: option.splits)
  moreover have "db_relay_accounts (w_db u) = db_relay_accounts (w_db v2)"
    using keepsD [OF frugal_UpdateStatus [OF q, of "\<lambda>_. True" _ "db_relay_accounts (w_db v2)"] _ last]
    by (simp add: purse_def)
  ultimately show ?thesis
    using enough UpdateStatus_ok [OF last] by (auto simp: debit_def)
qed

lemma debit_account_books:
  assumes q: "accounts_quiet E" and run: "debit_account E w = (r, w')"
  shows "(\<exists>e. r = Inl e) \<and> db_relay_accounts (w_db w') = db_relay_accounts (w_db w) \<or>
    r = Inr () \<and> debit (terms (w_record w)) (db_relay_accounts (w_db w)) (db_relay_accounts (w_db w')) \<and>
      wr_Status (w_record w') = WithdrawStatusSuccess"
proof (cases r)
  case (Inl e)
  with stable_view.transaction_view [OF accounts_stable [OF q] run [unfolded debit_account_eq]]
  show ?thesis by auto
next
  case (Inr x)
  obtain v u where v: "debit_body E (terms (w_record w)) v = (Inr x, u)"
    "w' = u\<lparr>w_in_tx := False, w_tick := Suc (w_tick u)\<rparr>"
    "v = (snd (db_query E (\<lambda>_. Inr () :: go_error + unit) w))\<lparr>w_in_tx := True\<rparr>"
    using run Inr unfolding debit_account_eq by (auto elim: db_transaction_commits)
  have "db_relay_accounts (w_db v) = db_relay_accounts (w_db w)"
    using stable_view.query_view [OF accounts_stable [OF q] prod.collapse [symmetric]] v(3) by simp
  with debit_body_ok [OF q v(1)] v(2) Inr show ?thesis by simp
qed

text \<open>One round over a pending record debits at most once, and then the record is marked.\<close>

definition books :: "relay_account list \<Rightarrow> withdraw_record \<Rightarrow> world \<Rightarrow> bool" where
  "books A q w \<longleftrightarrow>
     db_relay_accounts (w_db w) = A \<and> wr_Status (w_record w) \<noteq> WithdrawStatusSuccess \<or>
     debit q A (db_relay_accounts (w_db w)) \<and> wr_Status (w_record w) = WithdrawStatusSuccess"

definition books_err :: "relay_account list \<Rightarrow> withdraw_record \<Rightarrow> world \<Rightarrow> bool" where
  "books_err A q w \<longleftrightarrow> db_relay_accounts (w_db w) = A \<or> debit q A (db_relay_accounts (w_db w))"

abbreviation "unpaid A \<equiv> purse A (\<lambda>s. s \<noteq> WithdrawStatusSuccess)"

lemma unpaid_books: "unpaid A w \<Longrightarrow> books A q w" "unpaid A w \<Longrightarrow> books_err A q w"
  by (simp_all add: purse_def books_def books_err_def)

lemma settle_outcome_books:
  assumes q: "accounts_quiet E" and w: "unpaid A w" "terms (w_record w) = i"
    and run: "settle_outcome E tx w = (r, w')"
  shows "case r of Inl e \<Rightarrow> books_err A i w' | Inr x \<Rightarrow> unpaid A w' \<or>
    debit i A (db_relay_accounts (w_db w')) \<and> wr_Status (w_record w') = WithdrawStatusSuccess"
proof (cases "tx_Status tx = TransactionStatusConfirmed")
  case False
  have "keeps (unpaid A) (settle_outcome E tx)"
    using False unfolding settle_outcome_def by (auto intro!: safe frugal_UpdateStatus [OF q])
  from keepsD [OF this w(1) run] show ?thesis
    by (auto intro: unpaid_books split: sum.split)
next
  case True
  obtain p v where v: "ensureWithdrawalFulfillSafe E (Some tx) w = (p, v)" by fastforce
  have uv: "unpaid A v" using keepsD [OF frugal_checks(2) [OF q] w(1) v] .
  have tv: "terms (w_record v) = i"
    using keepsD [OF ensure_safe_keeps(3) _ v, of "wr_BlockchainTransactionID (w_record w)" i "answers w"] w(2)
    by (simp add: memo_def)
  show ?thesis
  proof (cases p)
    case (Inl e)
    with run v True uv show ?thesis
      by (auto simp: settle_outcome_def and_then_def intro: unpaid_books)
  next
    case (Inr x)
    then have "debit_account E v = (r, w')" using run v True by (simp add: settle_outcome_def and_then_def)
    from debit_account_books [OF q this] uv tv show ?thesis
      by (auto simp: purse_def books_err_def)
  qed
qed

lemma process_pending_books:
  assumes q: "accounts_quiet E"
  shows "holding L d0 i cs t w \<Longrightarrow> unpaid A w \<Longrightarrow> process_pending E n t w = (r, w') \<Longrightarrow>
    case r of Inl e \<Rightarrow> books_err A i w' | Inr t \<Rightarrow> books A i w'"
proof (induction n arbitrary: t w)
  case 0
  then show ?case by (auto simp: return_err_def intro: unpaid_books)
next
  case (Suc n)
  show ?case
  proof (cases "wr_Status (w_record w) = WithdrawStatusPending")
    case False
    with Suc.prems show ?thesis by (auto simp: and_then_def return_ok_def intro: unpaid_books)
  next
    case True
    obtain p v where v: "find_payout E t w = (p, v)" by fastforce
    have uv: "unpaid A v"
      using keepsD [OF frugal_find_payout [OF q, where Z = "\<lambda>s. s \<noteq> WithdrawStatusSuccess"] Suc.prems(2) v] by simp
    show ?thesis
    proof (cases p)
      case (Inl e)
      with Suc.prems(3) True v uv show ?thesis by (auto simp: and_then_def intro: unpaid_books)
    next
      case (Inr flow)
      have flow: "flow_ok L d0 i cs flow v"
        using tripleD_ok [OF find_payout_triple Suc.prems(1)] v Inr by simp
      show ?thesis
      proof (cases flow)
        case (Stop t')
        with Suc.prems(3) True v Inr uv show ?thesis by (auto simp: and_then_def return_ok_def intro: unpaid_books)
      next
        case (Again t')
        with flow have "holding L d0 i cs t' v" by (simp add: flow_ok_def)
        with Suc.IH [of t' v] Suc.prems(3) True v Inr Again uv show ?thesis by (simp add: and_then_def)
      next
        case (Go_on tx)
        with flow have aw: "awaiting L d0 i cs tx v" by (simp add: flow_ok_def)
        obtain p2 v2 where v2: "await_outcome E n tx v = (p2, v2)" by fastforce
        have u2: "unpaid A v2" using keepsD [OF frugal_await [OF q] uv v2] .
        show ?thesis
        proof (cases p2)
          case (Inl e)
          with Suc.prems(3) True v Inr Go_on v2 u2 \<open>p = Inr flow\<close> show ?thesis
            by (auto simp: and_then_def intro: unpaid_books)
        next
          case (Inr tx2)
          have aw2: "awaiting L d0 i cs tx2 v2" using tripleD_ok [OF await_outcome_awaiting aw] v2 Inr by simp
          then have t2: "terms (w_record v2) = i" by (simp add: awaiting_def at_request_def)
          obtain p3 v3 where v3: "settle_outcome E tx2 v2 = (p3, v3)" by fastforce
          note s3 = settle_outcome_books [OF q u2 t2 v3]
          have run: "(case p3 of Inl e \<Rightarrow> (Inl e, v3) | Inr x \<Rightarrow> process_pending E n (Some tx2) v3) = (r, w')"
            using Suc.prems(3) True v Go_on v2 v3 Inr \<open>p = Inr flow\<close>
            by (auto simp: and_then_def split: sum.splits)
          show ?thesis
          proof (cases p3)
            case (Inl e)
            with run s3 show ?thesis by auto
          next
            case (Inr x)
            have h3: "holding L d0 i cs (Some tx2) v3"
              using tripleD_ok [OF settle_outcome_holding aw2] v3 Inr by simp
            from s3 Inr consider "unpaid A v3" |
              "debit i A (db_relay_accounts (w_db v3))" "wr_Status (w_record v3) = WithdrawStatusSuccess" by auto
            then show ?thesis
            proof cases
              case 1
              with Suc.IH [OF h3] run Inr show ?thesis by simp
            next
              case 2
              with run Inr show ?thesis
                by (cases n) (auto simp: and_then_def return_err_def return_ok_def books_def books_err_def)
            qed
          qed
        qed
      qed
    qed
  qed
qed

section \<open>A whole run\<close>

lemma frugal_post [frugal]:
  "keeps (purse A Z) (FulfillWithdrawalRequest E i h)" "keeps (purse A Z) (RejectWithdrawalRequest E i)"
  unfolding FulfillWithdrawalRequest_def RejectWithdrawalRequest_def signed_post_def SignData_def NewRequest_def
    Let_def
  by (intro safe frugal)+

lemma frugal_answer:
  assumes q: "accounts_quiet E"
  shows "keeps (purse A (\<lambda>_. True)) (answer_relay E t)"
  unfolding answer_relay_def rejectWithdrawalRequestSafely_def payout_to_report_def
  by (intro safe frugal frugal_UpdateStatus q TrueI)

text \<open>How a run that starts with an unpaid record moves the accounts, by what it has answered.\<close>

lemma process_books:
  assumes q: "accounts_quiet E" and w: "undecided L d0 i cs w" and u: "unpaid A w"
    and nz: "wr_BlockchainTransactionID (w_record w) \<noteq> Some 0"
    and run: "processWithdrawalRecord E n w = (r, w')"
  shows "answers w' = cs \<and> books_err A i w' \<or>
    (\<exists>h. answers w' = cs @ [Fulfill (wr_RemoteID i) h]) \<and> debit i A (db_relay_accounts (w_db w')) \<or>
    answers w' = cs @ [Reject (wr_RemoteID i)] \<and> db_relay_accounts (w_db w') = A"
proof -
  obtain p v where v: "process_pending E n None w = (p, v)" by fastforce
  have h: "holding L d0 i cs None w" using w nz by (simp add: undecided_def holding_def)
  note b = process_pending_books [OF q h u v]
  show ?thesis
  proof (cases p)
    case (Inl e)
    then have "undecided L d0 i cs v" using tripleD_err [OF process_pending_triple h] v by blast
    with run v Inl b show ?thesis
      by (auto simp: processWithdrawalRecord_def and_then_def undecided_def at_request_def)
  next
    case (Inr t)
    then have ht: "holding L d0 i cs t v" using tripleD_ok [OF process_pending_triple h] v by blast
    have a: "answer_relay E t v = (r, w')"
      using run v Inr by (simp add: processWithdrawalRecord_def and_then_def)
    have same: "db_relay_accounts (w_db w') = db_relay_accounts (w_db v)"
      using keepsD [OF frugal_answer [OF q, of "db_relay_accounts (w_db v)"] _ a] by (simp add: purse_def)
    show ?thesis
      using answer_relay_answered [OF ht a] b Inr same
      by (auto simp: books_def books_err_def answered_with_def split: if_splits)
  qed
qed

definition account_ids_ok :: "db \<Rightarrow> bool" where
  "account_ids_ok d \<longleftrightarrow> accounts_ok d \<and> distinct (map ra_ID (db_relay_accounts d))"

lemma debited_book:
  assumes ok: "account_ids_ok d"
    and find: "find (\<lambda>r. ra_Address r = a) (db_relay_accounts d) = Some acc"
    and after: "db_relay_accounts d' = update_where (\<lambda>r. ra_ID r = ra_ID acc)
      (\<lambda>r. r\<lparr>ra_Balance := ra_Balance acc - x\<rparr>) (db_relay_accounts d)"
  shows "book d' = map (\<lambda>(b, y). (b, if b \<in> {a} then ra_Balance acc - x else y)) (book d)"
proof -
  have acc: "acc \<in> set (db_relay_accounts d)" "ra_Address acc = a"
    using find by (auto simp: find_Some_iff)
  have "ra_ID r = ra_ID acc \<longleftrightarrow> ra_Address r = a" if "r \<in> set (db_relay_accounts d)" for r
    using ok acc that distinct_key_eq [of ra_ID "db_relay_accounts d" r acc]
      distinct_key_eq [of ra_Address "db_relay_accounts d" r acc]
    by (auto simp: account_ids_ok_def accounts_ok_def map_fst_book)
  then show ?thesis by (simp add: book_def after update_where_def)
qed

lemma debit_balance:
  assumes ok: "account_ids_ok d" and debit: "debit q (db_relay_accounts d) (db_relay_accounts d')"
  shows "balance d' a = balance d a - (if a = wr_Address q then total_of q else 0)"
    and "0 \<le> balance d' (wr_Address q)"
proof -
  obtain acc where find: "find (\<lambda>r. ra_Address r = wr_Address q) (db_relay_accounts d) = Some acc"
    and enough: "total_of q \<le> ra_Balance acc"
    and after: "db_relay_accounts d' = update_where (\<lambda>r. ra_ID r = ra_ID acc)
      (\<lambda>r. r\<lparr>ra_Balance := ra_Balance acc - total_of q\<rparr>) (db_relay_accounts d)"
    using debit by (auto simp: debit_def)
  have acc: "acc \<in> set (db_relay_accounts d)" "ra_Address acc = wr_Address q"
    using find by (auto simp: find_Some_iff)
  have "map_of (book d) (wr_Address q) = Some (ra_Balance acc)"
    using ok acc by (intro map_of_is_SomeI) (force simp: account_ids_ok_def accounts_ok_def book_def)+
  moreover have "map_of (book d') b = map_option (\<lambda>y. if b \<in> {wr_Address q} then ra_Balance acc - total_of q else y)
      (map_of (book d) b)" for b
    unfolding debited_book [OF ok find after] by (rule map_of_cases)
  ultimately show "balance d' a = balance d a - (if a = wr_Address q then total_of q else 0)"
    and "0 \<le> balance d' (wr_Address q)"
    using enough by (auto simp: balance_def map_default_def split: option.split)
qed

end
