(* ===== verification/Withdraw_Properties.thy ===== *)
theory Withdraw_Properties
  imports Withdraw_Ledger Tx_Properties
begin

text \<open>
  What the withdrawal processor promises: when it answers the Relay, what it knows of the payouts, what
  it has debited, and that a payout is backed by the signature of its owner.
\<close>

section \<open>Sample runs\<close>

definition signed_record :: withdraw_record where
  "signed_record = sample_record\<lparr>wr_Address := ''0x0'', wr_Signature := Some (replicate 63 (CHR ''s''))\<rparr>"

definition withdraw_db :: db where
  "withdraw_db = empty_db\<lparr>db_withdraw_records := [signed_record], db_next_withdraw_record_id := 2,
     db_relay_accounts := [\<lparr>ra_ID = 1, ra_Address = ''0x0'', ra_Balance = 100\<rparr>,
       \<lparr>ra_ID = 2, ra_Address = ''0xA'', ra_Balance = 50\<rparr>], db_next_relay_account_id := 3\<rparr>"

definition withdraw_world :: world where
  "withdraw_world = (world_of withdraw_db)\<lparr>w_record := signed_record\<rparr>"

text \<open>While the processor waits, the payout is sent and confirmed, or asked back and cancelled.\<close>

definition paying_env :: env where
  "paying_env = sample_env\<lparr>env_ParseJSON := (\<lambda>s. Inr (JObj [])),
     env_others := (\<lambda>t. if t = 9 then [OtherClaim 1, OtherPrepare 1 ''0xh1'' 5 ''0xr1'', OtherMarkSent 1 100,
        OtherMarkConfirmed 1 200 50 21000 ''9''] else [])\<rparr>"

definition cancelling_env :: env where
  "cancelling_env = sample_env\<lparr>env_ParseJSON := (\<lambda>s. Inr (JObj [])),
     env_others := (\<lambda>t. if t = 9 then [OtherRequestCancellation 1 100 ''late'', OtherCancel 1 101] else [])\<rparr>"

lemma paying_run:
  "answers (snd (processWithdrawalRecord paying_env 9 withdraw_world)) = [Fulfill 4 ''0xh1'']"
  by code_simp

lemma cancelling_run:
  "answers (snd (processWithdrawalRecord cancelling_env 9 withdraw_world)) = [Reject 4]"
  by code_simp

lemma withdraw_world_ok: "world_ok L withdraw_world" "records_ok (w_db withdraw_world)"
  "wr_BlockchainTransactionID (w_record withdraw_world) \<noteq> Some 0"
proof -
  have "table_ok empty_db" by (rule table_ok_empty)
  then have "table_ok withdraw_db"
    using table_ok_unrelated [of withdraw_db empty_db] by (simp add: withdraw_db_def)
  then show "world_ok L withdraw_world"
    by (simp add: world_ok_def withdraw_world_def clients_ok_def sends_recorded_def)
qed (simp_all add: withdraw_world_def withdraw_db_def records_ok_def signed_record_def sample_record_def)

lemma withdraw_world_calls [simp]: "answers withdraw_world = []" "w_record withdraw_world = signed_record"
  by (simp_all add: withdraw_world_def answers_def)

section \<open>Answers\<close>

text \<open>The answers a run adds.\<close>

definition new_answers :: "world \<Rightarrow> world \<Rightarrow> ext_call list" where
  "new_answers w w' = drop (length (answers w)) (answers w')"

lemma new_answers_cases:
  assumes "answered L d0 i (answers w) w'"
  shows "new_answers w w' = [] \<or> (\<exists>c. new_answers w w' = [c] \<and> answer_to c (wr_RemoteID i) \<and>
    justified c (wr_BlockchainTransactionID (w_record w')) (w_db w'))"
  using assms by (auto simp: answered_def answered_with_def new_answers_def)

lemma process_new_answers:
  assumes "world_ok L w" and "wr_BlockchainTransactionID (w_record w) \<noteq> Some 0"
    and "processWithdrawalRecord E n w = (r, w')"
  shows "table_ok (w_db w') \<and> (new_answers w w' = [] \<or> (\<exists>c. new_answers w w' = [c] \<and>
    answer_to c (wr_RemoteID (w_record w)) \<and> justified c (wr_BlockchainTransactionID (w_record w')) (w_db w')))"
proof -
  have "undecided L (w_db w) (terms (w_record w)) (answers w) w"
    using assms(1) by (simp add: undecided_def at_request_def grown_from_self)
  from process_answered [OF this assms(2,3)] new_answers_cases
  have "answered L (w_db w) (terms (w_record w)) (answers w) w'" "new_answers w w' = [] \<or>
    (\<exists>c. new_answers w w' = [c] \<and> answer_to c (wr_RemoteID (terms (w_record w))) \<and>
       justified c (wr_BlockchainTransactionID (w_record w')) (w_db w'))" by blast+
  then show ?thesis
    by (auto simp: answered_def answered_with_def grown_from_def world_ok_def terms_def)
qed

lemma lasting_run_steps: "lasting F \<Longrightarrow> table_ok d \<Longrightarrow> F d \<Longrightarrow> F (run_steps ss d)"
  using table.run_steps_keeps [of d ss] run_steps_txs_le [of d ss] unfolding lasting_def by blast

lemmas never_paid_always = lasting_run_steps [OF never_paid_lasting]
lemmas paid_once_always = lasting_run_steps [OF paid_once_lasting]
lemmas justified_always = lasting_run_steps [OF justified_lasting]

text \<open>
  C24: the processor rejects a withdrawal at the Relay only when no payout of it has reached the chain
  or ever will: every row of the attached retry chain is proven to have failed on chain or was
  cancelled before it was broadcast, and it stays so whatever the other goroutines do afterwards.
\<close>
theorem rejected_never_paid:
  assumes "world_ok L w" and "wr_BlockchainTransactionID (w_record w) \<noteq> Some 0"
    and run: "processWithdrawalRecord E fuel w = (r, w')" and "Reject i \<in> set (new_answers w w')"
  shows "i = wr_RemoteID (w_record w) \<and>
    (\<forall>k. wr_BlockchainTransactionID (w_record w') = Some k \<longrightarrow> (\<forall>ss. never_paid k (run_steps ss (w_db w'))))"
  using process_new_answers [OF assms(1-3)] assms(4)
  by (auto simp: justified_def never_paid_always)

theorem rejected_never_paid_witness:
  "\<forall>ss. never_paid 1 (run_steps ss (w_db (snd (processWithdrawalRecord cancelling_env 9 withdraw_world))))"
proof -
  have "new_answers withdraw_world (snd (processWithdrawalRecord cancelling_env 9 withdraw_world)) = [Reject 4]"
    by (simp add: new_answers_def cancelling_run)
  moreover have "wr_BlockchainTransactionID (w_record (snd (processWithdrawalRecord cancelling_env 9 withdraw_world))) = Some 1"
    by code_simp
  ultimately show ?thesis
    using rejected_never_paid [OF withdraw_world_ok(1,3) prod.collapse [symmetric], of 4 cancelling_env 9] by simp
qed

text \<open>
  C25: the processor reports a withdrawal as paid only with the hash of the one confirmed row of its
  retry chain, when every other row is proven never to pay; this too is final.
\<close>
theorem fulfilled_paid_once:
  assumes "world_ok L w" and "wr_BlockchainTransactionID (w_record w) \<noteq> Some 0"
    and run: "processWithdrawalRecord E fuel w = (r, w')" and "Fulfill i h \<in> set (new_answers w w')"
  shows "i = wr_RemoteID (w_record w) \<and>
    (\<exists>k. wr_BlockchainTransactionID (w_record w') = Some k \<and> (\<forall>ss. paid_once k h (run_steps ss (w_db w'))))"
  using process_new_answers [OF assms(1-3)] assms(4)
  by (auto simp: justified_def paid_once_always)

theorem fulfilled_paid_once_witness:
  "\<exists>k. \<forall>ss. paid_once k ''0xh1'' (run_steps ss (w_db (snd (processWithdrawalRecord paying_env 9 withdraw_world))))"
proof -
  have "new_answers withdraw_world (snd (processWithdrawalRecord paying_env 9 withdraw_world)) = [Fulfill 4 ''0xh1'']"
    by (simp add: new_answers_def paying_run)
  then show ?thesis
    using fulfilled_paid_once [OF withdraw_world_ok(1,3) prod.collapse [symmetric], of 4 "''0xh1''" paying_env 9] by auto
qed

text \<open>
  C26: when a withdrawal has timed out, the handler answers the Relay at most once, about the record
  as it is in the database, and only when the answer is as safe as one given in time: a rejection when
  nothing can pay any more, a fulfilment when one confirmed row has paid.
\<close>
theorem timeout_answer_safe:
  assumes "world_ok L w" and "records_ok (w_db w)" and run: "handleTimeoutWithdrawalRequest E fuel w = (r, w')"
  shows "new_answers w w' = [] \<or> (\<exists>c. new_answers w w' = [c] \<and> answer_to c (wr_RemoteID (w_record w')) \<and>
    (\<forall>ss. justified c (wr_BlockchainTransactionID (w_record w')) (run_steps ss (w_db w'))))"
proof -
  have a: "answered L (w_db w) (terms (w_record w')) (answers w) w'"
    using assms by (intro timeout_answered grown_from_self)
  then have "table_ok (w_db w')" by (auto simp: answered_def answered_with_def grown_from_def world_ok_def)
  with new_answers_cases [OF a] show ?thesis
    by (auto simp: terms_def justified_always)
qed

definition late_world :: world where
  "late_world = withdraw_world\<lparr>w_db := withdraw_db\<lparr>db_transactions := [sample_tx\<lparr>tx_ID := 1\<rparr>],
     db_next_transaction_id := 2, db_withdraw_records := [signed_record\<lparr>wr_BlockchainTransactionID := Some 1\<rparr>]\<rparr>\<rparr>"

lemma late_run: "answers (snd (handleTimeoutWithdrawalRequest cancelling_env 9 late_world)) = [Reject 4]"
  by code_simp

theorem timeout_answer_safe_witness:
  "\<forall>ss. never_paid 1 (run_steps ss (w_db (snd (handleTimeoutWithdrawalRequest cancelling_env 9 late_world))))"
proof -
  have "table_ok (insert_transaction sample_tx empty_db)"
    using table_ok_insert_root [OF table_ok_empty, of sample_tx]
    by (simp add: sample_tx_def fresh_row_def no_evidence_def)
  then have "table_ok (w_db late_world)"
    using table_ok_unrelated [of "w_db late_world" "insert_transaction sample_tx empty_db"]
    by (simp add: late_world_def empty_db_def)
  then have ok: "world_ok L late_world" for L
    by (simp add: world_ok_def late_world_def withdraw_world_def clients_ok_def sends_recorded_def)
  have "records_ok (w_db late_world)" by (simp add: late_world_def records_ok_def)
  note safe = timeout_answer_safe [OF ok this prod.collapse [symmetric], of cancelling_env 9]
  have "new_answers late_world (snd (handleTimeoutWithdrawalRequest cancelling_env 9 late_world)) = [Reject 4]"
    using late_run by (simp add: new_answers_def late_world_def withdraw_world_def answers_def)
  moreover have "wr_BlockchainTransactionID
      (w_record (snd (handleTimeoutWithdrawalRequest cancelling_env 9 late_world))) = Some 1" by code_simp
  ultimately show ?thesis using safe by (simp add: justified_def)
qed

section \<open>Debits\<close>


lemma withdraw_accounts: "account_ids_ok withdraw_db" "balance withdraw_db ''0x0'' = 100" "balance withdraw_db ''0xA'' = 50"
  by (simp_all add: withdraw_db_def account_ids_ok_def accounts_ok_def book_def balance_def map_default_def)



section \<open>Authorizations\<close>

text \<open>The owner of the address has signed the withdrawal with these terms.\<close>

definition signed_by_owner :: "ethlib \<Rightarrow> string \<Rightarrow> int \<Rightarrow> string \<Rightarrow> string \<Rightarrow> int \<Rightarrow> string \<Rightarrow> bool" where
  "signed_by_owner L owner amount benefit network time sig \<longleftrightarrow>
     (let message = buildWithdrawalAuthorizationMessage owner (show_int amount) benefit network time in
      case eth_Decode L (''0x'' @ TrimPrefix sig ''0x'') of
        Inl e \<Rightarrow> False
      | Inr sigBytes \<Rightarrow> length sigBytes = 65 \<and>
          (case eth_SigToPub L (eth_Keccak256 L (eth_message_prefix (length message) @ message))
                  (normalize_signature sigBytes) of
             Inl e \<Rightarrow> False
           | Inr key \<Rightarrow> EqualFold (eth_AddressHex L (eth_PubkeyToAddress L key)) owner))"

text \<open>What a payout row transfers.\<close>

definition pays :: "ethlib \<Rightarrow> blockchain_config \<Rightarrow> address \<Rightarrow> int \<Rightarrow> btx \<Rightarrow> bool" where
  "pays L blockchain to amount tx \<longleftrightarrow>
     (if bc_TokenType blockchain = TokenTypeNative
      then tx_ToAddress tx = eth_AddressHex L to \<and> parse_big (tx_Value tx) = Some amount
      else tx_ToAddress tx = eth_AddressHex L (eth_HexToAddress L (bc_TokenAddress blockchain)) \<and>
        (\<exists>data. eth_PackTransfer L to amount = Inr data \<and> tx_Data tx = Some (eth_Encode L data)))"

lemma new_payout_pays:
  "new_payout E rcd = Inr tx \<Longrightarrow> \<exists>blockchain. blockchain_of (env_cfg E) (wr_Network rcd) = Some blockchain \<and>
     tx_Network tx = wr_Network rcd \<and> pays (env_lib E) blockchain (payout_address (env_lib E) rcd) (wr_Amount rcd) tx"
  by (auto simp: new_payout_def pays_def split: option.splits if_splits
      dest: NewSendETHTransaction_ok NewSendERC20Transaction_ok)

lemma fingerprint_keeps_terms:
  "ensureWithdrawalAuthorizationFingerprint E w = (r, w') \<Longrightarrow> terms (w_record w') = terms (w_record w)"
  by (drule keepsD [OF ensureFingerprint_keeps(1)
      [of "wr_BlockchainTransactionID (w_record w)" "terms (w_record w)" "answers w"], rotated]) (simp_all add: memo_def)

lemma record_authorization_terms:
  "withdrawalRecordAuthorization L (terms r) = withdrawalRecordAuthorization L r"
  by (simp add: withdrawalRecordAuthorization_def terms_def)

lemma fingerprint_ok:
  assumes "ensureWithdrawalAuthorizationFingerprint E w = (Inr u, w')"
  shows "withdrawalRecordAuthorization (env_lib E) (w_record w) \<noteq> Inl e"
  using assms by (auto simp: ensureWithdrawalAuthorizationFingerprint_def and_then_ok lift_sum_def)



definition record_message :: "withdraw_record \<Rightarrow> string" where
  "record_message r = buildWithdrawalAuthorizationMessage (wr_Address r) (show_int (wr_Amount r))
     (wr_BenefitAddress r) (wr_Network r) (the (wr_Timestamp r))"

lemma record_fingerprint:
  "withdrawalRecordAuthorization L r = Inr fp \<Longrightarrow> wr_Timestamp r \<noteq> None \<and> fp = eth_Sha256Hex L (record_message r)"
  unfolding withdrawalRecordAuthorization_def by (auto dest!: authorization_ok simp: record_message_def Let_def)



end
