(* ===== verification/Withdraw_Progress.thy ===== *)
theory Withdraw_Progress
  imports Withdraw_Properties
begin

text \<open>
  Progress of the withdrawal processor: when the payout of a withdrawal is on its way and the confirmer
  keeps settling it, the database and the Relay answer, and the account covers the withdrawal, the
  processor finishes it.
\<close>

section \<open>A payout on its way\<close>

text \<open>The row \<open>i\<close> of the chain of \<open>k\<close> has been sent with the hash \<open>h\<close>, and has not failed.\<close>

definition payout_row :: "nat \<Rightarrow> string \<Rightarrow> btx \<Rightarrow> bool" where
  "payout_row i h p \<longleftrightarrow> tx_ID p = i \<and> tx_TxHash p = Some h \<and>
     tx_Status p \<in> {TransactionStatusSent, TransactionStatusConfirmed}"

definition due :: "nat \<Rightarrow> nat \<Rightarrow> string \<Rightarrow> db \<Rightarrow> bool" where
  "due k i h d \<longleftrightarrow> table_ok d \<and> (\<exists>p. in_chain k d p \<and> payout_row i h p)"

definition confirmed :: "nat \<Rightarrow> db \<Rightarrow> bool" where
  "confirmed i d \<longleftrightarrow> (\<exists>p \<in> set (db_transactions d). tx_ID p = i \<and> tx_Status p = TransactionStatusConfirmed)"

fun fails :: "nat \<Rightarrow> other_step \<Rightarrow> bool" where
  "fails i (OtherFail j now b g p msg at) \<longleftrightarrow> i = j"
| "fails i _ \<longleftrightarrow> False"

fun confirms :: "nat \<Rightarrow> other_step \<Rightarrow> bool" where
  "confirms i (OtherMarkConfirmed j now b g p) \<longleftrightarrow> i = j"
| "confirms i _ \<longleftrightarrow> False"

lemma confirmed_lasting: "lasting (confirmed i)"
  unfolding lasting_def confirmed_def by (metis confirmed_terminal row_leD(3) txs_leD(1))

lemma new_failure:
  assumes "r \<in> set (db_transactions (run_step s d))" and "tx_Status r = TransactionStatusFailed"
    and "\<not> fails (tx_ID r) s"
  shows "r \<in> set (db_transactions d)"
  using assms
  by (cases s) (auto simp: set_update_where row_set_defs row_guard_defs fail_with_retry_def Let_def fresh_row_def
      retry_transaction_def credit_account_def insert_withdraw_record_def
      split: option.splits if_splits)

lemma sent_moves:
  assumes "tx_step\<^sup>*\<^sup>* s s'" and "s \<in> {TransactionStatusSent, TransactionStatusConfirmed}"
  shows "s' \<in> {TransactionStatusSent, TransactionStatusConfirmed, TransactionStatusFailed}"
  using assms by (induction rule: rtranclp_induct) (auto simp: tx_step_from_sent)

lemma due_row: "due k i h d \<Longrightarrow> p \<in> set (db_transactions d) \<Longrightarrow> tx_ID p = i \<Longrightarrow> in_chain k d p \<and> payout_row i h p"
  using same_row unfolding due_def in_chain_def payout_row_def table_ok_def txs_ok_def by metis

lemma due_step:
  assumes "due k i h d" and "\<not> fails i s"
  shows "due k i h (run_step s d)"
proof -
  obtain p where ok: "table_ok d" and p: "in_chain k d p" "payout_row i h p"
    using assms(1) by (auto simp: due_def)
  have p_in: "p \<in> set (db_transactions d)" using p(1) by (simp add: in_chain_def)
  then obtain p' where p': "p' \<in> set (db_transactions (run_step s d))" "row_le p p'"
    using run_step_txs_le [OF ok] by (blast dest: txs_leD(1))
  have id': "tx_ID p' = i" using p' p(2) by (simp add: row_leD(1) payout_row_def)
  have "tx_Status p' \<noteq> TransactionStatusFailed"
  proof
    assume failed: "tx_Status p' = TransactionStatusFailed"
    with new_failure [OF p'(1)] assms(2) id' have "p' \<in> set (db_transactions d)" by simp
    with ok p_in id' p(2) have "p' = p"
      using same_row [of d p' p] by (simp add: payout_row_def table_ok_def txs_ok_def)
    with failed p(2) show False by (simp add: payout_row_def)
  qed
  moreover have "tx_Status p' \<in> {TransactionStatusSent, TransactionStatusConfirmed, TransactionStatusFailed}"
    using p(2) p'(2) by (intro sent_moves [of "tx_Status p"]) (auto simp: row_le_def payout_row_def)
  moreover have "tx_TxHash p' = Some h" using p(2) p'(2) by (auto simp: row_le_def payout_row_def)
  moreover have "RootTransactionID p' = k" using p(1) p'(2) by (simp add: row_leD(2) in_chain_def)
  ultimately show ?thesis
    using table.step [OF ok] p'(1) id' by (auto simp: due_def in_chain_def payout_row_def)
qed

lemma due_run_steps: "due k i h d \<Longrightarrow> \<forall>s \<in> set ss. \<not> fails i s \<Longrightarrow> due k i h (run_steps ss d)"
  unfolding run_steps_def by (induction ss arbitrary: d) (simp_all add: due_step)

lemma confirm_step:
  assumes "due k i h d" and "confirms i s"
  shows "confirmed i (run_step s d)"
proof -
  obtain now b g p where s: "s = OtherMarkConfirmed i now b g p"
    using assms(2) by (cases s) simp_all
  obtain r where r: "r \<in> set (db_transactions d)" "payout_row i h r"
    using assms(1) unfolding due_def in_chain_def by blast
  let ?r = "if mark_confirmed_guard i r then mark_confirmed_set now b g p r else r"
  have "?r \<in> set (db_transactions (run_step s d))"
    using r(1) by (simp add: s set_update_where)
  moreover have "tx_ID ?r = i" "tx_Status ?r = TransactionStatusConfirmed"
    using r(2) by (auto simp: payout_row_def mark_confirmed_guard_def mark_confirmed_set_def)
  ultimately show ?thesis unfolding confirmed_def by blast
qed

lemma confirm_run_steps:
  assumes "due k i h d" and "\<forall>s \<in> set ss. \<not> fails i s" and "\<exists>s \<in> set ss. confirms i s"
  shows "confirmed i (run_steps ss d)"
proof -
  obtain xs s ys where ss: "ss = xs @ s # ys" and s: "confirms i s"
    using assms(3) by (auto dest: split_list)
  have d: "due k i h (run_steps xs d)" using due_run_steps [OF assms(1)] assms(2) ss by simp
  have "table_ok (run_step s (run_steps xs d))" using table.step d by (simp add: due_def)
  from lasting_run_steps [OF confirmed_lasting this confirm_step [OF d s], of ys] show ?thesis
    by (simp add: ss run_steps_def)
qed

section \<open>Reading its chain\<close>

lemma due_others:
  assumes "due k i h d" and "in_chain k d s" and "tx_ID s \<noteq> i"
  shows "IsProvenOnChainFailure s \<and> tx_ID s < i"
proof -
  obtain p where ok: "txs_ok d" "ancestors_ok d" and p: "in_chain k d p" "payout_row i h p"
    using assms(1) by (auto simp: due_def table_ok_def)
  have "active p" "tx_Status p \<noteq> TransactionStatusFailed" using p(2) by (auto simp: active_def payout_row_def)
  then have "\<not> i < tx_ID s"
    using ok(1) p assms(2) by (auto simp: txs_ok_def chains_ok_def in_chain_def payout_row_def)
  with assms(3) have "tx_ID s < i" by simp
  moreover have "ancestors_proven p (db_transactions d)"
    using ok(2) p(1) \<open>active p\<close> by (simp add: ancestors_ok_def in_chain_def)
  ultimately show ?thesis
    using p assms(2) by (auto simp: ancestors_proven_def in_chain_def payout_row_def)
qed

lemma confirmed_iff:
  "due k i h d \<Longrightarrow> p \<in> set (db_transactions d) \<Longrightarrow> tx_ID p = i \<Longrightarrow>
   confirmed i d \<longleftrightarrow> tx_Status p = TransactionStatusConfirmed"
  using same_row unfolding due_def confirmed_def table_ok_def txs_ok_def by metis

lemma read_root:
  assumes "due k i h d"
  shows "\<exists>r. first_transaction k d = Inr r \<and> tx_ID r = k \<and>
    (if k = i then payout_row i h r \<and> (confirmed i d \<longleftrightarrow> tx_Status r = TransactionStatusConfirmed)
     else IsProvenOnChainFailure r)"
proof -
  obtain p where ok: "ids_ok d" "roots_ok d" and p: "in_chain k d p" "payout_row i h p"
    using assms by (auto simp: due_def table_ok_def txs_ok_def)
  have "\<exists>q \<in> set (db_transactions d). tx_ID q = k \<and> tx_RetryTransactionID q = None"
    using p(1) ok(2) by (auto simp: in_chain_def RootTransactionID_def roots_ok_def split: option.splits)
  then obtain q where q: "q \<in> set (db_transactions d)" "tx_ID q = k" "tx_RetryTransactionID q = None" by blast
  then have c: "in_chain k d q" by (simp add: in_chain_def RootTransactionID_def)
  have "k \<noteq> 0" using ok(1) q(1,2) by (auto simp: ids_ok_def)
  then have "first_transaction k d = Inr q"
    using find_transaction_Some [OF ok(1), of k q] q by (simp add: first_transaction_def)
  then show ?thesis
    using due_row [OF assms q(1)] due_others [OF assms c] confirmed_iff [OF assms q(1)] q(2) by auto
qed

lemma last_row:
  "sorted_wrt (<) (map tx_ID rows) \<Longrightarrow> p \<in> set rows \<Longrightarrow> \<forall>s \<in> set rows. tx_ID s \<le> tx_ID p \<Longrightarrow>
   rows = butlast rows @ [p] \<and> (\<forall>s \<in> set (butlast rows). tx_ID s < tx_ID p)"
proof (induction rows rule: rev_induct)
  case (snoc x xs)
  then show ?case by (auto simp: sorted_wrt_append)
qed simp

lemma read_retries:
  assumes "due k i h d"
  shows "if k = i then retry_rows k (db_transactions d) = []
    else \<exists>rs p. retry_rows k (db_transactions d) = rs @ [p] \<and> (\<forall>s \<in> set rs. IsProvenOnChainFailure s) \<and>
      payout_row i h p \<and> (confirmed i d \<longleftrightarrow> tx_Status p = TransactionStatusConfirmed)"
proof -
  let ?rows = "retry_rows k (db_transactions d)"
  obtain p where ok: "ids_ok d" "roots_ok d" and p: "in_chain k d p" "payout_row i h p"
    using assms by (auto simp: due_def table_ok_def txs_ok_def)
  have c: "in_chain k d s" if "s \<in> set ?rows" for s
    using that by (auto simp: retry_rows_def in_chain_def RootTransactionID_def)
  have le: "tx_ID s \<le> i" if "s \<in> set ?rows" for s using due_others [OF assms c [OF that]] by fastforce
  show ?thesis
  proof (cases "k = i")
    case True
    have "k < tx_ID s" if "s \<in> set ?rows" for s
      using that ok(2) by (auto simp: retry_rows_def roots_ok_def)
    with le True have "s \<notin> set ?rows" for s by fastforce
    then have "?rows = []" by (metis last_in_set)
    with True show ?thesis by simp
  next
    case False
    then have "p \<in> set ?rows"
      using p by (auto simp: in_chain_def RootTransactionID_def payout_row_def retry_rows_def split: option.splits)
    moreover have "sorted_wrt (<) (map tx_ID ?rows)"
      using ok(1) unfolding ids_ok_def retry_rows_def by (auto simp: sorted_wrt_map intro: sorted_wrt_filter)
    ultimately obtain rs where rows: "?rows = rs @ [p]" "\<forall>s \<in> set rs. tx_ID s < i"
      using last_row [of ?rows p] le p(2) unfolding payout_row_def by metis
    have "IsProvenOnChainFailure s" if "s \<in> set rs" for s
      using due_others [OF assms c, of s] that rows by auto
    moreover have "confirmed i d \<longleftrightarrow> tx_Status p = TransactionStatusConfirmed"
      using confirmed_iff [OF assms, of p] p by (simp add: in_chain_def payout_row_def)
    ultimately show ?thesis using False rows(1) p(2) by auto
  qed
qed

section \<open>The schedule\<close>

text \<open>
  Nobody else writes accounts, the payout does not fail, from the tick \<open>t0\<close> on the confirmer marks it
  as confirmed whenever it is its turn, and the database and the context report no errors.
\<close>

definition paying_schedule :: "nat \<Rightarrow> nat \<Rightarrow> env \<Rightarrow> bool" where
  "paying_schedule i t0 E \<longleftrightarrow> accounts_quiet E \<and>
     (\<forall>t. \<forall>s \<in> set (env_others E t). \<not> fails i s) \<and>
     (\<forall>t \<ge> t0. \<exists>s \<in> set (env_others E t). confirms i s) \<and>
     (\<forall>t. env_db_fault E t = None \<and> env_commit_fault E t = None \<and> env_ctx E t = None)"

definition relay_accepts :: "env \<Rightarrow> bool" where
  "relay_accepts E \<longleftrightarrow> (\<forall>m u. env_NewRequest E m u = None) \<and>
     (\<forall>t q. \<exists>resp. env_HTTP E t q = Inr resp \<and> 200 \<le> rs_StatusCode resp \<and> rs_StatusCode resp \<le> 299) \<and>
     (\<forall>s. \<exists>j. env_ParseJSON E s = Inr j) \<and> (\<exists>key. eth_HexToECDSA (env_lib E) (api_key E) = Inr key) \<and>
     (\<forall>digest key. \<exists>sig. eth_Sign (env_lib E) digest key = Inr sig)"

text \<open>The processor at work: inside a transaction or not (\<open>b\<close>), before or after the payout is confirmed (\<open>c\<close>).\<close>

definition at_work ::
  "nat \<Rightarrow> nat \<Rightarrow> string \<Rightarrow> bool \<Rightarrow> bool \<Rightarrow> relay_account list \<Rightarrow> withdraw_record \<Rightarrow> ext_call list \<Rightarrow> world \<Rightarrow> bool" where
  "at_work k i h b c A q cs w \<longleftrightarrow> due k i h (w_db w) \<and> (c \<longrightarrow> confirmed i (w_db w)) \<and>
     db_relay_accounts (w_db w) = A \<and> w_record w = q \<and> w_calls w = cs \<and> w_in_tx w = b"

lemma schedule_seen:
  assumes E: "paying_schedule i t0 E" and w: "at_work k i h b c A q cs w"
  shows "due k i h (seen_db E w) \<and> (c \<longrightarrow> confirmed i (seen_db E w)) \<and> db_relay_accounts (seen_db E w) = A \<and>
    (t0 \<le> w_tick w \<and> \<not> b \<longrightarrow> confirmed i (seen_db E w))"
proof -
  let ?ss = "env_others E (w_tick w)"
  have q: "accounts_quiet E" and no_fail: "\<forall>s \<in> set ?ss. \<not> fails i s"
    and turn: "t0 \<le> w_tick w \<Longrightarrow> \<exists>s \<in> set ?ss. confirms i s"
    using E by (simp_all add: paying_schedule_def)
  have d: "due k i h (w_db w)" "c \<longrightarrow> confirmed i (w_db w)" "db_relay_accounts (w_db w) = A" "w_in_tx w = b"
    using w by (simp_all add: at_work_def)
  have "confirmed i (run_steps ?ss (w_db w))" if c
    using lasting_run_steps [OF confirmed_lasting] d(1,2) that by (simp add: due_def)
  moreover have "db_relay_accounts (seen_db E w) = A"
    using stable_view.seen_view [OF accounts_stable [OF q]] d(3) by metis
  ultimately show ?thesis
    using d due_run_steps [OF d(1) no_fail] confirm_run_steps [OF d(1) no_fail] turn
    by (simp add: seen_db_def)
qed

lemma query_completes:
  assumes E: "paying_schedule i t0 E"
    and f: "\<And>d. due k i h d \<Longrightarrow> (c \<longrightarrow> confirmed i d) \<Longrightarrow> db_relay_accounts d = A \<Longrightarrow> \<exists>x. f d = Inr x \<and> X x d"
  shows "completes (at_work k i h b c A q cs) (db_query E f) (\<lambda>x w. X x (w_db w) \<and> at_work k i h b c A q cs w)"
  unfolding completes_def
proof (intro allI impI)
  fix w assume w: "at_work k i h b c A q cs w"
  note seen = schedule_seen [OF E w]
  then obtain x where "f (seen_db E w) = Inr x" "X x (seen_db E w)" using f by blast
  moreover have "env_db_fault E (w_tick w) = None" using E by (simp add: paying_schedule_def)
  ultimately show "\<exists>x t. db_query E f w = (Inr x, t) \<and> X x (w_db t) \<and> at_work k i h b c A q cs t"
    using seen w by (simp add: db_query_def db_action_def at_work_def)
qed

lemma action_completes:
  assumes E: "paying_schedule i t0 E"
    and f: "\<And>d. db_relay_accounts d = A \<Longrightarrow> fst (f d) = Inr () \<and> db_transactions (snd (f d)) = db_transactions d \<and>
      db_next_transaction_id (snd (f d)) = db_next_transaction_id d \<and> db_relay_accounts (snd (f d)) = A' \<and> X (snd (f d))"
  shows "completes (at_work k i h b c A q cs) (db_action E f) (\<lambda>x w. X (w_db w) \<and> at_work k i h b c A' q cs w)"
  unfolding completes_def
proof (intro allI impI)
  fix w assume w: "at_work k i h b c A q cs w"
  let ?d = "seen_db E w"
  note seen = schedule_seen [OF E w]
  obtain d' where d': "f ?d = (Inr (), d')" "db_transactions d' = db_transactions ?d"
    "db_next_transaction_id d' = db_next_transaction_id ?d" "db_relay_accounts d' = A'" "X d'"
    using f [of ?d] seen by (metis prod.collapse)
  have "due k i h d'" "confirmed i d' = confirmed i ?d"
    using table_ok_unrelated [OF d'(2,3)] d'(2) seen by (simp_all add: due_def confirmed_def in_chain_def)
  moreover have "env_db_fault E (w_tick w) = None" using E by (simp add: paying_schedule_def)
  ultimately show "\<exists>x t. db_action E f w = (Inr x, t) \<and> X (w_db t) \<and> at_work k i h b c A' q cs t"
    using seen w d' by (simp add: db_action_def at_work_def)
qed

lemma transaction_completes:
  assumes E: "paying_schedule i t0 E"
    and m: "completes (at_work k i h True c A q cs) m (\<lambda>x. at_work k i h True c A' q' cs)"
  shows "completes (at_work k i h False c A q cs) (db_transaction E m) (\<lambda>x. at_work k i h False c A' q' cs)"
  unfolding db_transaction_def
proof (rule completes_and_then)
  show "completes (at_work k i h False c A q cs) (db_query E (\<lambda>_. Inr () :: go_error + unit))
      (\<lambda>x w. True \<and> at_work k i h False c A q cs w)"
    by (rule query_completes [OF E]) simp
next
  fix x :: unit
  have "\<exists>y u. commit_or_rollback E (w_tick v) (w_db v) (m (v\<lparr>w_in_tx := True\<rparr>)) = (Inr y, u) \<and>
      at_work k i h False c A' q' cs u" if v: "at_work k i h False c A q cs v" for v
  proof -
    have "at_work k i h True c A q cs (v\<lparr>w_in_tx := True\<rparr>)" using v by (simp add: at_work_def)
    then obtain y u where "m (v\<lparr>w_in_tx := True\<rparr>) = (Inr y, u)" "at_work k i h True c A' q' cs u"
      using m unfolding completes_def by blast
    moreover have "env_commit_fault E (w_tick u) = None" using E by (simp add: paying_schedule_def)
    ultimately show ?thesis by (simp add: commit_or_rollback_def at_work_def)
  qed
  then show "completes (\<lambda>w. True \<and> at_work k i h False c A q cs w)
      (\<lambda>w. commit_or_rollback E (w_tick w) (w_db w) (m (w\<lparr>w_in_tx := True\<rparr>))) (\<lambda>x. at_work k i h False c A' q' cs)"
    unfolding completes_def by blast
qed

section \<open>The steps of the processor\<close>

definition payout_chain :: "nat \<Rightarrow> string \<Rightarrow> bool \<Rightarrow> btx list \<Rightarrow> bool" where
  "payout_chain i h c rows \<longleftrightarrow> (\<exists>rs p. rows = rs @ [p] \<and> (\<forall>s \<in> set rs. IsProvenOnChainFailure s) \<and>
     payout_row i h p \<and> (c \<longrightarrow> tx_Status p = TransactionStatusConfirmed))"

lemma root_completes:
  assumes "paying_schedule i t0 E"
  shows "completes (at_work k i h b c A q cs) (GetTransactionByID E k) (\<lambda>r w.
    (if k = i then payout_row i h r \<and> (confirmed i (w_db w) \<longleftrightarrow> tx_Status r = TransactionStatusConfirmed)
     else IsProvenOnChainFailure r) \<and> at_work k i h b c A q cs w)"
  unfolding GetTransactionByID_def by (rule query_completes [OF assms]) (blast dest: read_root)

lemma retries_completes:
  assumes "paying_schedule i t0 E"
  shows "completes (at_work k i h b c A q cs) (GetRetryTransactionsByID E k) (\<lambda>rows w.
    (if k = i then rows = [] else \<exists>rs p. rows = rs @ [p] \<and> (\<forall>s \<in> set rs. IsProvenOnChainFailure s) \<and>
      payout_row i h p \<and> (confirmed i (w_db w) \<longleftrightarrow> tx_Status p = TransactionStatusConfirmed)) \<and>
    at_work k i h b c A q cs w)"
  unfolding GetRetryTransactionsByID_def by (rule query_completes [OF assms]) (metis read_retries)

lemma chain_completes:
  assumes E: "paying_schedule i t0 E"
  shows "completes (at_work k i h b c A q cs) (ListTransactionChain E k)
    (\<lambda>rows w. payout_chain i h c rows \<and> at_work k i h b c A q cs w)"
  unfolding ListTransactionChain_def
proof (rule completes_and_then)
  show "completes (at_work k i h b c A q cs) (GetTransactionByID E k) (\<lambda>r w.
    (if k = i then payout_row i h r \<and> (c \<longrightarrow> tx_Status r = TransactionStatusConfirmed) else IsProvenOnChainFailure r) \<and>
    at_work k i h b c A q cs w)"
    by (rule completes_weaken [OF root_completes [OF E, of k h b c A q cs]]) (auto simp: at_work_def)
next
  fix r
  show "completes (\<lambda>w. (if k = i then payout_row i h r \<and> (c \<longrightarrow> tx_Status r = TransactionStatusConfirmed)
      else IsProvenOnChainFailure r) \<and> at_work k i h b c A q cs w)
    (and_then (GetRetryTransactionsByID E k) (\<lambda>rs. return_ok (r # rs)))
    (\<lambda>rows w. payout_chain i h c rows \<and> at_work k i h b c A q cs w)"
  proof (intro completes_pure completes_and_then [OF retries_completes [OF E]] completes_return_ok conjI)
    fix rs w
    assume r: "if k = i then payout_row i h r \<and> (c \<longrightarrow> tx_Status r = TransactionStatusConfirmed)
        else IsProvenOnChainFailure r"
      and rs: "(if k = i then rs = [] else \<exists>us p. rs = us @ [p] \<and> (\<forall>s \<in> set us. IsProvenOnChainFailure s) \<and>
        payout_row i h p \<and> (confirmed i (w_db w) \<longleftrightarrow> tx_Status p = TransactionStatusConfirmed)) \<and>
        at_work k i h b c A q cs w"
    have c: "c \<longrightarrow> confirmed i (w_db w)" using rs by (simp add: at_work_def)
    show "payout_chain i h c (r # rs)"
    proof (cases "k = i")
      case True
      then show ?thesis using r rs unfolding payout_chain_def by (intro exI [of _ "[]"]) simp
    next
      case False
      then obtain us p where "rs = us @ [p]" "\<forall>s \<in> set us. IsProvenOnChainFailure s" "payout_row i h p"
        "confirmed i (w_db w) \<longleftrightarrow> tx_Status p = TransactionStatusConfirmed"
        using rs by auto
      then show ?thesis using r c False unfolding payout_chain_def by (intro exI [of _ "r # us"] exI [of _ p]) simp
    qed
  qed simp
qed

lemma current_completes:
  assumes E: "paying_schedule i t0 E"
  shows "completes (at_work k i h b c A q cs) (getCurrentBlockchainTransaction E k) (\<lambda>p w. payout_row i h p \<and>
    (tx_Status p = TransactionStatusConfirmed \<longrightarrow> confirmed i (w_db w)) \<and> at_work k i h b c A q cs w)"
  unfolding getCurrentBlockchainTransaction_def
proof (rule completes_and_then [OF root_completes [OF E]])
  fix r
  let ?Q = "\<lambda>p w. payout_row i h p \<and> (tx_Status p = TransactionStatusConfirmed \<longrightarrow> confirmed i (w_db w)) \<and>
    at_work k i h b c A q cs w"
  show "completes (\<lambda>w. (if k = i then payout_row i h r \<and>
        (confirmed i (w_db w) \<longleftrightarrow> tx_Status r = TransactionStatusConfirmed) else IsProvenOnChainFailure r) \<and>
      at_work k i h b c A q cs w)
    (if tx_Status r \<noteq> TransactionStatusFailed then return_ok r
     else and_then (GetRetryTransactionsByID E k) (\<lambda>rows. return_ok (if rows = [] then r else last rows))) ?Q"
  proof (cases "k = i")
    case True
    show ?thesis
    proof (cases "tx_Status r = TransactionStatusFailed")
      case True
      with \<open>k = i\<close> show ?thesis by (simp add: completes_def payout_row_def)
    next
      case False
      with True show ?thesis by (simp add: completes_def return_ok_def)
    qed
  next
    case False
    have "completes (at_work k i h b c A q cs)
        (and_then (GetRetryTransactionsByID E k) (\<lambda>rows. return_ok (if rows = [] then r else last rows))) ?Q"
      using False by (intro completes_and_then [OF retries_completes [OF E]] completes_return_ok) auto
    then show ?thesis
      using False unfolding completes_def by (auto simp: IsProvenOnChainFailure_def)
  qed
qed

lemma Sync_completes:
  assumes E: "paying_schedule i t0 E" and w: "at_work k i h b c A q cs w" and tx: "payout_row i h tx"
  shows "\<exists>p w'. Sync E tx w = (Inr p, w') \<and> payout_row i h p \<and>
    (tx_Status p = TransactionStatusConfirmed \<longleftrightarrow> confirmed i (w_db w')) \<and>
    (t0 \<le> w_tick w \<and> \<not> b \<longrightarrow> confirmed i (w_db w')) \<and> at_work k i h b c A q cs w' \<and> w_tick w' = Suc (w_tick w)"
proof -
  let ?d = "seen_db E w"
  note seen = schedule_seen [OF E w]
  then obtain p where d: "ids_ok ?d" and p: "p \<in> set (db_transactions ?d)" "payout_row i h p"
    by (auto simp: due_def in_chain_def table_ok_def txs_ok_def)
  have "i \<noteq> 0" using d p by (auto simp: ids_ok_def payout_row_def)
  then have "first_transaction (tx_ID tx) ?d = Inr p"
    using find_transaction_Some [OF d, of i p] p tx by (simp add: first_transaction_def payout_row_def)
  moreover have "env_db_fault E (w_tick w) = None" using E by (simp add: paying_schedule_def)
  moreover have "confirmed i ?d \<longleftrightarrow> tx_Status p = TransactionStatusConfirmed"
    using confirmed_iff [of k i h ?d p] seen p by (simp add: payout_row_def)
  ultimately show ?thesis
    using seen w p(2) by (simp add: Sync_def db_query_def db_action_def at_work_def)
qed

text \<open>Waiting ends: after the tick \<open>t0\<close> the next look at the row finds it confirmed.\<close>

lemma await_completes:
  assumes E: "paying_schedule i t0 E"
  shows "at_work k i h False c A q cs w \<Longrightarrow> payout_row i h tx \<Longrightarrow>
    (tx_Status tx = TransactionStatusConfirmed \<longrightarrow> confirmed i (w_db w)) \<Longrightarrow> 2 + (t0 - w_tick w) \<le> n \<Longrightarrow>
    \<exists>p w'. await_outcome E n tx w = (Inr p, w') \<and> payout_row i h p \<and>
      tx_Status p = TransactionStatusConfirmed \<and> at_work k i h False True A q cs w'"
proof (induction n arbitrary: tx w)
  case (Suc n)
  show ?case
  proof (cases "tx_Status tx = TransactionStatusConfirmed")
    case True
    with Suc.prems show ?thesis by (simp add: is_terminal_status_def return_ok_def at_work_def)
  next
    case False
    then have open_tx: "\<not> is_terminal_status (tx_Status tx)"
      using Suc.prems(2) by (auto simp: is_terminal_status_def payout_row_def)
    obtain p v where sync: "Sync E tx w = (Inr p, v)" and p: "payout_row i h p"
      and conf: "tx_Status p = TransactionStatusConfirmed \<longleftrightarrow> confirmed i (w_db v)"
      and late: "t0 \<le> w_tick w \<longrightarrow> confirmed i (w_db v)"
      and v: "at_work k i h False c A q cs v" "w_tick v = Suc (w_tick w)"
      using Sync_completes [OF E Suc.prems(1,2)] by auto
    let ?u = "v\<lparr>w_tick := Suc (w_tick v)\<rparr>"
    have "env_ctx E (w_tick v) = None" using E by (simp add: paying_schedule_def)
    then have run: "await_outcome E (Suc n) tx w = await_outcome E n p ?u"
      using open_tx sync by (simp add: and_then_def sleep_def ask_unit_def ask_def)
    have u: "at_work k i h False c A q cs ?u" using v(1) by (simp add: at_work_def)
    show ?thesis
    proof (cases "tx_Status p = TransactionStatusConfirmed")
      case True
      obtain m where "n = Suc m" using Suc.prems(4) by (cases n) auto
      with True run u p conf show ?thesis by (simp add: is_terminal_status_def return_ok_def at_work_def)
    next
      case False
      with late conf have "w_tick w < t0" by auto
      with Suc.prems(4) v(2) have "2 + (t0 - w_tick ?u) \<le> n" by auto
      from Suc.IH [OF u p _ this] False run show ?thesis by simp
    qed
  qed
qed simp

lemma chain_classified:
  assumes "payout_chain i h True rows"
  shows "co_ConfirmedCount (ClassifyTransactionChain rows) = 1"
    and "find (\<lambda>t. tx_Status t \<noteq> TransactionStatusConfirmed \<and> \<not> IsProvenTerminalFailure t) rows = None"
proof -
  obtain rs p where rows: "rows = rs @ [p]" "tx_Status p = TransactionStatusConfirmed"
    and rs: "\<forall>s \<in> set rs. IsProvenOnChainFailure s"
    using assms by (auto simp: payout_chain_def)
  from rs have "filter (\<lambda>r. tx_Status r = TransactionStatusConfirmed) rs = []"
    by (auto simp: filter_empty_conv IsProvenOnChainFailure_def)
  with rows show "co_ConfirmedCount (ClassifyTransactionChain rows) = 1"
    by (simp add: ClassifyTransactionChain_eq)
  show "find (\<lambda>t. tx_Status t \<noteq> TransactionStatusConfirmed \<and> \<not> IsProvenTerminalFailure t) rows = None"
    using rows rs by (auto simp: find_None_iff IsProvenTerminalFailure_def)
qed

lemma fulfill_safe_eq:
  assumes "w_record w = q" and "wr_BlockchainTransactionID q = Some k"
    and "tx_Status p = TransactionStatusConfirmed" and "tx_TxHash p = Some h"
  shows "ensureWithdrawalFulfillSafe E (Some p) w =
    and_then (ListTransactionChain E k) (\<lambda>rows.
      if co_ConfirmedCount (ClassifyTransactionChain rows) \<noteq> 1 then
        (case co_Blocking (ClassifyTransactionChain rows) of
           Some blocker \<Rightarrow> stopForBlockingTimeout blocker
         | None \<Rightarrow> stopForBlockingTimeout p)
      else
        (case find (\<lambda>t. tx_Status t \<noteq> TransactionStatusConfirmed \<and> \<not> IsProvenTerminalFailure t) rows of
           Some t \<Rightarrow> stopForBlockingTimeout t
         | None \<Rightarrow> return_ok ())) w"
  using assms by (simp add: ensureWithdrawalFulfillSafe_def and_then_def [of the_record] Let_def
      cong: if_cong)

lemma fulfill_safe_completes:
  assumes E: "paying_schedule i t0 E" and q: "wr_BlockchainTransactionID q = Some k"
    and p: "payout_row i h p" "tx_Status p = TransactionStatusConfirmed"
  shows "completes (at_work k i h b True A q cs) (ensureWithdrawalFulfillSafe E (Some p))
    (\<lambda>_. at_work k i h b True A q cs)"
  unfolding completes_def
proof (intro allI impI)
  fix w assume w: "at_work k i h b True A q cs w"
  then obtain rows v where v: "ListTransactionChain E k w = (Inr rows, v)" "payout_chain i h True rows"
      "at_work k i h b True A q cs v"
    using chain_completes [OF E] unfolding completes_def by blast
  have "w_record w = q" "tx_TxHash p = Some h" using w p(1) by (simp_all add: at_work_def payout_row_def)
  from fulfill_safe_eq [OF this(1) q p(2) this(2)] v
  show "\<exists>x t. ensureWithdrawalFulfillSafe E (Some p) w = (Inr x, t) \<and> at_work k i h b True A q cs t"
    by (simp add: and_then_def chain_classified return_ok_def)
qed

lemma status_completes:
  assumes E: "paying_schedule i t0 E"
  shows "completes (at_work k i h b c A q cs) (UpdateStatus E s) (\<lambda>_ w.
    (\<forall>r \<in> set (db_withdraw_records (w_db w)). wr_ID r = wr_ID q \<longrightarrow> wr_Status r = s) \<and>
    at_work k i h b c A (q\<lparr>wr_Status := s\<rparr>) cs w)"
  unfolding UpdateStatus_def the_record_def
proof (rule completes_reads)
  fix w assume "at_work k i h b c A q cs w"
  then show "w_record w = q" by (simp add: at_work_def)
next
  let ?X = "\<lambda>d. \<forall>r \<in> set (db_withdraw_records d). wr_ID r = wr_ID q \<longrightarrow> wr_Status r = s"
  show "completes (at_work k i h b c A q cs)
      (and_then (db_action E (update_record (wr_ID q) (\<lambda>r. r\<lparr>wr_Status := s\<rparr>))) (\<lambda>_. set_record (\<lambda>r. r\<lparr>wr_Status := s\<rparr>)))
      (\<lambda>_ w. ?X (w_db w) \<and> at_work k i h b c A (q\<lparr>wr_Status := s\<rparr>) cs w)"
  proof (rule completes_and_then)
    show "completes (at_work k i h b c A q cs) (db_action E (update_record (wr_ID q) (\<lambda>r. r\<lparr>wr_Status := s\<rparr>)))
        (\<lambda>_ w. ?X (w_db w) \<and> at_work k i h b c A q cs w)"
      by (rule action_completes [OF E]) (auto simp: update_record_def update_records_def set_update_where)
  qed (simp add: completes_def set_record_def writes_def at_work_def)
qed

text \<open>The debit, the settlement, and the answer.\<close>

definition debited :: "withdraw_record \<Rightarrow> relay_account \<Rightarrow> relay_account list \<Rightarrow> relay_account list" where
  "debited q account = update_where (\<lambda>r. ra_ID r = ra_ID account)
     (\<lambda>r. r\<lparr>ra_Balance := ra_Balance account - total_of q\<rparr>)"

definition covered :: "withdraw_record \<Rightarrow> relay_account \<Rightarrow> relay_account list \<Rightarrow> bool" where
  "covered q account A \<longleftrightarrow> find (\<lambda>r. ra_Address r = wr_Address q) A = Some account \<and> total_of q \<le> ra_Balance account"

lemma debit_completes:
  assumes E: "paying_schedule i t0 E" and acc: "covered q account A"
  shows "completes (at_work k i h False True A q cs) (debit_account E)
    (\<lambda>_. at_work k i h False True (debited q account A) (q\<lparr>wr_Status := WithdrawStatusSuccess\<rparr>) cs)"
proof -
  let ?total = "withdrawalTotalAmount (wr_Amount q) (wr_WithdrawalFee q)"
  have total: "total_of q = ?total" by (simp add: total_of_def)
  let ?body = "and_then (db_query E (find_account (wr_Address q))) (\<lambda>account.
      if ra_Balance account < ?total then return_err (WithdrawalRequestError ErrWithdrawalRequestTaskFeeNotEnough)
      else and_then (db_action E (save_balance (ra_ID account) (ra_Balance account - ?total))) (\<lambda>_.
        UpdateStatus E WithdrawStatusSuccess))"
  have "completes (at_work k i h True True A q cs) ?body
      (\<lambda>_. at_work k i h True True (debited q account A) (q\<lparr>wr_Status := WithdrawStatusSuccess\<rparr>) cs)"
  proof (rule completes_and_then)
    show "completes (at_work k i h True True A q cs) (db_query E (find_account (wr_Address q)))
        (\<lambda>x w. x = account \<and> at_work k i h True True A q cs w)"
      by (rule query_completes [OF E]) (use acc in \<open>simp add: covered_def find_account_def\<close>)
  next
    fix x
    have save: "completes (at_work k i h True True A q cs)
        (db_action E (save_balance (ra_ID account) (ra_Balance account - ?total)))
        (\<lambda>_ w. True \<and> at_work k i h True True (debited q account A) q cs w)"
      by (rule action_completes [OF E]) (simp add: save_balance_def debited_def total)
    have "completes (at_work k i h True True A q cs)
        (and_then (db_action E (save_balance (ra_ID account) (ra_Balance account - ?total)))
          (\<lambda>_. UpdateStatus E WithdrawStatusSuccess))
        (\<lambda>_. at_work k i h True True (debited q account A) (q\<lparr>wr_Status := WithdrawStatusSuccess\<rparr>) cs)"
      by (rule completes_and_then [OF save], rule completes_weaken [OF status_completes [OF E]]) auto
    then show "completes (\<lambda>w. x = account \<and> at_work k i h True True A q cs w)
        (if ra_Balance x < ?total then return_err (WithdrawalRequestError ErrWithdrawalRequestTaskFeeNotEnough)
         else and_then (db_action E (save_balance (ra_ID x) (ra_Balance x - ?total))) (\<lambda>_.
           UpdateStatus E WithdrawStatusSuccess))
        (\<lambda>_. at_work k i h True True (debited q account A) (q\<lparr>wr_Status := WithdrawStatusSuccess\<rparr>) cs)"
      using acc by (intro completes_pure) (simp add: covered_def total)
  qed
  from transaction_completes [OF E this] show ?thesis
    unfolding completes_def debit_account_def and_then_def [of the_record]
    by (simp add: at_work_def Let_def cong: if_cong)
qed

lemma settle_completes:
  assumes E: "paying_schedule i t0 E" and q: "wr_BlockchainTransactionID q = Some k" and acc: "covered q account A"
    and p: "payout_row i h p" "tx_Status p = TransactionStatusConfirmed"
  shows "completes (at_work k i h False True A q cs) (settle_outcome E p)
    (\<lambda>_. at_work k i h False True (debited q account A) (q\<lparr>wr_Status := WithdrawStatusSuccess\<rparr>) cs)"
  using completes_and_then [OF fulfill_safe_completes [OF E q p] debit_completes [OF E acc]] p(2)
  by (simp add: settle_outcome_def)

lemma post_completes:
  assumes "relay_accepts E"
  shows "completes (at_work k i h b c A q cs) (signed_post E path call input) (\<lambda>_. at_work k i h b c A q (cs @ [call]))"
  unfolding completes_def
proof (intro allI impI)
  fix w assume w: "at_work k i h b c A q cs w"
  have answer: "\<exists>resp. env_HTTP E t rq = Inr resp \<and> processRelayResponse E resp = Inr ()" for t rq
    using assms unfolding relay_accepts_def processRelayResponse_def by metis
  have accepts: "env_NewRequest E m u = None"
      "\<exists>j. env_ParseJSON E s = Inr j" "\<exists>key. eth_HexToECDSA (env_lib E) (api_key E) = Inr key"
      "\<exists>sig. eth_Sign (env_lib E) digest key = Inr sig" for m u s digest key
    using assms by (simp_all add: relay_accepts_def)
  obtain j key where j: "env_ParseJSON E (json_text (JObj input)) = Inr j"
    and key: "eth_HexToECDSA (env_lib E) (api_key E) = Inr key"
    using accepts(2,3) by blast
  obtain sig where "eth_Sign (env_lib E) (eth_Keccak256 (env_lib E) (json_text (as_interface (env_FormatFloat E) j) @
      show_int (env_now E (w_tick w) div 1000000000))) key = Inr sig"
    using accepts(4) by blast
  with j key obtain x t where "SignData E (JObj input) (api_key E) w = (Inr x, w\<lparr>w_tick := t\<rparr>)"
    by (simp add: SignData_def jsonRemarshal_def and_then_def lift_sum_def time_now_def ask_def return_ok_def Let_def)
  moreover obtain timestamp signature where "x = (timestamp, signature)" by fastforce
  moreover obtain resp where "env_HTTP E t \<lparr>rq_Method = ''POST'', rq_URL = api_url E path, rq_Query = [],
      rq_Body = signed_body input timestamp signature\<rparr> = Inr resp" "processRelayResponse E resp = Inr ()"
    using answer by blast
  ultimately show "\<exists>x t. signed_post E path call input w = (Inr x, t) \<and> at_work k i h b c A q (cs @ [call]) t"
    using w accepts(1)
    by (simp add: signed_post_def and_then_def NewRequest_def lift_sum_def tell_def writes_def ask_def at_work_def)
qed

lemma find_payout_completes:
  assumes E: "paying_schedule i t0 E" and q: "wr_BlockchainTransactionID q = Some k"
  shows "completes (at_work k i h b c A q cs) (find_payout E tx) (\<lambda>flow w. \<exists>p. flow = Go_on p \<and> payout_row i h p \<and>
    (tx_Status p = TransactionStatusConfirmed \<longrightarrow> confirmed i (w_db w)) \<and> at_work k i h b c A q cs w)"
  unfolding completes_def
proof (intro allI impI)
  fix w assume w: "at_work k i h b c A q cs w"
  obtain rows v where v: "ListTransactionChain E k w = (Inr rows, v)" "payout_chain i h c rows" "at_work k i h b c A q cs v"
    using chain_completes [OF E] w unfolding completes_def by blast
  obtain p u where u: "getCurrentBlockchainTransaction E k v = (Inr p, u)" "payout_row i h p"
    "tx_Status p = TransactionStatusConfirmed \<longrightarrow> confirmed i (w_db u)" "at_work k i h b c A q cs u"
    using current_completes [OF E] v(3) unfolding completes_def by blast
  have "\<exists>t \<in> set rows. HasCommittedBroadcast t"
    using v(2) by (auto simp: payout_chain_def payout_row_def HasCommittedBroadcast_def)
  then have "recheck_attached E tx k w = (Inr (Go_on tx), v)"
    using v(1) by (simp add: recheck_attached_def withdrawalChainHasCommittedBroadcast_def and_then_def return_ok_def)
  moreover have "w_record w = q" using w by (simp add: at_work_def)
  ultimately have "find_payout E tx w = (Inr (Go_on p), u)"
    using q u(1) by (simp add: find_payout_def and_then_def return_ok_def)
  with u show "\<exists>x t. find_payout E tx w = (Inr x, t) \<and> (\<exists>p. x = Go_on p \<and> payout_row i h p \<and>
      (tx_Status p = TransactionStatusConfirmed \<longrightarrow> confirmed i (w_db t)) \<and> at_work k i h b c A q cs t)" by blast
qed

lemma pending_completes:
  assumes E: "paying_schedule i t0 E" and w: "at_work k i h False False A q cs w"
    and q: "wr_Status q = WithdrawStatusPending" "wr_BlockchainTransactionID q = Some k"
    and acc: "covered q account A" and fuel: "t0 + 3 \<le> n"
  shows "\<exists>p v. process_pending E n None w = (Inr (Some p), v) \<and> payout_row i h p \<and>
    tx_Status p = TransactionStatusConfirmed \<and>
    at_work k i h False True (debited q account A) (q\<lparr>wr_Status := WithdrawStatusSuccess\<rparr>) cs v"
proof -
  obtain m where m: "n = Suc (Suc m)" "t0 + 2 \<le> Suc m" using fuel by (cases n; cases "n - 1") auto
  obtain p0 v0 where v0: "find_payout E None w = (Inr (Go_on p0), v0)" "payout_row i h p0"
    "tx_Status p0 = TransactionStatusConfirmed \<longrightarrow> confirmed i (w_db v0)" "at_work k i h False False A q cs v0"
    using find_payout_completes [OF E q(2)] w unfolding completes_def by blast
  have enough: "2 + (t0 - w_tick v0) \<le> Suc m" using m(2) by linarith
  obtain p v1 where v1: "await_outcome E (Suc m) p0 v0 = (Inr p, v1)" "payout_row i h p"
    "tx_Status p = TransactionStatusConfirmed" "at_work k i h False True A q cs v1"
    using await_completes [OF E v0(4,2,3) enough] by blast
  obtain v2 where v2: "settle_outcome E p v1 = (Inr (), v2)"
    "at_work k i h False True (debited q account A) (q\<lparr>wr_Status := WithdrawStatusSuccess\<rparr>) cs v2"
    using settle_completes [OF E q(2) acc v1(2,3), of cs] v1(4) unfolding completes_def by (metis (full_types) old.unit.exhaust)
  have "w_record w = q" "w_record v2 = q\<lparr>wr_Status := WithdrawStatusSuccess\<rparr>"
    using w v2(2) by (simp_all add: at_work_def)
  then have "process_pending E n None w = (Inr (Some p), v2)"
    using m(1) q(1) v0(1) v1(1) v2(1) by (simp add: and_then_def return_ok_def)
  with v1(2,3) v2(2) show ?thesis by blast
qed

lemma answer_completes:
  assumes E: "paying_schedule i t0 E" and R: "relay_accepts E"
    and q: "wr_Status q = WithdrawStatusSuccess" "wr_BlockchainTransactionID q = Some k"
    and p: "payout_row i h p" "tx_Status p = TransactionStatusConfirmed"
  shows "completes (at_work k i h b True A q cs) (answer_relay E (Some p)) (\<lambda>_ w.
    (\<forall>r \<in> set (db_withdraw_records (w_db w)). wr_ID r = wr_ID q \<longrightarrow> wr_Status r = WithdrawStatusFinished) \<and>
    at_work k i h b True A (q\<lparr>wr_Status := WithdrawStatusFinished\<rparr>) (cs @ [Fulfill (wr_RemoteID q) h]) w)"
proof -
  let ?Q = "\<lambda>_ w. (\<forall>r \<in> set (db_withdraw_records (w_db w)). wr_ID r = wr_ID q \<longrightarrow> wr_Status r = WithdrawStatusFinished) \<and>
    at_work k i h b True A (q\<lparr>wr_Status := WithdrawStatusFinished\<rparr>) (cs @ [Fulfill (wr_RemoteID q) h]) w"
  have hash: "null_string (tx_TxHash p) = h" using p(1) by (simp add: payout_row_def null_string_def)
  let ?m = "and_then (ensureWithdrawalFulfillSafe E (Some p)) (\<lambda>_.
      and_then (FulfillWithdrawalRequest E (wr_RemoteID q) h) (\<lambda>_. UpdateStatus E WithdrawStatusFinished))"
  have "completes (at_work k i h b True A q cs) ?m ?Q"
    unfolding FulfillWithdrawalRequest_def
    by (intro completes_and_then [OF fulfill_safe_completes [OF E q(2) p]]
        completes_and_then [OF post_completes [OF R]] status_completes [OF E])
  moreover have "answer_relay E (Some p) w = ?m w" if "w_record w = q" for w
    using q(1) hash that by (simp add: answer_relay_def payout_to_report_def and_then_def [of the_record]
        and_then_return cong: if_cong)
  ultimately show ?thesis
    unfolding completes_def by (simp add: at_work_def)
qed

lemma covered_balance:
  assumes ok: "account_ids_ok d" and a: "wr_Address q \<in> ra_Address ` set (db_relay_accounts d)"
  shows "\<exists>account. find (\<lambda>r. ra_Address r = wr_Address q) (db_relay_accounts d) = Some account \<and>
    ra_Balance account = balance d (wr_Address q)"
proof -
  obtain account where acc: "find (\<lambda>r. ra_Address r = wr_Address q) (db_relay_accounts d) = Some account"
    using a by (cases "find (\<lambda>r. ra_Address r = wr_Address q) (db_relay_accounts d)") (auto simp: find_None_iff)
  then have "account \<in> set (db_relay_accounts d)" "ra_Address account = wr_Address q"
    by (auto simp: find_Some_iff)
  then have "map_of (book d) (wr_Address q) = Some (ra_Balance account)"
    using ok by (intro map_of_is_SomeI) (force simp: account_ids_ok_def accounts_ok_def book_def)+
  with acc show ?thesis by (simp add: balance_def map_default_def)
qed

section \<open>Completion\<close>


text \<open>The confirmer gets its turn from the third tick on.\<close>

definition confirming_env :: env where
  "confirming_env = sample_env\<lparr>env_ParseJSON := (\<lambda>s. Inr (JObj [])),
     env_others := (\<lambda>t. if 3 \<le> t then [OtherMarkConfirmed 1 200 50 21000 ''9''] else [])\<rparr>"

definition sent_world :: world where
  "sent_world = (world_of (withdraw_db\<lparr>db_transactions := [sent_tx], db_next_transaction_id := 2\<rparr>))
     \<lparr>w_record := signed_record\<lparr>wr_BlockchainTransactionID := Some 1\<rparr>\<rparr>"

lemma sent_world_ok: "table_ok (w_db sent_world)"
proof -
  have "table_ok sent_db"
    unfolding sent_db_def by (rule table.run_steps_keeps [OF table_ok_empty])
  then show ?thesis
    using table_ok_unrelated [of "w_db sent_world" sent_db] by (simp add: sent_world_def sent_db_eq)
qed


end
