(* ===== verification/Withdraw_Records.thy ===== *)
theory Withdraw_Records
  imports Withdraw_Properties Withdraw_Sync
begin

text \<open>
  The unique keys of \<open>withdraw_records\<close>: the remote identity and the authorization fingerprint. Every
  step of every goroutine keeps them, and with them one authorization pays at most once.
\<close>

section \<open>The invariant\<close>

definition records_unique :: "db \<Rightarrow> bool" where
  "records_unique d \<longleftrightarrow> (\<forall>r \<in> set (db_withdraw_records d). wr_ID r < db_next_withdraw_record_id d) \<and>
     distinct (map wr_ID (db_withdraw_records d)) \<and>
     (\<forall>r \<in> set (db_withdraw_records d). \<forall>q \<in> set (db_withdraw_records d). wr_ID r \<noteq> wr_ID q \<longrightarrow> \<not> conflicts r q)"

lemma records_unique_other_tables:
  "db_withdraw_records d' = db_withdraw_records d \<Longrightarrow>
   db_next_withdraw_record_id d' = db_next_withdraw_record_id d \<Longrightarrow> records_unique d' = records_unique d"
  by (simp add: records_unique_def)

lemma conflicts_sym: "conflicts r q \<longleftrightarrow> conflicts q r"
  unfolding conflicts_def by metis

lemma records_unique_insert:
  assumes "records_unique d" and "\<forall>q \<in> set (db_withdraw_records d). \<not> conflicts r q"
    and "wr_ID r = db_next_withdraw_record_id d"
  shows "records_unique (d\<lparr>db_withdraw_records := db_withdraw_records d @ [r],
    db_next_withdraw_record_id := Suc (db_next_withdraw_record_id d)\<rparr>)"
  using assms conflicts_sym by (fastforce simp: records_unique_def less_Suc_eq)

text \<open>An update of one row that keeps its identity and conflicts with no other row.\<close>

lemma records_unique_update:
  assumes d: "records_unique d" and id: "\<And>r. wr_ID r = i \<Longrightarrow> wr_ID (u r) = i"
    and free: "\<And>r q. r \<in> set (db_withdraw_records d) \<Longrightarrow> wr_ID r = i \<Longrightarrow> q \<in> set (db_withdraw_records d) \<Longrightarrow>
      wr_ID q \<noteq> i \<Longrightarrow> \<not> conflicts (u r) q"
  shows "records_unique (update_records (\<lambda>r. wr_ID r = i) u d)"
proof -
  define v where "v = (\<lambda>r. if wr_ID r = i then u r else r)"
  have v: "wr_ID (v r) = wr_ID r" for r using id by (simp add: v_def)
  have "\<not> conflicts (v r) (v q)"
    if "r \<in> set (db_withdraw_records d)" "q \<in> set (db_withdraw_records d)" "wr_ID r \<noteq> wr_ID q" for r q
    using that d free [of r q] free [of q r] conflicts_sym by (auto simp: records_unique_def v_def)
  moreover have "wr_ID \<circ> v = wr_ID" using v by (simp add: fun_eq_iff)
  moreover have "update_records (\<lambda>r. wr_ID r = i) u d = d\<lparr>db_withdraw_records := map v (db_withdraw_records d)\<rparr>"
    by (simp add: update_records_def update_where_def v_def)
  ultimately show ?thesis
    using d v by (simp add: records_unique_def)
qed

lemma conflicts_same_keys:
  "wr_RemoteID r' = wr_RemoteID r \<Longrightarrow> wr_AuthorizationFingerprint r' = wr_AuthorizationFingerprint r \<Longrightarrow>
   conflicts r' q = conflicts r q"
  by (simp add: conflicts_def)

lemma records_unique_same_keys:
  assumes "records_unique d" and "\<And>r. wr_ID (u r) = wr_ID r" "\<And>r. wr_RemoteID (u r) = wr_RemoteID r"
    "\<And>r. wr_AuthorizationFingerprint (u r) = wr_AuthorizationFingerprint r"
  shows "records_unique (update_records (\<lambda>r. wr_ID r = i) u d)"
  using assms(1) by (intro records_unique_update) (auto simp: assms(2-4) conflicts_same_keys [of "u _"] records_unique_def)

lemma records_unique_refinger:
  assumes d: "records_unique d" and u: "\<And>r. wr_ID (u r) = wr_ID r" "\<And>r. wr_RemoteID (u r) = wr_RemoteID r"
      "\<And>r. wr_AuthorizationFingerprint (u r) = fp"
    and free: "fp \<noteq> None \<Longrightarrow> \<forall>q \<in> set (db_withdraw_records d). wr_ID q \<noteq> i \<longrightarrow> wr_AuthorizationFingerprint q \<noteq> fp"
  shows "records_unique (update_records (\<lambda>r. wr_ID r = i) u d)"
proof (rule records_unique_update [OF d])
  fix r q assume r: "r \<in> set (db_withdraw_records d)" "wr_ID r = i" and q: "q \<in> set (db_withdraw_records d)" "wr_ID q \<noteq> i"
  then have "\<not> conflicts r q" using d by (simp add: records_unique_def)
  with free q show "\<not> conflicts (u r) q" by (auto simp: conflicts_def u)
qed (simp add: u)

lemma run_step_records_unique:
  assumes "records_unique d"
  shows "records_unique (run_step s d)"
proof (cases s)
  case (OtherInsertRecord r)
  let ?r = "r\<lparr>wr_ID := db_next_withdraw_record_id d, wr_BlockchainTransactionID := None\<rparr>"
  have "conflicts ?r q = conflicts r q" for q by (simp add: conflicts_def)
  with assms OtherInsertRecord show ?thesis
    using records_unique_insert [of d ?r] by (simp add: insert_withdraw_record_def)
next
  case (OtherUpdateRecord i status tx fingerprint)
  let ?u = "\<lambda>r. r\<lparr>wr_Status := status, wr_BlockchainTransactionID := tx, wr_AuthorizationFingerprint := fingerprint\<rparr>"
  from OtherUpdateRecord assms records_unique_refinger [of d ?u fingerprint i] show ?thesis by auto
qed (use assms in \<open>simp_all add: records_unique_def fail_with_retry_def Let_def update_transactions_def
    insert_transaction_def credit_account_def split: option.split\<close>)

interpretation record_table: db_invariant records_unique
  by unfold_locales (rule run_step_records_unique)

section \<open>The statements\<close>

lemma update_record_unique:
  "records_unique d \<Longrightarrow> (\<And>r. wr_ID (u r) = wr_ID r) \<Longrightarrow> (\<And>r. wr_RemoteID (u r) = wr_RemoteID r) \<Longrightarrow>
   (\<And>r. wr_AuthorizationFingerprint (u r) = wr_AuthorizationFingerprint r) \<Longrightarrow>
   records_unique (snd (update_record i u d))"
  by (simp add: update_record_def records_unique_same_keys)

lemma update_fingerprint_unique: "records_unique d \<Longrightarrow> records_unique (snd (update_fingerprint i fp d))"
  using records_unique_refinger [of d "\<lambda>r. r\<lparr>wr_AuthorizationFingerprint := Some fp\<rparr>" "Some fp" i]
  by (auto simp: update_fingerprint_def update_record_def update_records_def update_where_def cong: map_cong)

lemma save_record_unique: "records_unique d \<Longrightarrow> records_unique (snd (save_record r d))"
  unfolding save_record_def update_record_def
  by (auto intro!: records_unique_update)

lemma insert_records_unique: "records_unique d \<Longrightarrow> records_unique (insert_records now rs d)"
proof (induction now rs d rule: insert_records.induct)
  case (2 now r rs d)
  let ?r = "r\<lparr>wr_ID := db_next_withdraw_record_id d, wr_CreatedAt := now\<rparr>"
  have "conflicts ?r q = conflicts r q" for q by (simp add: conflicts_def)
  with 2 show ?case using records_unique_insert [of d ?r] by simp
qed simp

section \<open>What the steps of a payout keep\<close>

locale env_invariant =
  fixes E :: env and I :: "db \<Rightarrow> bool"
  assumes others: "s \<in> set (env_others E t) \<Longrightarrow> I d \<Longrightarrow> I (run_step s d)"
begin

lemma run_steps_keeps: "I d \<Longrightarrow> I (run_steps (env_others E t) d)"
proof -
  have "I d \<Longrightarrow> I (run_steps ss d)" if "set ss \<subseteq> set (env_others E t)" for ss
    using that unfolding run_steps_def by (induction ss arbitrary: d) (auto simp: others)
  then show "I d \<Longrightarrow> ?thesis" by simp
qed

lemma keeps_action:
  assumes "\<And>d. I d \<Longrightarrow> I (snd (f d))"
  shows "keeps (\<lambda>w. I (w_db w)) (db_action E f)"
proof -
  have "I (seen_db E w)" if "I (w_db w)" for w using that run_steps_keeps by (simp add: seen_db_def)
  with assms show ?thesis
    by (auto simp: keeps_def db_action_def Let_def split: option.splits prod.splits) (metis snd_conv)
qed

lemma keeps_query: "keeps (\<lambda>w. I (w_db w)) (db_query E f)"
  by (simp add: db_query_def keeps_action)

end

sublocale db_invariant \<subseteq> scheduled: env_invariant E I for E
  by unfold_locales (rule step)

text \<open>A property of the records alone.\<close>

definition of_records :: "(db \<Rightarrow> bool) \<Rightarrow> bool" where
  "of_records I \<longleftrightarrow> (\<forall>d d'. db_withdraw_records d' = db_withdraw_records d \<longrightarrow>
     db_next_withdraw_record_id d' = db_next_withdraw_record_id d \<longrightarrow> I d \<longrightarrow> I d')"

text \<open>The records have changed by the other goroutines and by storing the fingerprint \<open>f\<close> in row \<open>i\<close>.\<close>

definition refingered :: "env \<Rightarrow> nat \<Rightarrow> string \<Rightarrow> db \<Rightarrow> db \<Rightarrow> bool" where
  "refingered E i f d d' \<longleftrightarrow> (\<forall>I. env_invariant E I \<longrightarrow> of_records I \<longrightarrow>
     (\<forall>d. I d \<longrightarrow> I (snd (update_fingerprint i f d))) \<longrightarrow> I d \<longrightarrow> I d')"

text \<open>
  A payout that is created ends with \<open>Save\<close> of a record that carries the fingerprint of its
  authorization; before that the records have changed by the other goroutines and by storing that
  fingerprint.
\<close>

lemma fingerprint_stored:
  assumes "ensureWithdrawalAuthorizationFingerprint E w = (Inr u, w')"
  obtains f where "withdrawalRecordAuthorization (env_lib E) (w_record w) = Inr f"
    "w_record w' = (w_record w)\<lparr>wr_AuthorizationFingerprint := Some f\<rparr>"
    "refingered E (wr_ID (w_record w)) f (w_db w) (w_db w')"
proof -
  obtain f where f: "withdrawalRecordAuthorization (env_lib E) (w_record w) = Inr f"
    using assms by (auto simp: ensureWithdrawalAuthorizationFingerprint_def and_then_ok lift_sum_def)
  show ?thesis
  proof (cases "wr_AuthorizationFingerprint (w_record w)")
    case (Some stored)
    with assms f have "stored = f" "w' = w"
      by (auto simp: ensureWithdrawalAuthorizationFingerprint_def and_then_ok lift_sum_def return_ok_def
          return_err_def split: if_splits)
    with Some show ?thesis by (intro that [OF f]) (simp_all add: refingered_def)
  next
    case None
    obtain n v where v: "db_query E (\<lambda>d. Inr (length (filter (\<lambda>r. wr_AuthorizationFingerprint r = Some f \<and>
        wr_ID r \<noteq> wr_ID (w_record w)) (db_withdraw_records d)))) w = (Inr n, v)"
      and stored: "db_action E (update_fingerprint (wr_ID (w_record w)) f)
        (v\<lparr>w_record := (w_record v)\<lparr>wr_AuthorizationFingerprint := Some f\<rparr>\<rparr>) = (Inr u, w')"
      using assms f None by (auto simp: ensureWithdrawalAuthorizationFingerprint_def and_then_ok lift_sum_def
          return_err_def set_record_def writes_def split: if_splits)
    have "w_record v = w_record w"
      using v by (auto simp: db_query_def db_action_def Let_def split: option.splits)
    then have memory: "w_record w' = (w_record w)\<lparr>wr_AuthorizationFingerprint := Some f\<rparr>"
      using stored by (auto simp: db_action_def Let_def split: option.splits prod.splits)
    have keep: "refingered E (wr_ID (w_record w)) f (w_db w) (w_db w')"
      unfolding refingered_def
    proof (intro allI impI)
      fix I assume E: "env_invariant E I" and w: "I (w_db w)"
        and u: "\<forall>d. I d \<longrightarrow> I (snd (update_fingerprint (wr_ID (w_record w)) f d))"
      have "I (w_db v)" using keepsD [OF env_invariant.keeps_query [OF E] w v] .
      moreover have ku: "keeps (\<lambda>w. I (w_db w)) (db_action E (update_fingerprint (wr_ID (w_record w)) f))"
        using u by (intro env_invariant.keeps_action [OF E]) blast
      ultimately show "I (w_db w')" using keepsD [OF ku _ stored] by simp
    qed
    show ?thesis by (rule that [OF f memory keep])
  qed
qed

lemma payout_saved:
  assumes "start_payout E t w = (Inr (Go_on tx), w')"
  obtains f d rcd where "withdrawalRecordAuthorization (env_lib E) (w_record w) = Inr f"
    "wr_AuthorizationFingerprint rcd = Some f" "wr_ID rcd = wr_ID (w_record w)" "w_record w' = rcd"
    "save_record rcd d = (Inr (), w_db w')"
    "refingered E (wr_ID (w_record w)) f (w_db w) d"
proof -
  obtain u w1 account w2 payout where
    fp: "ensureWithdrawalAuthorizationFingerprint E w = (Inr u, w1)"
    and account: "db_query E (find_account (wr_Address (w_record w1))) w1 = (Inr account, w2)"
    and attach: "attach_payout E payout w2 = (Inr tx, w')"
    using assms
    by (auto simp: start_payout_def and_then_ok try_result_ok fail_record_def return_ok_def lift_sum_def
        split: if_splits)
  obtain f where f: "withdrawalRecordAuthorization (env_lib E) (w_record w) = Inr f"
    and rec1: "w_record w1 = (w_record w)\<lparr>wr_AuthorizationFingerprint := Some f\<rparr>"
    and keep1: "refingered E (wr_ID (w_record w)) f (w_db w) (w_db w1)"
    using fingerprint_stored [OF fp] by metis
  have rec2: "w_record w2 = w_record w1"
    using account by (auto simp: db_query_def db_action_def Let_def split: option.splits)
  let ?start = "\<lambda>_. Inr () :: go_error + unit"
  obtain z where body: "attach_body E payout ((snd (db_query E ?start w2))\<lparr>w_in_tx := True\<rparr>) = (Inr tx, z)"
    and w': "w' = z\<lparr>w_in_tx := False, w_tick := Suc (w_tick z)\<rparr>"
    using attach unfolding attach_payout_eq by (rule db_transaction_commits) blast
  let ?v = "(snd (db_query E ?start w2))\<lparr>w_in_tx := True\<rparr>"
  have rec3: "w_record ?v = w_record w1"
    using rec2 by (auto simp: db_query_def db_action_def Let_def split: option.splits)
  obtain x where x: "Save E payout ?v = (Inr tx, x)"
    and save: "db_action E (save_record ((w_record x)\<lparr>wr_BlockchainTransactionID := Some (tx_ID tx)\<rparr>))
      (x\<lparr>w_record := (w_record x)\<lparr>wr_BlockchainTransactionID := Some (tx_ID tx)\<rparr>\<rparr>) = (Inr (), z)"
    using body by (auto simp: attach_body_def and_then_ok return_ok_def set_record_def writes_def)
  have rec4: "w_record x = w_record w1"
    using x rec3 by (auto simp: Save_def db_action_def Let_def split: option.splits prod.splits)
  let ?r = "(w_record w1)\<lparr>wr_BlockchainTransactionID := Some (tx_ID tx)\<rparr>"
  let ?d = "seen_db E (x\<lparr>w_record := ?r\<rparr>)"
  have saved: "save_record ?r ?d = (Inr (), w_db z)" "w_record z = ?r"
    using save rec4 by (auto simp: db_action_def Let_def split: option.splits prod.splits)
  have keep: "refingered E (wr_ID (w_record w)) f (w_db w) ?d"
    unfolding refingered_def
  proof (intro allI impI)
    fix I assume I: "env_invariant E I" "of_records I" and w: "I (w_db w)"
      and u: "\<forall>d. I d \<longrightarrow> I (snd (update_fingerprint (wr_ID (w_record w)) f d))"
    have "I (w_db w1)" using keep1 I u w unfolding refingered_def by blast
    then have "I (w_db w2)" using keepsD [OF env_invariant.keeps_query [OF I(1)] _ account] by simp
    then have "I (w_db ?v)"
      using keepsD [OF env_invariant.keeps_query [OF I(1)] _ prod.collapse [symmetric], of w2 ?start] by simp
    moreover have ks: "keeps (\<lambda>w. I (w_db w)) (Save E payout)"
      unfolding Save_def using I(2) by (intro env_invariant.keeps_action [OF I(1)]) (auto simp: of_records_def
          insert_transaction_def update_transactions_def)
    ultimately have "I (w_db x)" using keepsD [OF ks _ x] by blast
    then show "I ?d" using env_invariant.run_steps_keeps [OF I(1)] by (simp add: seen_db_def)
  qed
  have r: "wr_AuthorizationFingerprint ?r = Some f" "wr_ID ?r = wr_ID (w_record w)" "w_record w' = ?r"
    "save_record ?r ?d = (Inr (), w_db w')"
    using saved w' rec1 by simp_all
  show ?thesis by (rule that [OF f r keep])
qed

section \<open>One payout per authorization\<close>

text \<open>The row \<open>i\<close> is the only one with the fingerprint \<open>f\<close>.\<close>

definition bound :: "nat \<Rightarrow> string \<Rightarrow> db \<Rightarrow> bool" where
  "bound i f d \<longleftrightarrow> records_unique d \<and>
     (\<exists>r \<in> set (db_withdraw_records d). wr_ID r = i \<and> wr_AuthorizationFingerprint r = Some f)"

lemma bound_one: "bound i f d \<Longrightarrow> bound j f d \<Longrightarrow> i = j"
  by (fastforce simp: bound_def records_unique_def conflicts_def)

text \<open>Taking the fingerprint away from the row.\<close>

fun forgets :: "nat \<Rightarrow> string \<Rightarrow> other_step \<Rightarrow> bool" where
  "forgets i f (OtherUpdateRecord j status tx fingerprint) \<longleftrightarrow> j = i \<and> fingerprint \<noteq> Some f"
| "forgets i f _ \<longleftrightarrow> False"

lemma bound_step:
  assumes b: "bound i f d" and s: "\<not> forgets i f s"
  shows "bound i f (run_step s d)"
proof -
  obtain r where r: "r \<in> set (db_withdraw_records d)" "wr_ID r = i" "wr_AuthorizationFingerprint r = Some f"
    using b by (auto simp: bound_def)
  have "\<exists>r \<in> set (db_withdraw_records (run_step s d)). wr_ID r = i \<and> wr_AuthorizationFingerprint r = Some f"
  proof (cases s)
    case (OtherUpdateRecord j status tx fingerprint)
    let ?u = "\<lambda>r. r\<lparr>wr_Status := status, wr_BlockchainTransactionID := tx, wr_AuthorizationFingerprint := fingerprint\<rparr>"
    have "(if wr_ID r = j then ?u r else r) \<in> set (update_where (\<lambda>r. wr_ID r = j) ?u (db_withdraw_records d))"
      using r(1) unfolding set_update_where by (rule imageI)
    moreover have "wr_ID (if wr_ID r = j then ?u r else r) = i"
      "wr_AuthorizationFingerprint (if wr_ID r = j then ?u r else r) = Some f"
      using r OtherUpdateRecord s by auto
    ultimately show ?thesis using r OtherUpdateRecord by (auto simp: update_records_def)
  qed (use r in \<open>auto simp: fail_with_retry_def Let_def update_transactions_def insert_transaction_def
      credit_account_def insert_withdraw_record_def split: option.split\<close>)
  then show ?thesis using run_step_records_unique b by (simp add: bound_def)
qed

lemma bound_run_steps: "bound i f d \<Longrightarrow> \<forall>s \<in> set ss. \<not> forgets i f s \<Longrightarrow> bound i f (run_steps ss d)"
  unfolding run_steps_def by (induction ss arbitrary: d) (simp_all add: bound_step)

lemma of_records_bound: "of_records (bound i f)"
  by (simp add: of_records_def bound_def records_unique_def)

lemma bound_refinger:
  assumes b: "bound i f d" and "j \<noteq> i"
  shows "bound i f (snd (update_fingerprint j g d))"
proof -
  have "\<exists>r \<in> set (db_withdraw_records (snd (update_fingerprint j g d))). wr_ID r = i \<and> wr_AuthorizationFingerprint r = Some f"
    using assms by (fastforce simp: bound_def update_fingerprint_def update_record_def update_records_def set_update_where)
  then show ?thesis using update_fingerprint_unique b by (simp add: bound_def)
qed

text \<open>The record itself is there.\<close>

definition stored :: "nat \<Rightarrow> db \<Rightarrow> bool" where
  "stored i d \<longleftrightarrow> records_unique d \<and> i \<in> wr_ID ` set (db_withdraw_records d)"

lemma record_ids_update [simp]:
  "(\<And>r. wr_ID (u r) = wr_ID r) \<Longrightarrow> wr_ID ` set (update_where g u rows) = wr_ID ` set rows"
  unfolding set_map [symmetric] by (subst map_update_where) simp_all

lemma run_step_record_ids: "wr_ID ` set (db_withdraw_records d) \<subseteq> wr_ID ` set (db_withdraw_records (run_step s d))"
proof (cases s)
  case (OtherUpdateRecord j status tx fingerprint)
  then show ?thesis by (simp add: update_records_def)
qed (auto simp: fail_with_retry_def Let_def update_transactions_def insert_transaction_def image_iff
      credit_account_def insert_withdraw_record_def split: option.splits)

lemma stored_step: "stored i d \<Longrightarrow> stored i (run_step s d)"
  using run_step_record_ids [of d s] run_step_records_unique unfolding stored_def by blast

interpretation stored_record: db_invariant "stored i" for i
  by unfold_locales (rule stored_step)

lemma of_records_stored: "of_records (stored i)"
  by (simp add: of_records_def stored_def records_unique_def)

lemma stored_refinger: "stored i d \<Longrightarrow> stored i (snd (update_fingerprint j g d))"
  using update_fingerprint_unique [of d j g]
  by (auto simp: stored_def update_fingerprint_def update_record_def update_records_def)

text \<open>A payout that is created binds the fingerprint of its authorization to its record.\<close>

lemma payout_bound:
  assumes run: "start_payout E t w = (Inr (Go_on tx), w')" and w: "stored (wr_ID (w_record w)) (w_db w)"
  obtains f where "withdrawalRecordAuthorization (env_lib E) (w_record w) = Inr f"
    "wr_AuthorizationFingerprint (w_record w') = Some f" "bound (wr_ID (w_record w)) f (w_db w')"
    "\<And>i g. bound i g (w_db w) \<Longrightarrow> i \<noteq> wr_ID (w_record w) \<Longrightarrow>
       \<forall>t. \<forall>s \<in> set (env_others E t). \<not> forgets i g s \<Longrightarrow> bound i g (w_db w')"
proof -
  let ?i = "wr_ID (w_record w)"
  obtain f d rcd where f: "withdrawalRecordAuthorization (env_lib E) (w_record w) = Inr f"
    and rcd: "wr_AuthorizationFingerprint rcd = Some f" "wr_ID rcd = ?i" "w_record w' = rcd"
    and save: "save_record rcd d = (Inr (), w_db w')" and d: "refingered E ?i f (w_db w) d"
    by (rule payout_saved [OF run])
  have "stored ?i d"
    using d w stored_record.scheduled.env_invariant_axioms of_records_stored stored_refinger
    unfolding refingered_def by blast
  then have u: "records_unique (w_db w')" and row: "?i \<in> wr_ID ` set (db_withdraw_records d)"
    using save_record_unique [of d rcd] save by (simp_all add: stored_def)
  have after: "w_db w' = update_records (\<lambda>r. wr_ID r = ?i) (\<lambda>_. rcd) d"
    using save rcd(2) by (auto simp: save_record_def update_record_def split: if_splits)
  obtain x where x: "x \<in> set (db_withdraw_records d)" "wr_ID x = ?i" using row by auto
  have "rcd \<in> (\<lambda>r. if wr_ID r = ?i then rcd else r) ` set (db_withdraw_records d)"
    using x by (intro image_eqI [of _ _ x]) simp_all
  then have "rcd \<in> set (db_withdraw_records (w_db w'))"
    by (simp add: after update_records_def update_where_def)
  then have here: "bound ?i f (w_db w')" using u rcd unfolding bound_def by blast
  have there: "bound i g (w_db w')" if b: "bound i g (w_db w)" "i \<noteq> ?i"
    and s: "\<forall>t. \<forall>s \<in> set (env_others E t). \<not> forgets i g s" for i g
  proof -
    have inv: "env_invariant E (bound i g)" by unfold_locales (use s bound_step in blast)
    have "bound i g d"
      by (rule d [unfolded refingered_def, rule_format, OF inv of_records_bound])
        (use b bound_refinger in auto)
    then obtain r where r: "r \<in> set (db_withdraw_records d)" "wr_ID r = i" "wr_AuthorizationFingerprint r = Some g"
      by (auto simp: bound_def)
    then have "r \<in> (\<lambda>r. if wr_ID r = ?i then rcd else r) ` set (db_withdraw_records d)"
      using b(2) by (intro image_eqI [of _ _ r]) simp_all
    then have "r \<in> set (db_withdraw_records (w_db w'))"
      by (simp add: after update_records_def update_where_def)
    with u r show ?thesis unfolding bound_def by blast
  qed
  have mem: "wr_AuthorizationFingerprint (w_record w') = Some f" using rcd by simp
  show ?thesis by (rule that [OF f mem here there])
qed

text \<open>
  C32: one authorization pays at most once. When the processor has created a payout for one record, it
  never creates one for another record under the same authorization, however the other goroutines
  change the tables before, meanwhile and afterwards, as long as they leave the fingerprint of the
  first record in place.
\<close>
theorem authorization_pays_once:
  assumes first: "start_payout E t w = (Inr (Go_on tx), w')"
    and ok: "records_unique (w_db w)" and row: "wr_ID (w_record w) \<in> wr_ID ` set (db_withdraw_records (w_db w))"
    and later: "w_db v = run_steps ss (w_db w')" and second: "start_payout F t' v = (Inr (Go_on tx'), v')"
    and other: "wr_ID (w_record v) \<noteq> wr_ID (w_record w)"
      "wr_ID (w_record v) \<in> wr_ID ` set (db_withdraw_records (w_db v))"
    and kept: "\<forall>s \<in> set ss \<union> (\<Union>t. set (env_others F t)).
      \<not> forgets (wr_ID (w_record w)) (the (wr_AuthorizationFingerprint (w_record w'))) s"
  shows "withdrawalRecordAuthorization (env_lib F) (w_record v) \<noteq> withdrawalRecordAuthorization (env_lib E) (w_record w)"
proof
  assume same: "withdrawalRecordAuthorization (env_lib F) (w_record v) = withdrawalRecordAuthorization (env_lib E) (w_record w)"
  let ?i = "wr_ID (w_record w)"
  have st: "stored ?i (w_db w)" using ok row by (simp add: stored_def)
  obtain f where f: "withdrawalRecordAuthorization (env_lib E) (w_record w) = Inr f"
    and mem: "wr_AuthorizationFingerprint (w_record w') = Some f" and b: "bound ?i f (w_db w')"
    using payout_bound [OF first st] by metis
  have bv: "bound ?i f (w_db v)"
    using bound_run_steps [OF b] kept mem later by simp
  then have "stored (wr_ID (w_record v)) (w_db v)" using other(2) by (simp add: bound_def stored_def)
  from payout_bound [OF second this] obtain g where g: "withdrawalRecordAuthorization (env_lib F) (w_record v) = Inr g"
    and bg: "bound (wr_ID (w_record v)) g (w_db v')"
    and keep: "\<And>i g. bound i g (w_db v) \<Longrightarrow> i \<noteq> wr_ID (w_record v) \<Longrightarrow>
      \<forall>t. \<forall>s \<in> set (env_others F t). \<not> forgets i g s \<Longrightarrow> bound i g (w_db v')" by metis
  have "bound ?i f (w_db v')" using keep [OF bv] kept mem other(1) by auto
  moreover have "g = f" using same f g by simp
  ultimately show False using bound_one bg other(1) by blast
qed

text \<open>A run without disturbance: the payout is created and the record saved with it.\<close>

lemma payout_succeeds:
  fixes E :: env and w :: world
  defines "d \<equiv> w_db w" and "q \<equiv> w_record w"
  assumes E: "alone E" "\<And>t. env_db_fault E t = None" "\<And>t. env_commit_fault E t = None"
    and f: "withdrawalRecordAuthorization (env_lib E) q = Inr f" "wr_AuthorizationFingerprint q = None"
    and free: "\<forall>r \<in> set (db_withdraw_records d). wr_ID r \<noteq> wr_ID q \<longrightarrow> wr_RemoteID r \<noteq> wr_RemoteID q \<and>
      wr_AuthorizationFingerprint r \<noteq> Some f"
    and account: "find (\<lambda>r. ra_Address r = wr_Address q) (db_relay_accounts d) = Some account"
      "wr_Amount q + wr_WithdrawalFee q \<le> ra_Balance account"
    and p: "new_payout E (q\<lparr>wr_AuthorizationFingerprint := Some f\<rparr>) = Inr p" "tx_ID p = 0"
  shows "\<exists>tx w'. start_payout E t w = (Inr (Go_on tx), w') \<and> db_relay_accounts (w_db w') = db_relay_accounts d \<and>
    db_withdraw_records (w_db w') = update_where (\<lambda>r. wr_ID r = wr_ID q)
      (\<lambda>_. q\<lparr>wr_AuthorizationFingerprint := Some f, wr_BlockchainTransactionID := Some (db_next_transaction_id d)\<rparr>)
      (db_withdraw_records d)"
proof -
  let ?q = "q\<lparr>wr_AuthorizationFingerprint := Some f\<rparr>"
  let ?d1 = "update_records (\<lambda>r. wr_ID r = wr_ID q) (\<lambda>r. r\<lparr>wr_AuthorizationFingerprint := Some f\<rparr>) d"
  have count: "filter (\<lambda>r. wr_AuthorizationFingerprint r = Some f \<and> wr_ID r \<noteq> wr_ID q) (db_withdraw_records d) = []"
    using free by (auto simp: filter_empty_conv)
  have stored: "update_fingerprint (wr_ID q) f d = (Inr (), ?d1)"
    using free by (auto simp: update_fingerprint_def update_record_def)
  let ?w1 = "w\<lparr>w_tick := w_tick w + 2, w_record := ?q, w_db := ?d1\<rparr>"
  have w1: "ensureWithdrawalAuthorizationFingerprint E w = (Inr (), ?w1)"
    using E f count stored unfolding d_def q_def
    by (simp add: ensureWithdrawalAuthorizationFingerprint_def and_then_def lift_sum_def db_query_def db_action_def
        return_err_def set_record_def writes_def cong: if_cong)
  have acc: "db_query E (find_account (wr_Address q)) ?w1 = (Inr account, ?w1\<lparr>w_tick := w_tick w + 3\<rparr>)"
    using E account(1) by (simp add: db_query_def db_action_def find_account_def update_records_def)
  let ?tx = "p\<lparr>tx_ID := db_next_transaction_id d\<rparr>" and ?r = "?q\<lparr>wr_BlockchainTransactionID := Some (db_next_transaction_id d)\<rparr>"
  let ?d2 = "insert_transaction p ?d1"
  have "\<not> (\<exists>x \<in> set (db_withdraw_records ?d2). wr_ID x \<noteq> wr_ID ?r \<and> conflicts ?r x)"
    using free by (auto simp: update_records_def set_update_where conflicts_def)
  then have saved: "save_record ?r ?d2 = (Inr (), update_records (\<lambda>r. wr_ID r = wr_ID q) (\<lambda>_. ?r) ?d2)"
    by (simp add: save_record_def update_record_def)
  obtain w' where w': "attach_payout E p (?w1\<lparr>w_tick := w_tick w + 3\<rparr>) = (Inr ?tx, w')"
    "w_db w' = update_records (\<lambda>r. wr_ID r = wr_ID q) (\<lambda>_. ?r) ?d2"
    using E p(2) saved
    by (simp add: attach_payout_eq db_transaction_def attach_body_def and_then_def db_query_def db_action_def
        Save_def set_record_def writes_def return_ok_def commit_or_rollback_def update_records_def)
  have "start_payout E t w = (Inr (Go_on ?tx), w')"
    using w1 acc account(2) p(1) w'(1)
    by (simp add: start_payout_def and_then_def try_result_def lift_sum_def return_ok_def withdrawalTotalAmount_def
        cong: if_cong)
  moreover have "db_withdraw_records (w_db w') = update_where (\<lambda>r. wr_ID r = wr_ID q) (\<lambda>_. ?r) (db_withdraw_records d)"
    by (simp add: w'(2) update_records_def update_where_def)
  ultimately show ?thesis by (simp add: w'(2) update_records_def)
qed

text \<open>Two withdrawals of one account, signed at different times.\<close>

definition second_record :: withdraw_record where
  "second_record = signed_record\<lparr>wr_ID := 2, wr_RemoteID := 5, wr_Timestamp := Some 6\<rparr>"

definition two_records_world :: world where
  "two_records_world = withdraw_world\<lparr>w_db := withdraw_db\<lparr>db_withdraw_records := [signed_record, second_record],
     db_next_withdraw_record_id := 3\<rparr>\<rparr>"

lemma sample_authorized:
  "withdrawalRecordAuthorization sample_lib signed_record = Inr (CHR ''f'' # record_message signed_record)"
  "withdrawalRecordAuthorization sample_lib second_record = Inr (CHR ''f'' # record_message second_record)"
  "record_message second_record \<noteq> record_message signed_record"
  by code_simp+

lemma two_records:
  "wr_ID signed_record = 1" "wr_ID second_record = 2" "wr_RemoteID signed_record = 4" "wr_RemoteID second_record = 5"
  "wr_Address second_record = ''0x0''" "wr_Address signed_record = ''0x0''" "wr_Amount second_record = 7"
  "wr_Amount signed_record = 7" "wr_WithdrawalFee second_record = 1" "wr_WithdrawalFee signed_record = 1"
  "wr_AuthorizationFingerprint signed_record = None" "wr_AuthorizationFingerprint second_record = None"
  by (simp_all add: second_record_def signed_record_def sample_record_def)

lemma sample_payout:
  "\<exists>p. new_payout sample_env (signed_record\<lparr>wr_AuthorizationFingerprint := Some f\<rparr>) = Inr p \<and> tx_ID p = 0"
  "\<exists>p. new_payout sample_env (second_record\<lparr>wr_AuthorizationFingerprint := Some f\<rparr>) = Inr p \<and> tx_ID p = 0"
  by (simp_all add: new_payout_def NewSendETHTransaction_def blockchain_of_def sample_cfg_def sample_blockchain_def
      second_record_def signed_record_def sample_record_def)

theorem authorization_pays_once_witness:
  "withdrawalRecordAuthorization sample_lib second_record \<noteq> withdrawalRecordAuthorization sample_lib signed_record"
proof -
  have alone: "alone sample_env" by (simp add: alone_def)
  have mem: "w_record two_records_world = signed_record"
    "db_withdraw_records (w_db two_records_world) = [signed_record, second_record]"
    "db_relay_accounts (w_db two_records_world) = [\<lparr>ra_ID = 1, ra_Address = ''0x0'', ra_Balance = 100\<rparr>,
       \<lparr>ra_ID = 2, ra_Address = ''0xA'', ra_Balance = 50\<rparr>]"
    by (simp_all add: two_records_world_def withdraw_db_def)
  obtain p where "new_payout sample_env (signed_record\<lparr>wr_AuthorizationFingerprint :=
      Some (CHR ''f'' # record_message signed_record)\<rparr>) = Inr p" "tx_ID p = 0" using sample_payout(1) by blast
  with payout_succeeds [of sample_env two_records_world "CHR ''f'' # record_message signed_record" _ p None]
    alone sample_authorized(1)
  obtain tx w' where first: "start_payout sample_env None two_records_world = (Inr (Go_on tx), w')"
    and rows: "map wr_ID (db_withdraw_records (w_db w')) = [1, 2]"
      "\<forall>r \<in> set (db_withdraw_records (w_db w')). wr_ID r \<noteq> 2 \<longrightarrow> wr_RemoteID r = 4 \<and>
         wr_AuthorizationFingerprint r = Some (CHR ''f'' # record_message signed_record)"
    and accounts: "db_relay_accounts (w_db w') = db_relay_accounts (w_db two_records_world)"
    by (auto simp: mem two_records update_where_def)
  let ?v = "w'\<lparr>w_record := second_record\<rparr>"
  obtain p2 where "new_payout sample_env (second_record\<lparr>wr_AuthorizationFingerprint :=
      Some (CHR ''f'' # record_message second_record)\<rparr>) = Inr p2" "tx_ID p2 = 0" using sample_payout(2) by blast
  with payout_succeeds [of sample_env ?v "CHR ''f'' # record_message second_record" _ p2 None]
    alone sample_authorized(2,3) rows(2)
  obtain tx' v' where second: "start_payout sample_env None ?v = (Inr (Go_on tx'), v')"
    by (auto simp: mem two_records accounts)
  have unique: "records_unique (w_db two_records_world)"
    by (simp add: two_records_world_def records_unique_def conflicts_def two_records)
  have row: "wr_ID (w_record two_records_world) \<in> wr_ID ` set (db_withdraw_records (w_db two_records_world))"
    by (simp add: mem)
  have "set (map wr_ID (db_withdraw_records (w_db w'))) = {1, 2}" by (simp add: rows(1))
  then have row': "wr_ID (w_record ?v) \<in> wr_ID ` set (db_withdraw_records (w_db ?v))"
    by (simp add: two_records)
  have "w_db ?v = run_steps [] (w_db w')" by simp
  from authorization_pays_once [OF first unique row this second _ row'] show ?thesis
    by (simp add: mem two_records)
qed

end
