(* ===== verification/Tx_Workers.thy ===== *)
theory Tx_Workers
  imports Sample_World
begin

text \<open>
  The goroutines around the handlers of \<open>blockchain/transaction_sender.go\<close> and
  \<open>blockchain/transaction_confirmer.go\<close>: polling the table page by page, the map of transactions in
  process, the bounded queue and the limiter. The rounds are functions; their interleaving is the step
  relation \<open>pool_step\<close>.
\<close>

section \<open>One poll\<close>

definition batchSize :: nat where
  "batchSize = 50"

definition queue_capacity :: nat where
  "queue_capacity = 100"

definition confirmer_limit :: nat where
  "confirmer_limit = 10"

text \<open>
  One tick of \<open>getPendingTransactions\<close>: transactions to recover come before new ones. \<open>fuel\<close> bounds the
  pages of one collection.
\<close>

definition sender_poll ::
  "env \<Rightarrow> (nat \<Rightarrow> bool) \<Rightarrow> nat \<Rightarrow> sender_state \<Rightarrow> world \<Rightarrow> sender_state \<times> world" where
  "sender_poll E stop fuel S w =
     (case collectTransactions (GetBroadcastingTransactions E) batchSize fuel 0 w of
        (Inl e, w) \<Rightarrow> (S, w)
      | (Inr broadcasting, w) \<Rightarrow>
          (let S = snd (enqueueTransactions stop 0 broadcasting S) in
           case collectTransactions (GetPendingTransactions E) batchSize fuel 0 w of
             (Inl e, w) \<Rightarrow> (S, w)
           | (Inr pending, w) \<Rightarrow> (snd (enqueueTransactions stop 0 pending S), w)))"

text \<open>
  The loop of \<open>getSentTransactions\<close>. When the context ends while it waits for room, it returns, and the
  transaction stays marked.
\<close>

fun enqueueSent :: "(nat \<Rightarrow> bool) \<Rightarrow> btx list \<Rightarrow> sender_state \<Rightarrow> bool \<times> sender_state" where
  "enqueueSent stop [] S = (True, S)"
| "enqueueSent stop (transaction # rest) S =
     (if tx_ID transaction \<in> set (ss_processingTxs S) then enqueueSent stop rest S
      else
        (let S = S\<lparr>ss_processingTxs := tx_ID transaction # ss_processingTxs S\<rparr> in
         if stop (tx_ID transaction) then (False, S)
         else enqueueSent stop rest (S\<lparr>ss_txQueue := ss_txQueue S @ [transaction]\<rparr>)))"

text \<open>One tick: whether the goroutine goes on.\<close>

definition confirmer_poll ::
  "env \<Rightarrow> (nat \<Rightarrow> bool) \<Rightarrow> nat \<Rightarrow> sender_state \<Rightarrow> world \<Rightarrow> (bool \<times> sender_state) \<times> world" where
  "confirmer_poll E stop fuel S w =
     (case collectTransactions (GetSentTransactions E) batchSize fuel 0 w of
        (Inl e, w) \<Rightarrow> ((True, S), w)
      | (Inr sent, w) \<Rightarrow> (enqueueSent stop sent S, w))"

text \<open>
  One goroutine of \<open>processSentTransactions\<close>: the head of the queue is confirmed and forgotten, whatever
  the error.
\<close>

definition confirm_next :: "env \<Rightarrow> sender_state \<Rightarrow> world \<Rightarrow> sender_state \<times> world" where
  "confirm_next E S w =
     (case ss_txQueue S of
        [] \<Rightarrow> (S, w)
      | transaction # rest \<Rightarrow>
          (S\<lparr>ss_txQueue := rest,
             ss_processingTxs := removeAll (tx_ID transaction) (ss_processingTxs S)\<rparr>,
           snd (confirmTransaction E transaction w)))"

section \<open>Paging collects every row\<close>

text \<open>
  Nobody else writes, the database answers: then the pages are the rows with the status, all of them and
  in order, and a page more than the rows is fuel enough.
\<close>

definition answers_pages :: "(nat \<Rightarrow> nat \<Rightarrow> (world, btx list) action) \<Rightarrow> btx list \<Rightarrow> (world \<Rightarrow> bool) \<Rightarrow> bool" where
  "answers_pages fetcher rows W \<longleftrightarrow>
     (\<forall>offset limit w. W w \<longrightarrow> (\<exists>w'. fetcher offset limit w = (Inr (take limit (drop offset rows)), w') \<and> W w'))"

lemma collect_pages:
  assumes "answers_pages fetcher rows W" and "0 < n" and "W w" and "length (drop offset rows) < fuel"
  shows "\<exists>w'. collectTransactions fetcher n fuel offset w = (Inr (drop offset rows), w') \<and> W w'"
  using assms(3,4)
proof (induction fuel arbitrary: offset w)
  case 0
  then show ?case by simp
next
  case (Suc fuel)
  let ?page = "take n (drop offset rows)"
  obtain w1 where page: "fetcher offset n w = (Inr ?page, w1)" "W w1"
    using assms(1) Suc.prems(1) unfolding answers_pages_def by meson
  show ?case
  proof (cases "?page = []")
    case True
    with page show ?thesis using assms(2) by (auto simp: and_then_def return_ok_def)
  next
    case False
    then have "length (drop (offset + length ?page) rows) < fuel"
      using Suc.prems(2) assms(2) by (auto simp: min_def)
    from Suc.IH [OF page(2) this] obtain w2 where
      "collectTransactions fetcher n fuel (offset + length ?page) w1 = (Inr (drop (offset + length ?page) rows), w2)" "W w2"
      by blast
    moreover have "?page @ drop (offset + length ?page) rows = drop offset rows"
      by (cases "n \<le> length (drop offset rows)")
        (simp_all add: add.commute [of offset] flip: drop_drop)
    ultimately show ?thesis using page False by (auto simp: and_then_def return_ok_def)
  qed
qed

lemma alone_pages:
  assumes "alone E" and "\<And>t. env_db_fault E t = None"
  shows "answers_pages (transactions_with_status E status)
     (filter (\<lambda>r. tx_Status r = status) (db_transactions d)) (\<lambda>w. w_db w = d)"
  using assms
  by (simp add: answers_pages_def transactions_with_status_def db_query_def db_action_def page_def Let_def)



section \<open>The goroutines of a worker\<close>

text \<open>
  The producer marks a transaction (\<open>pl_Offering\<close>) and then waits for room in the queue; the consumer
  receives one (\<open>pl_Received\<close>) and then waits for a slot of the limiter; the handlers run at the same
  time (\<open>pl_Running\<close>), each first takes the mark away and then gives its slot back (\<open>pl_Leaving\<close>). The
  sender has one slot: its consumer is its handler. Sending on a closed channel panics, also when the
  sender already waits.
\<close>

record pool =
  pl_Processing :: "nat set"
  pl_Offering :: "nat option"
  pl_Queue :: "nat list"
  pl_Received :: "nat option"
  pl_Running :: "nat list"
  pl_Leaving :: nat
  pl_Stopped :: bool
  pl_Closed :: bool
  pl_Panicked :: bool

definition new_pool :: pool where
  "new_pool = \<lparr>pl_Processing = {}, pl_Offering = None, pl_Queue = [], pl_Received = None,
     pl_Running = [], pl_Leaving = 0, pl_Stopped = False, pl_Closed = False, pl_Panicked = False\<rparr>"

text \<open>\<open>keep\<close>: whether giving up leaves the mark (the confirmer) or not (the sender).\<close>

inductive pool_step :: "bool \<Rightarrow> nat \<Rightarrow> nat \<Rightarrow> pool \<Rightarrow> pool \<Rightarrow> bool" for keep capacity limit where
  mark: "pl_Offering p = None \<Longrightarrow> i \<notin> pl_Processing p \<Longrightarrow> \<not> pl_Panicked p \<Longrightarrow>
    pool_step keep capacity limit p (p\<lparr>pl_Processing := insert i (pl_Processing p), pl_Offering := Some i\<rparr>)"
| push: "pl_Offering p = Some i \<Longrightarrow> length (pl_Queue p) < capacity \<Longrightarrow> \<not> pl_Closed p \<Longrightarrow> \<not> pl_Panicked p \<Longrightarrow>
    pool_step keep capacity limit p (p\<lparr>pl_Offering := None, pl_Queue := pl_Queue p @ [i]\<rparr>)"
| push_closed: "pl_Offering p = Some i \<Longrightarrow> pl_Closed p \<Longrightarrow>
    pool_step keep capacity limit p (p\<lparr>pl_Panicked := True\<rparr>)"
| give_up: "pl_Offering p = Some i \<Longrightarrow> pl_Stopped p \<Longrightarrow> \<not> pl_Panicked p \<Longrightarrow>
    pool_step keep capacity limit p (p\<lparr>pl_Offering := None,
      pl_Processing := (if keep then pl_Processing p else pl_Processing p - {i})\<rparr>)"
| receive: "pl_Queue p = i # q \<Longrightarrow> pl_Received p = None \<Longrightarrow> \<not> pl_Panicked p \<Longrightarrow>
    pool_step keep capacity limit p (p\<lparr>pl_Queue := q, pl_Received := Some i\<rparr>)"
| launch: "pl_Received p = Some i \<Longrightarrow> length (pl_Running p) + pl_Leaving p < limit \<Longrightarrow> \<not> pl_Panicked p \<Longrightarrow>
    pool_step keep capacity limit p (p\<lparr>pl_Received := None, pl_Running := i # pl_Running p\<rparr>)"
| handled: "i \<in> set (pl_Running p) \<Longrightarrow> \<not> pl_Panicked p \<Longrightarrow>
    pool_step keep capacity limit p (p\<lparr>pl_Running := remove1 i (pl_Running p),
      pl_Processing := pl_Processing p - {i}, pl_Leaving := Suc (pl_Leaving p)\<rparr>)"
| leave: "0 < pl_Leaving p \<Longrightarrow> \<not> pl_Panicked p \<Longrightarrow>
    pool_step keep capacity limit p (p\<lparr>pl_Leaving := pl_Leaving p - 1\<rparr>)"
| close: "\<not> pl_Closed p \<Longrightarrow> \<not> pl_Panicked p \<Longrightarrow>
    pool_step keep capacity limit p (p\<lparr>pl_Closed := True\<rparr>)"
| stop: "pl_Closed p \<Longrightarrow> \<not> pl_Panicked p \<Longrightarrow>
    pool_step keep capacity limit p (p\<lparr>pl_Stopped := True\<rparr>)"

text \<open>Every transaction on its way through the pool, once for every place.\<close>

definition in_flight :: "pool \<Rightarrow> nat list" where
  "in_flight p = (case pl_Offering p of None \<Rightarrow> [] | Some i \<Rightarrow> [i]) @ pl_Queue p @
     (case pl_Received p of None \<Rightarrow> [] | Some i \<Rightarrow> [i]) @ pl_Running p"

definition pool_ok :: "bool \<Rightarrow> nat \<Rightarrow> nat \<Rightarrow> pool \<Rightarrow> bool" where
  "pool_ok keep capacity limit p \<longleftrightarrow>
     distinct (in_flight p) \<and> set (in_flight p) \<subseteq> pl_Processing p \<and>
     (keep \<or> set (in_flight p) = pl_Processing p) \<and>
     length (pl_Queue p) \<le> capacity \<and> length (pl_Running p) + pl_Leaving p \<le> limit"

lemma pool_step_ok:
  "pool_step keep capacity limit p q \<Longrightarrow> pool_ok keep capacity limit p \<Longrightarrow> pool_ok keep capacity limit q"
proof (induction rule: pool_step.induct)
  case (handled i p)
  then obtain n where n: "length (pl_Running p) = Suc n" by (cases "pl_Running p") auto
  from handled show ?case
    by (auto simp: pool_ok_def in_flight_def length_remove1 n split: option.splits)
next
  case (leave p)
  then show ?case by (auto simp: pool_ok_def in_flight_def)
qed (auto simp: pool_ok_def in_flight_def split: option.splits if_splits)

text \<open>
  C37: each of the two workers handles a transaction at most once at a time: whatever the order in which
  its producer, its consumer and its handlers run, no transaction is in two places of the pool, every
  transaction in the pool is marked (and for the sender no other), the queue stays within its capacity
  and the handlers within the limiter.
\<close>
theorem handled_once:
  assumes "(pool_step keep capacity limit)\<^sup>*\<^sup>* new_pool p"
  shows "distinct (in_flight p) \<and> set (in_flight p) \<subseteq> pl_Processing p \<and>
    (\<not> keep \<longrightarrow> set (in_flight p) = pl_Processing p) \<and>
    length (pl_Queue p) \<le> capacity \<and> length (pl_Running p) \<le> limit"
proof -
  have "pool_ok keep capacity limit p"
    using assms
    by (induction rule: rtranclp_induct)
      (auto simp: pool_step_ok, simp add: pool_ok_def new_pool_def in_flight_def)
  then show ?thesis by (auto simp: pool_ok_def)
qed

text \<open>Without room to spare and with a stop, the wait for room can end in a panic.\<close>

lemma stop_can_panic:
  "\<exists>p. (pool_step keep capacity limit)\<^sup>*\<^sup>* new_pool p \<and> pl_Panicked p"
proof -
  let ?a = "new_pool\<lparr>pl_Processing := {1}, pl_Offering := Some 1\<rparr>"
  have "pool_step keep capacity limit new_pool ?a"
    using pool_step.mark [of new_pool 1] by (simp add: new_pool_def)
  moreover have "pool_step keep capacity limit ?a (?a\<lparr>pl_Closed := True\<rparr>)"
    by (rule pool_step.close) (simp_all add: new_pool_def)
  moreover have "pool_step keep capacity limit (?a\<lparr>pl_Closed := True\<rparr>) (?a\<lparr>pl_Closed := True, pl_Panicked := True\<rparr>)"
    using pool_step.push_closed [of "?a\<lparr>pl_Closed := True\<rparr>" 1] by simp
  ultimately have "(pool_step keep capacity limit)\<^sup>*\<^sup>* new_pool (?a\<lparr>pl_Closed := True, pl_Panicked := True\<rparr>)"
    by (meson converse_rtranclp_into_rtranclp r_into_rtranclp)
  then show ?thesis by (intro exI [of _ "?a\<lparr>pl_Closed := True, pl_Panicked := True\<rparr>"] conjI) simp_all
qed

subsection \<open>The rounds are runs of the pool\<close>

definition pool_of :: "sender_state \<Rightarrow> pool" where
  "pool_of S = new_pool\<lparr>pl_Processing := set (ss_processingTxs S), pl_Queue := map tx_ID (ss_txQueue S)\<rparr>"

lemma pool_of_simps [simp]:
  "pl_Processing (pool_of S) = set (ss_processingTxs S)" "pl_Queue (pool_of S) = map tx_ID (ss_txQueue S)"
  "pl_Offering (pool_of S) = None" "pl_Received (pool_of S) = None" "pl_Running (pool_of S) = []"
  "pl_Leaving (pool_of S) = 0" "\<not> pl_Closed (pool_of S)" "\<not> pl_Panicked (pool_of S)"
  by (simp_all add: pool_of_def new_pool_def)

lemma enqueue_run:
  "enqueueTransactions (\<lambda>_. False) cnt txs S = (n, S') \<Longrightarrow> length (ss_txQueue S) + length txs \<le> capacity \<Longrightarrow>
   (pool_step keep capacity limit)\<^sup>*\<^sup>* (pool_of S) (pool_of S')"
proof (induction txs arbitrary: cnt S)
  case Nil
  then show ?case by simp
next
  case (Cons tx txs)
  show ?case
  proof (cases "tx_ID tx \<in> set (ss_processingTxs S)")
    case True
    with Cons show ?thesis by simp
  next
    case False
    let ?S = "S\<lparr>ss_processingTxs := tx_ID tx # ss_processingTxs S, ss_txQueue := ss_txQueue S @ [tx]\<rparr>"
    let ?p = "(pool_of S)\<lparr>pl_Processing := insert (tx_ID tx) (set (ss_processingTxs S)), pl_Offering := Some (tx_ID tx)\<rparr>"
    have "pool_step keep capacity limit (pool_of S) ?p"
      using pool_step.mark [of "pool_of S" "tx_ID tx"] False by simp
    moreover have "pool_step keep capacity limit ?p (pool_of ?S)"
      using pool_step.push [of ?p "tx_ID tx" capacity keep limit] Cons.prems(2)
      by (simp add: pool_of_def new_pool_def)
    moreover have "(pool_step keep capacity limit)\<^sup>*\<^sup>* (pool_of ?S) (pool_of S')"
      using Cons.IH [of "Suc cnt" ?S] Cons.prems False by simp
    ultimately show ?thesis by (meson converse_rtranclp_into_rtranclp)
  qed
qed

lemma handle_run:
  assumes "0 < limit" and "ss_txQueue S = tx # rest"
  shows "(pool_step keep capacity limit)\<^sup>*\<^sup>* (pool_of S)
    (pool_of (S\<lparr>ss_txQueue := rest, ss_processingTxs := removeAll (tx_ID tx) (ss_processingTxs S)\<rparr>))"
proof -
  let ?i = "tx_ID tx" and ?p = "pool_of (S\<lparr>ss_txQueue := rest\<rparr>)"
  have "pool_step keep capacity limit (pool_of S) (?p\<lparr>pl_Received := Some ?i\<rparr>)"
    using pool_step.receive [of "pool_of S" ?i "map tx_ID rest" keep capacity limit] assms(2)
    by (simp add: pool_of_def new_pool_def)
  moreover have "pool_step keep capacity limit (?p\<lparr>pl_Received := Some ?i\<rparr>) (?p\<lparr>pl_Running := [?i]\<rparr>)"
    using pool_step.launch [of "?p\<lparr>pl_Received := Some ?i\<rparr>" ?i limit keep capacity] assms(1)
    by (simp add: pool_of_def new_pool_def)
  moreover have "pool_step keep capacity limit (?p\<lparr>pl_Running := [?i]\<rparr>)
      (?p\<lparr>pl_Processing := set (ss_processingTxs S) - {?i}, pl_Leaving := 1\<rparr>)"
    using pool_step.handled [of ?i "?p\<lparr>pl_Running := [?i]\<rparr>" keep capacity limit]
    by (simp add: pool_of_def new_pool_def)
  moreover have "pool_step keep capacity limit (?p\<lparr>pl_Processing := set (ss_processingTxs S) - {?i}, pl_Leaving := 1\<rparr>)
      (pool_of (S\<lparr>ss_txQueue := rest, ss_processingTxs := removeAll ?i (ss_processingTxs S)\<rparr>))"
    using pool_step.leave [of "?p\<lparr>pl_Processing := set (ss_processingTxs S) - {?i}, pl_Leaving := 1\<rparr>" keep capacity limit]
    by (simp add: pool_of_def new_pool_def)
  ultimately show ?thesis by (meson converse_rtranclp_into_rtranclp r_into_rtranclp)
qed

text \<open>The round of the sender and the one of the confirmer.\<close>

lemma rounds_run:
  assumes "0 < limit"
  shows "(pool_step keep capacity limit)\<^sup>*\<^sup>* (pool_of S) (pool_of (fst (process_next E S w)))"
    and "(pool_step keep capacity limit)\<^sup>*\<^sup>* (pool_of S) (pool_of (fst (confirm_next E S w)))"
  using handle_run [OF assms] by (auto simp: process_next_def confirm_next_def split: list.splits)

theorem handled_once_witness:
  "\<exists>p. (pool_step False queue_capacity 1)\<^sup>*\<^sup>* new_pool p \<and> set (in_flight p) = {tx_ID sample_tx} \<and>
     pl_Processing p = {tx_ID sample_tx} \<and> length (pl_Queue p) \<le> queue_capacity"
proof -
  let ?S = "\<lparr>ss_processingTxs = [], ss_txQueue = []\<rparr>"
  let ?T = "\<lparr>ss_processingTxs = [tx_ID sample_tx], ss_txQueue = [sample_tx]\<rparr>"
  have "(pool_step False queue_capacity 1)\<^sup>*\<^sup>* (pool_of ?S) (pool_of ?T)"
    by (rule enqueue_run [of 0 "[sample_tx]" ?S 1]) (simp_all add: queue_capacity_def)
  moreover have "pool_of ?S = new_pool" by (simp add: pool_of_def new_pool_def)
  ultimately have run: "(pool_step False queue_capacity 1)\<^sup>*\<^sup>* new_pool (pool_of ?T)" by simp
  from handled_once [OF run] show ?thesis
    by (intro exI [of _ "pool_of ?T"] conjI run) simp_all
qed

end
