(* ===== verification/Host.thy ===== *)
theory Host
  imports Wallet_Config
begin

text \<open>
  What the program asks of its host: the alert and heartbeat files (\<open>alert/alert.go\<close>,
  \<open>tasks/heartbeat.go\<close>), the loggers (\<open>config/log.go\<close>, \<open>config/db_logger.go\<close>) and the connection to the
  database (\<open>config/db.go\<close>). Opening and writing a file may fail, a write after part of the text. The
  parser of log levels and the drivers are libraries and enter as parameters.
\<close>

section \<open>Loggers\<close>

text \<open>Where a logger writes; a rotated file with its size, age and number of backups.\<close>

datatype log_output =
    Stderr
  | Stdout
  | RotatedFile string int int int
  | StdoutAndFile string int int int

record logger =
  lg_Level :: "string option"
  lg_Output :: log_output

definition new_logger :: logger where
  "new_logger = \<lparr>lg_Level = None, lg_Output = Stderr\<rparr>"

record db_handle =
  dh_Driver :: string
  dh_Connection :: string
  dh_MaxOpenConns :: nat
  dh_MaxIdleConns :: "nat option"
  dh_ConnMaxLifetime :: "int option"

record host =
  ho_Tick :: nat
  ho_Files :: files
  ho_Logger :: logger
  ho_DbLogger :: logger
  ho_Db :: "db_handle option"

definition or_default :: "int \<Rightarrow> int \<Rightarrow> int" where
  "or_default d x = (if x = 0 then d else x)"

type_synonym level_parser = "string \<Rightarrow> go_error + string"

text \<open>The output is set before the level is parsed.\<close>

definition InitLog :: "level_parser \<Rightarrow> app_config \<Rightarrow> (host, unit) action" where
  "InitLog ParseLevel c =
     (let l = cfg_Log c;
          output = (if lc_Output l = [] \<or> lc_Output l = ''stderr'' then Stderr
            else if lc_Output l = ''stdout'' then Stdout
            else StdoutAndFile (lc_Output l) (or_default 500 (lc_MaxFileSize l))
                   (or_default 30 (lc_MaxDays l)) (or_default 10 (lc_MaxFileNum l))) in
      and_then (writes (\<lambda>h. h\<lparr>ho_Logger := (ho_Logger h)\<lparr>lg_Output := output\<rparr>\<rparr>)) (\<lambda>_.
      and_then (lift_sum (ParseLevel (lc_Level l))) (\<lambda>level.
        writes (\<lambda>h. h\<lparr>ho_Logger := (ho_Logger h)\<lparr>lg_Level := Some level\<rparr>\<rparr>))))"

text \<open>Here the level comes first.\<close>

definition configLogrusInstance :: "level_parser \<Rightarrow> app_config \<Rightarrow> (host, unit) action" where
  "configLogrusInstance ParseLevel c =
     (let l = cfg_DbLog c;
          output = (if lc_Output l = [] \<or> lc_Output l = ''stderr'' then Stderr
            else if lc_Output l = ''stdout'' then Stdout
            else RotatedFile (lc_Output l) (or_default 500 (lc_MaxFileSize l))
                   (or_default 30 (lc_MaxDays l)) (or_default 10 (lc_MaxFileNum l))) in
      and_then (lift_sum (ParseLevel (lc_Level l))) (\<lambda>level.
        writes (\<lambda>h. h\<lparr>ho_DbLogger := (ho_DbLogger h)\<lparr>lg_Level := Some level, lg_Output := output\<rparr>\<rparr>)))"

text \<open>\<open>os.Exit\<close> ends the process.\<close>

datatype 'a proc = Exits nat | Continues 'a

lemma case_proc_run:
  "(case r of Exits n \<Rightarrow> a n | Continues x \<Rightarrow> b x) s = y \<longleftrightarrow>
     (\<exists>n. r = Exits n \<and> a n s = y) \<or> (\<exists>x. r = Continues x \<and> b x s = y)"
  by (cases r) auto

record db_logger =
  dl_SlowThreshold :: int
  dl_SourceField :: string
  dl_SkipErrRecordNotFound :: bool
  dl_Debug :: bool

definition NewDBLogger :: "level_parser \<Rightarrow> app_config \<Rightarrow> (host, db_logger proc) action" where
  "NewDBLogger ParseLevel c =
     and_then (writes (\<lambda>h. h\<lparr>ho_DbLogger := new_logger\<rparr>)) (\<lambda>_.
     and_then (try_result (configLogrusInstance ParseLevel c)) (\<lambda>r.
       case r of
         Inl e \<Rightarrow> return_ok (Exits 1)
       | Inr _ \<Rightarrow> return_ok (Continues
           \<lparr>dl_SlowThreshold = 0, dl_SourceField = [], dl_SkipErrRecordNotFound = True, dl_Debug = True\<rparr>)))"

text \<open>One statement of the database log.\<close>

datatype log_level = ErrorLevel | WarnLevel | DebugLevel

record log_line =
  ll_Level :: log_level
  ll_Fields :: "(string \<times> string) list"
  ll_Text :: string

fun is_record_not_found :: "go_error \<Rightarrow> bool" where
  "is_record_not_found ErrRecordNotFound = True"
| "is_record_not_found (Wrapped _ e) = is_record_not_found e"
| "is_record_not_found _ = False"

text \<open>\<open>ShowDuration\<close> is the text of a duration, \<open>place\<close> the calling line.\<close>

definition Trace ::
  "db_logger \<Rightarrow> (int \<Rightarrow> string) \<Rightarrow> int \<Rightarrow> int \<Rightarrow> string \<Rightarrow> string \<Rightarrow> go_error option \<Rightarrow> log_line list" where
  "Trace l ShowDuration start now sql place err =
     (let elapsed = now - start;
          text = sql @ '' ['' @ ShowDuration elapsed @ '']'';
          info = (if dl_SourceField l = [] then [] else [(dl_SourceField l, place)]) in
      case err of
        Some e \<Rightarrow>
          (if \<not> (is_record_not_found e \<and> dl_SkipErrRecordNotFound l)
           then [\<lparr>ll_Level = ErrorLevel, ll_Fields = info @ [(''error'', error_text e)], ll_Text = text\<rparr>]
           else if dl_SlowThreshold l \<noteq> 0 \<and> elapsed > dl_SlowThreshold l
           then [\<lparr>ll_Level = WarnLevel, ll_Fields = info, ll_Text = text\<rparr>]
           else if dl_Debug l then [\<lparr>ll_Level = DebugLevel, ll_Fields = info, ll_Text = text\<rparr>] else [])
      | None \<Rightarrow>
          (if dl_SlowThreshold l \<noteq> 0 \<and> elapsed > dl_SlowThreshold l
           then [\<lparr>ll_Level = WarnLevel, ll_Fields = info, ll_Text = text\<rparr>]
           else if dl_Debug l then [\<lparr>ll_Level = DebugLevel, ll_Fields = info, ll_Text = text\<rparr>] else []))"

section \<open>The connection to the database\<close>

text \<open>
  \<open>gormOpen\<close> and \<open>sqlDB\<close> are the library's \<open>gorm.Open\<close> and \<open>instance.DB()\<close>. The logger is built while
  the arguments of \<open>gorm.Open\<close> are evaluated.
\<close>

definition InitDB ::
  "level_parser \<Rightarrow> (string \<Rightarrow> string \<Rightarrow> go_error option) \<Rightarrow> go_error option \<Rightarrow> app_config \<Rightarrow>
   (host, unit proc) action" where
  "InitDB ParseLevel gormOpen sqlDB c =
     (if cfg_Environment c = EnvTest \<and> cfg_DbDriver c = [] then return_ok (Continues ())
      else if cfg_DbDriver c \<notin> {''mysql'', ''postgres'', ''sqlite''} then
        return_err (ErrorsNew ''DB not supported'')
      else
        and_then (NewDBLogger ParseLevel c) (\<lambda>l.
          case l of
            Exits n \<Rightarrow> return_ok (Exits n)
          | Continues _ \<Rightarrow>
              (case gormOpen (cfg_DbDriver c) (cfg_DbConnectionString c) of
                 Some e \<Rightarrow> return_err e
               | None \<Rightarrow>
                   (case sqlDB of
                      Some e \<Rightarrow> return_err e
                    | None \<Rightarrow>
                        and_then (writes (\<lambda>h. h\<lparr>ho_Db := Some
                          (if cfg_DbDriver c = ''sqlite''
                           then \<lparr>dh_Driver = cfg_DbDriver c, dh_Connection = cfg_DbConnectionString c,
                                 dh_MaxOpenConns = 1, dh_MaxIdleConns = None, dh_ConnMaxLifetime = None\<rparr>
                           else \<lparr>dh_Driver = cfg_DbDriver c, dh_Connection = cfg_DbConnectionString c,
                                 dh_MaxOpenConns = 100, dh_MaxIdleConns = Some 20,
                                 dh_ConnMaxLifetime = Some 5000000000\<rparr>)\<rparr>)) (\<lambda>_.
                          return_ok (Continues ()))))))"

definition GetDB :: "host \<Rightarrow> db_handle option" where
  "GetDB h = ho_Db h"

section \<open>Alerts and heartbeats\<close>

text \<open>The faults of the n-th call: opening a file, and writing only the first characters.\<close>

record os_faults =
  os_Open :: "nat \<Rightarrow> go_error option"
  os_Write :: "nat \<Rightarrow> (go_error \<times> nat) option"

text \<open>\<open>os.OpenFile\<close> with \<open>O_APPEND|O_CREATE|O_WRONLY\<close>.\<close>

definition open_append :: "os_faults \<Rightarrow> string \<Rightarrow> (host, unit) action" where
  "open_append os file =
     (\<lambda>h. let h' = h\<lparr>ho_Tick := Suc (ho_Tick h)\<rparr> in
        case os_Open os (ho_Tick h) of
          Some e \<Rightarrow> (Inl e, h')
        | None \<Rightarrow> (Inr (), h'\<lparr>ho_Files := (ho_Files h)(file \<mapsto> null_string (ho_Files h file))\<rparr>))"

definition WriteString :: "os_faults \<Rightarrow> string \<Rightarrow> string \<Rightarrow> (host, unit) action" where
  "WriteString os file s =
     (\<lambda>h. let h' = h\<lparr>ho_Tick := Suc (ho_Tick h)\<rparr>;
              put = (\<lambda>s. h'\<lparr>ho_Files := (ho_Files h)(file \<mapsto> null_string (ho_Files h file) @ s)\<rparr>) in
        case os_Write os (ho_Tick h) of
          Some (e, k) \<Rightarrow> (Inl e, put (take k s))
        | None \<Rightarrow> (Inr (), put s))"

definition line_end :: string where
  "line_end = [char_of (10 :: nat)]"

definition alert_line :: "string \<Rightarrow> string \<Rightarrow> string" where
  "alert_line taskName alertMessage =
     ''Crynux Relay Wallet - task: '' @ taskName @ '', alert: '' @ alertMessage"

definition SendAlert :: "os_faults \<Rightarrow> app_config \<Rightarrow> string \<Rightarrow> string \<Rightarrow> (host, unit) action" where
  "SendAlert os c taskName alertMessage =
     and_then (open_append os (cfg_AlertLogFile c)) (\<lambda>_.
       WriteString os (cfg_AlertLogFile c) (alert_line taskName alertMessage @ line_end))"

text \<open>Errors and panics of the alert itself are only logged.\<close>

definition SafeSendAlert :: "os_faults \<Rightarrow> app_config \<Rightarrow> string \<Rightarrow> string \<Rightarrow> (host, unit) action" where
  "SafeSendAlert os c taskName alertMessage =
     (\<lambda>h. (Inr (), snd (SendAlert os c taskName alertMessage h)))"

definition SendHeartbeat :: "os_faults \<Rightarrow> app_config \<Rightarrow> (host, unit) action" where
  "SendHeartbeat os c =
     and_then (open_append os (cfg_HeartbeatLogFile c)) (\<lambda>_.
       WriteString os (cfg_HeartbeatLogFile c) (''Crynux Relay Wallet - heartbeat'' @ line_end))"

text \<open>\<open>stop n\<close>: the n-th \<open>select\<close> takes the branch \<open>ctx.Done()\<close>.\<close>

fun heartbeat_ticks :: "os_faults \<Rightarrow> app_config \<Rightarrow> (nat \<Rightarrow> bool) \<Rightarrow> nat \<Rightarrow> nat \<Rightarrow> (host, unit) action" where
  "heartbeat_ticks os c stop 0 n = return_err OutOfFuel"
| "heartbeat_ticks os c stop (Suc fuel) n =
     (if stop n then return_ok ()
      else and_then (SendHeartbeat os c) (\<lambda>_. heartbeat_ticks os c stop fuel (Suc n)))"

definition StartHeartbeat :: "os_faults \<Rightarrow> app_config \<Rightarrow> (nat \<Rightarrow> bool) \<Rightarrow> nat \<Rightarrow> (host, unit) action" where
  "StartHeartbeat os c stop fuel = heartbeat_ticks os c stop fuel 0"

lemma alert_appended:
  assumes "os_Open os (ho_Tick h) = None" and "os_Write os (Suc (ho_Tick h)) = None"
  shows "SendAlert os c taskName msg h = (Inr (), h\<lparr>ho_Tick := Suc (Suc (ho_Tick h)),
     ho_Files := (ho_Files h)(cfg_AlertLogFile c \<mapsto>
       null_string (ho_Files h (cfg_AlertLogFile c)) @ alert_line taskName msg @ line_end)\<rparr>)"
  using assms by (simp add: SendAlert_def open_append_def WriteString_def and_then_def Let_def null_string_def)

end
