(* ===== verification/Migrations.thy ===== *)
theory Migrations
  imports Wallet_Tables Go_Text
begin

text \<open>
  Package \<open>migrate\<close>: the migration scripts as they change the schema and the rows of the database, the
  runner \<open>migrate.go\<close>, and the tables the models of package \<open>models\<close> need. A script is a library
  migration (\<open>gormigrate\<close>); that library is the parameter \<open>gormigrate\<close>, with its documented
  behaviour in \<open>documented\<close>. A schema statement may fail because of the schema or because the
  database is unreachable; it commits by itself, as in MySQL.
\<close>

section \<open>Structs and their tags\<close>

datatype go_type =
    GoString | GoUint | GoUint8 | GoUint64 | GoInt8 | GoTime
  | GoNullString | GoNullInt64 | GoNullTime | GoDeletedAt | GoBigInt

text \<open>A field of a struct with its \<open>gorm\<close> tag; the table name is the one \<open>gorm\<close> derives or \<open>TableName\<close>.\<close>

record go_field =
  f_Name :: string
  f_Type :: go_type
  f_Tag :: string

record go_struct =
  st_Table :: string
  st_Fields :: "go_field list"

definition column :: "string \<Rightarrow> go_type \<Rightarrow> string \<Rightarrow> go_field" where
  "column name ty tag = \<lparr>f_Name = name, f_Type = ty, f_Tag = tag\<rparr>"

definition quoted :: "string \<Rightarrow> string" where
  "quoted s = char_of (39 :: nat) # s @ [char_of (39 :: nat)]"

text \<open>The settings of a tag are separated by semicolons.\<close>

fun tag_settings :: "string \<Rightarrow> string \<Rightarrow> string list" where
  "tag_settings acc [] = [acc]"
| "tag_settings acc (c # cs) =
     (if c = CHR '';'' then acc # tag_settings [] cs else tag_settings (acc @ [c]) cs)"

definition settings :: "go_field \<Rightarrow> string list" where
  "settings f = tag_settings [] (f_Tag f)"

definition not_null :: "go_field \<Rightarrow> bool" where
  "not_null f \<longleftrightarrow> ''not null'' \<in> set (settings f)"

text \<open>The index a field takes part in: a plain one has the name of the field.\<close>

datatype index = Index string | UniqueIndex string

fun index_setting :: "string \<Rightarrow> string \<Rightarrow> index option" where
  "index_setting name s =
     (if s = ''index'' then Some (Index name)
      else if s = ''uniqueIndex'' then Some (UniqueIndex name)
      else if HasPrefix s ''uniqueIndex:'' then Some (UniqueIndex (TrimPrefix s ''uniqueIndex:''))
      else None)"

definition index_of :: "go_field \<Rightarrow> index option" where
  "index_of f =
     (case List.map_filter (index_setting (f_Name f)) (settings f) of
        [] \<Rightarrow> None
      | i # _ \<Rightarrow> Some i)"

definition find_field :: "go_struct \<Rightarrow> string \<Rightarrow> go_field option" where
  "find_field st name = find (\<lambda>f. f_Name f = name) (st_Fields st)"

text \<open>\<open>gorm.Model\<close>.\<close>

definition gorm_Model :: "go_field list" where
  "gorm_Model =
     [column ''ID'' GoUint ''primarykey'', column ''CreatedAt'' GoTime [],
      column ''UpdatedAt'' GoTime [], column ''DeletedAt'' GoDeletedAt ''index'']"

section \<open>Schema statements\<close>

record sql_table =
  tb_Columns :: "go_field list"
  tb_Indexes :: "index list"

type_synonym schema = "(string \<times> sql_table) list"

text \<open>
  What the scripts work on: the schema, the vesting records (the rows a script changes), the
  identifiers \<open>gormigrate\<close> has recorded, and a counter of statements for the faults.
\<close>

record store =
  sg_Tick :: nat
  sg_Schema :: schema
  sg_Vestings :: "vesting_record list"
  sg_Applied :: "string list"

type_synonym faults = "nat \<Rightarrow> go_error option"

definition statement ::
  "faults \<Rightarrow> string \<Rightarrow> (store \<Rightarrow> store option) \<Rightarrow> (store, unit) action" where
  "statement F refusal f =
     (\<lambda>s. let s' = s\<lparr>sg_Tick := Suc (sg_Tick s)\<rparr> in
        case F (sg_Tick s) of
          Some e \<Rightarrow> (Inl e, s')
        | None \<Rightarrow> (case f s' of None \<Rightarrow> (Inl (External refusal), s') | Some t \<Rightarrow> (Inr (), t)))"

definition with_table :: "string \<Rightarrow> (sql_table \<Rightarrow> sql_table option) \<Rightarrow> store \<Rightarrow> store option" where
  "with_table name f s =
     (case map_of (sg_Schema s) name of
        None \<Rightarrow> None
      | Some t \<Rightarrow> map_option (\<lambda>t'. s\<lparr>sg_Schema := AList.update name t' (sg_Schema s)\<rparr>) (f t))"

definition has_column :: "sql_table \<Rightarrow> string \<Rightarrow> bool" where
  "has_column t name \<longleftrightarrow> name \<in> f_Name ` set (tb_Columns t)"

definition CreateTable :: "faults \<Rightarrow> go_struct \<Rightarrow> (store, unit) action" where
  "CreateTable F st =
     statement F ''table already exists'' (\<lambda>s.
       if map_of (sg_Schema s) (st_Table st) \<noteq> None then None
       else Some (s\<lparr>sg_Schema := sg_Schema s @ [(st_Table st,
         \<lparr>tb_Columns = st_Fields st,
          tb_Indexes = remdups (List.map_filter index_of (st_Fields st))\<rparr>)]\<rparr>))"

text \<open>\<open>DROP TABLE IF EXISTS\<close>.\<close>

definition DropTable :: "faults \<Rightarrow> string \<Rightarrow> (store, unit) action" where
  "DropTable F name =
     statement F [] (\<lambda>s. Some (s\<lparr>sg_Schema := AList.delete name (sg_Schema s)\<rparr>))"

text \<open>\<open>ALTER TABLE ... ADD\<close>: the column with its type and constraints, but no index.\<close>

definition AddColumn :: "faults \<Rightarrow> go_struct \<Rightarrow> string \<Rightarrow> (store, unit) action" where
  "AddColumn F st name =
     statement F ''cannot add column'' (\<lambda>s.
       case find_field st name of
         None \<Rightarrow> None
       | Some f \<Rightarrow> with_table (st_Table st) (\<lambda>t.
           if has_column t name then None else Some (t\<lparr>tb_Columns := tb_Columns t @ [f]\<rparr>)) s)"

definition DropColumn :: "faults \<Rightarrow> go_struct \<Rightarrow> string \<Rightarrow> (store, unit) action" where
  "DropColumn F st name =
     statement F ''cannot drop column'' (with_table (st_Table st) (\<lambda>t.
       if \<not> has_column t name then None
       else Some (t\<lparr>tb_Columns := filter (\<lambda>f. f_Name f \<noteq> name) (tb_Columns t)\<rparr>)))"

definition CreateIndex :: "faults \<Rightarrow> go_struct \<Rightarrow> string \<Rightarrow> (store, unit) action" where
  "CreateIndex F st name =
     statement F ''cannot create index'' (\<lambda>s.
       case Option.bind (find_field st name) index_of of
         None \<Rightarrow> None
       | Some i \<Rightarrow> with_table (st_Table st) (\<lambda>t.
           if i \<in> set (tb_Indexes t) \<or> \<not> has_column t name then None
           else Some (t\<lparr>tb_Indexes := tb_Indexes t @ [i]\<rparr>)) s)"

definition DropIndex :: "faults \<Rightarrow> go_struct \<Rightarrow> string \<Rightarrow> (store, unit) action" where
  "DropIndex F st name =
     statement F ''cannot drop index'' (\<lambda>s.
       case Option.bind (find_field st name) index_of of
         None \<Rightarrow> None
       | Some i \<Rightarrow> with_table (st_Table st) (\<lambda>t.
           if i \<notin> set (tb_Indexes t) then None
           else Some (t\<lparr>tb_Indexes := removeAll i (tb_Indexes t)\<rparr>)) s)"

text \<open>\<open>UPDATE vesting_records SET status = 2 WHERE deleted_at IS NULL AND status = 0\<close>.\<close>

definition deprecate_active :: "vesting_record list \<Rightarrow> vesting_record list" where
  "deprecate_active =
     update_where (\<lambda>r. vr_DeletedAt r = None \<and> vr_Status r = VestingStatusActive)
       (\<lambda>r. r\<lparr>vr_Status := VestingStatusDeprecated\<rparr>)"

text \<open>A sequence of statements, each with \<open>if err != nil { return err }\<close>.\<close>

definition do_all :: "(store, unit) action list \<Rightarrow> (store, unit) action" where
  "do_all ms = for_each ms (\<lambda>m. m)"

section \<open>The scripts\<close>

record migration =
  mg_ID :: string
  mg_Migrate :: "(store, unit) action"
  mg_Rollback :: "(store, unit) action"

definition RelayAccounts_20250811 :: go_struct where
  "RelayAccounts_20250811 = \<lparr>st_Table = ''relay_accounts'', st_Fields = gorm_Model @
     [column ''Address'' GoString ''uniqueIndex;type:string;size:191;'',
      column ''Balance'' GoString ''type:string;size:255'']\<rparr>"

definition M20250811 :: "faults \<Rightarrow> migration list" where
  "M20250811 F =
     [\<lparr>mg_ID = ''M20230810'',
       mg_Migrate = do_all [CreateTable F RelayAccounts_20250811],
       mg_Rollback = do_all [DropTable F ''relay_accounts'']\<rparr>]"

definition BlockchainTransaction_20250902 :: go_struct where
  "BlockchainTransaction_20250902 = \<lparr>st_Table = ''blockchain_transactions'', st_Fields = gorm_Model @
     [column ''Network'' GoString ''type:string;size:191;index;not null'',
      column ''Type'' GoString ''type:string;size:191;index;not null'',
      column ''Status'' GoUint8 ''index;not null;default:0'',
      column ''FromAddress'' GoString ''type:string;size:191;not null'',
      column ''ToAddress'' GoString ''type:string;size:191;not null'',
      column ''Value'' GoString (''type:string;size:191;not null;default:'' @ quoted ''0''),
      column ''Data'' GoNullString ''null'',
      column ''TxHash'' GoNullString ''type:string;size:191;null;uniqueIndex'',
      column ''BlockNumber'' GoNullInt64 ''null'',
      column ''GasUsed'' GoNullInt64 ''null'',
      column ''EffectiveGasPrice'' GoNullString ''type:string;size:191;null'',
      column ''StatusMessage'' GoNullString ''null'',
      column ''RetryCount'' GoUint8 ''not null;default:0'',
      column ''MaxRetries'' GoUint8 ''not null;default:0'',
      column ''RetryTransactionID'' GoNullInt64 ''null;index'',
      column ''NextRetryAt'' GoNullTime ''null'',
      column ''SentAt'' GoNullTime ''null'',
      column ''ConfirmedAt'' GoNullTime ''null'',
      column ''FailedAt'' GoNullTime ''null'']\<rparr>"

definition TaskFeeCheckpoint_20250902 :: go_struct where
  "TaskFeeCheckpoint_20250902 = \<lparr>st_Table = ''task_fee_checkpoints'', st_Fields =
     [column ''ID'' GoUint ''primarykey'',
      column ''LatestTaskFeeLogID'' GoUint '''',
      column ''LatestTaskFeeLogTimestamp'' GoUint64 '''']\<rparr>"

definition WithdrawalRequestCheckpoint_20250902 :: go_struct where
  "WithdrawalRequestCheckpoint_20250902 = \<lparr>st_Table = ''withdrawal_request_checkpoints'', st_Fields =
     [column ''ID'' GoUint ''primarykey'',
      column ''LatestWithdrawalRequestID'' GoUint '''',
      column ''LatestWithdrawalRequestTimestamp'' GoUint64 '''']\<rparr>"

definition WithdrawRecord_20250902 :: go_struct where
  "WithdrawRecord_20250902 = \<lparr>st_Table = ''withdraw_records'', st_Fields = gorm_Model @
     [column ''RemoteID'' GoUint ''not null;uniqueIndex'',
      column ''Address'' GoString ''type:string;size:191;not null;index'',
      column ''BenefitAddress'' GoString ''type:string;size:191;not null;index'',
      column ''Amount'' GoString ''type:string;size:191;not null'',
      column ''Network'' GoString ''type:string;size:191;not null;index'',
      column ''Status'' GoInt8 ''not null;default:0;index'',
      column ''BlockchainTransactionID'' GoNullInt64 ''index'']\<rparr>"

definition M20250902 :: "faults \<Rightarrow> migration list" where
  "M20250902 F =
     [\<lparr>mg_ID = ''M20250902'',
       mg_Migrate = do_all [CreateTable F BlockchainTransaction_20250902,
         CreateTable F TaskFeeCheckpoint_20250902,
         CreateTable F WithdrawalRequestCheckpoint_20250902,
         CreateTable F WithdrawRecord_20250902],
       mg_Rollback = do_all [DropTable F ''blockchain_transactions'',
         DropTable F ''task_fee_checkpoints'',
         DropTable F ''withdrawal_request_checkpoints'',
         DropTable F ''withdraw_records'']\<rparr>]"

definition BlockchainTransaction_20250930 :: go_struct where
  "BlockchainTransaction_20250930 = \<lparr>st_Table = ''blockchain_transactions'', st_Fields =
     [column ''Nonce'' GoNullInt64 ''null'']\<rparr>"

definition M20250930 :: "faults \<Rightarrow> migration list" where
  "M20250930 F =
     [\<lparr>mg_ID = ''M20250930'',
       mg_Migrate = do_all [AddColumn F BlockchainTransaction_20250930 ''Nonce''],
       mg_Rollback = do_all [DropColumn F BlockchainTransaction_20250930 ''Nonce'']\<rparr>]"

definition DepositRecord_20260327 :: go_struct where
  "DepositRecord_20260327 = \<lparr>st_Table = ''deposit_records'', st_Fields = gorm_Model @
     [column ''Network'' GoString ''type:string;size:191;not null;uniqueIndex:idx_deposit_record_network_tx_hash'',
      column ''TxHash'' GoString ''type:string;size:191;not null;uniqueIndex:idx_deposit_record_network_tx_hash'',
      column ''DepositAddress'' GoString ''type:string;size:191;not null'',
      column ''FromAddress'' GoString ''type:string;size:191;not null;index'',
      column ''Amount'' GoString ''type:string;size:255;not null'',
      column ''RelayAccountEventID'' GoUint ''not null;index'']\<rparr>"

definition M20260327 :: "faults \<Rightarrow> migration list" where
  "M20260327 F =
     [\<lparr>mg_ID = ''M20260327'',
       mg_Migrate = do_all [CreateTable F DepositRecord_20260327],
       mg_Rollback = do_all [DropTable F ''deposit_records'']\<rparr>]"

definition VestingRecord_20260526 :: go_struct where
  "VestingRecord_20260526 = \<lparr>st_Table = ''vesting_records'', st_Fields = gorm_Model @
     [column ''RelayVestingID'' GoUint ''not null;uniqueIndex'',
      column ''Address'' GoString ''not null;index'',
      column ''TotalAmount'' GoString ''not null;type:string;size:255'',
      column ''ReleasedAmount'' GoString ''not null;type:string;size:255'',
      column ''StartTime'' GoTime ''not null;index'',
      column ''DurationDays'' GoUint ''not null'',
      column ''Source'' GoString ''not null;size:64;index'',
      column ''ExternalID'' GoString ''not null;size:128;index'',
      column ''AdminSignature'' GoString ''not null;size:255'',
      column ''Status'' GoInt8 ''not null;default:0;index'']\<rparr>"

definition M20260526 :: "faults \<Rightarrow> migration list" where
  "M20260526 F =
     [\<lparr>mg_ID = ''M20260526'',
       mg_Migrate = do_all [CreateTable F VestingRecord_20260526],
       mg_Rollback = do_all [DropTable F ''vesting_records'']\<rparr>]"

definition WithdrawRecord_20260602 :: go_struct where
  "WithdrawRecord_20260602 = \<lparr>st_Table = ''withdraw_records'', st_Fields =
     [column ''WithdrawalFee'' GoString (''not null;type:string;size:191;default:'' @ quoted ''0'')]\<rparr>"

definition M20260602 :: "faults \<Rightarrow> migration list" where
  "M20260602 F =
     [\<lparr>mg_ID = ''M20260602'',
       mg_Migrate = do_all [AddColumn F WithdrawRecord_20260602 ''WithdrawalFee''],
       mg_Rollback = do_all [DropColumn F WithdrawRecord_20260602 ''WithdrawalFee'']\<rparr>]"

definition VestingRecord_20260609 :: go_struct where
  "VestingRecord_20260609 = \<lparr>st_Table = ''vesting_records'', st_Fields =
     [column ''Type'' GoString ''not null;size:32;default:other;index'']\<rparr>"

definition M20260609 :: "faults \<Rightarrow> migration list" where
  "M20260609 F =
     [\<lparr>mg_ID = ''M20260609'',
       mg_Migrate = do_all [AddColumn F VestingRecord_20260609 ''Type''],
       mg_Rollback = do_all [DropColumn F VestingRecord_20260609 ''Type'']\<rparr>]"

definition VestingRecord_20260708 :: go_struct where
  "VestingRecord_20260708 = \<lparr>st_Table = ''vesting_records'', st_Fields =
     [column ''Source'' GoString ''not null;size:64;index'',
      column ''ExternalID'' GoString ''not null;size:128;index'']\<rparr>"

definition M20260708 :: "faults \<Rightarrow> migration list" where
  "M20260708 F =
     [\<lparr>mg_ID = ''M20260708'',
       mg_Migrate = do_all [DropIndex F VestingRecord_20260708 ''Source'',
         DropIndex F VestingRecord_20260708 ''ExternalID'',
         DropColumn F VestingRecord_20260708 ''Source'',
         DropColumn F VestingRecord_20260708 ''ExternalID''],
       mg_Rollback = do_all [AddColumn F VestingRecord_20260708 ''Source'',
         AddColumn F VestingRecord_20260708 ''ExternalID'',
         CreateIndex F VestingRecord_20260708 ''Source'',
         CreateIndex F VestingRecord_20260708 ''ExternalID'']\<rparr>]"

definition BlockchainTransaction_20260803 :: go_struct where
  "BlockchainTransaction_20260803 = \<lparr>st_Table = ''blockchain_transactions'', st_Fields =
     [column ''CancellationRequestedAt'' GoNullTime ''null'']\<rparr>"

definition M20260803 :: "faults \<Rightarrow> migration list" where
  "M20260803 F =
     [\<lparr>mg_ID = ''M20260803'',
       mg_Migrate = do_all [AddColumn F BlockchainTransaction_20260803 ''CancellationRequestedAt''],
       mg_Rollback = do_all [DropColumn F BlockchainTransaction_20260803 ''CancellationRequestedAt'']\<rparr>]"

definition BlockchainTransaction_20260803b :: go_struct where
  "BlockchainTransaction_20260803b = \<lparr>st_Table = ''blockchain_transactions'', st_Fields =
     [column ''SignedRawTx'' GoNullString ''type:mediumtext;null'']\<rparr>"

definition M20260803b :: "faults \<Rightarrow> migration list" where
  "M20260803b F =
     [\<lparr>mg_ID = ''M20260803b'',
       mg_Migrate = do_all [AddColumn F BlockchainTransaction_20260803b ''SignedRawTx''],
       mg_Rollback = do_all [DropColumn F BlockchainTransaction_20260803b ''SignedRawTx'']\<rparr>]"

definition withdrawAuthorizationFieldsForM20260803c :: go_struct where
  "withdrawAuthorizationFieldsForM20260803c = \<lparr>st_Table = ''withdraw_records'', st_Fields =
     [column ''Timestamp'' GoNullInt64 ''null'',
      column ''Signature'' GoNullString ''type:varchar(255);null'',
      column ''AuthorizationFingerprint'' GoNullString ''type:varchar(64);null;uniqueIndex'']\<rparr>"

definition M20260803c :: "faults \<Rightarrow> migration list" where
  "M20260803c F =
     [\<lparr>mg_ID = ''M20260803c'',
       mg_Migrate = do_all [AddColumn F withdrawAuthorizationFieldsForM20260803c ''Timestamp'',
         AddColumn F withdrawAuthorizationFieldsForM20260803c ''Signature'',
         AddColumn F withdrawAuthorizationFieldsForM20260803c ''AuthorizationFingerprint'',
         CreateIndex F withdrawAuthorizationFieldsForM20260803c ''AuthorizationFingerprint''],
       mg_Rollback = do_all [DropIndex F withdrawAuthorizationFieldsForM20260803c ''AuthorizationFingerprint'',
         DropColumn F withdrawAuthorizationFieldsForM20260803c ''AuthorizationFingerprint'',
         DropColumn F withdrawAuthorizationFieldsForM20260803c ''Signature'',
         DropColumn F withdrawAuthorizationFieldsForM20260803c ''Timestamp'']\<rparr>]"

definition M20260826 :: "faults \<Rightarrow> migration list" where
  "M20260826 F =
     [\<lparr>mg_ID = ''M20260826'',
       mg_Migrate = do_all [statement F [] (\<lambda>s. Some (s\<lparr>sg_Vestings := deprecate_active (sg_Vestings s)\<rparr>))],
       mg_Rollback = do_all []\<rparr>]"

section \<open>migrate.go\<close>

text \<open>The library: \<open>Migrate\<close> and \<open>RollbackLast\<close> of a \<open>*gormigrate.Gormigrate\<close> with the given migrations.\<close>

record gormigrate =
  gm_Migrate :: "migration list \<Rightarrow> (store, unit) action"
  gm_RollbackLast :: "migration list \<Rightarrow> (store, unit) action"

definition InitMigration :: "faults \<Rightarrow> migration list list \<Rightarrow> migration list list" where
  "InitMigration F migrationScripts =
     migrationScripts @
     [M20250811 F, M20250902 F, M20250930 F, M20260327 F, M20260526 F, M20260602 F, M20260609 F,
      M20260708 F, M20260803 F, M20260803b F, M20260803c F, M20260826 F]"

definition Migrate :: "gormigrate \<Rightarrow> migration list list \<Rightarrow> (store, unit) action" where
  "Migrate G migrationScripts = for_each migrationScripts (gm_Migrate G)"

text \<open>The last element of an empty list is an index out of range.\<close>

definition Rollback :: "gormigrate \<Rightarrow> migration list list \<Rightarrow> (store, unit) action" where
  "Rollback G migrationScripts =
     (if migrationScripts = [] then return_err (Panic ''index out of range [-1]'')
      else gm_RollbackLast G (last migrationScripts))"

section \<open>The structs of package models\<close>

definition RelayAccount_struct :: go_struct where
  "RelayAccount_struct = \<lparr>st_Table = ''relay_accounts'', st_Fields = gorm_Model @
     [column ''Address'' GoString ''uniqueIndex'',
      column ''Balance'' GoBigInt ''type:string;size:255'']\<rparr>"

definition BlockchainTransaction_struct :: go_struct where
  "BlockchainTransaction_struct = \<lparr>st_Table = ''blockchain_transactions'', st_Fields = gorm_Model @
     [column ''Network'' GoString ''index;not null'',
      column ''Type'' GoString ''index;not null'',
      column ''Status'' GoUint8 ''index;not null;default:0'',
      column ''FromAddress'' GoString ''not null'',
      column ''ToAddress'' GoString ''not null'',
      column ''Value'' GoString (''not null;default:'' @ quoted ''0''),
      column ''Data'' GoNullString ''null'',
      column ''TxHash'' GoNullString ''null;uniqueIndex'',
      column ''BlockNumber'' GoNullInt64 ''null'',
      column ''Nonce'' GoNullInt64 ''null'',
      column ''GasUsed'' GoNullInt64 ''null'',
      column ''EffectiveGasPrice'' GoNullString ''null'',
      column ''StatusMessage'' GoNullString ''null'',
      column ''RetryCount'' GoUint8 ''not null;default:0'',
      column ''MaxRetries'' GoUint8 ''not null;default:0'',
      column ''RetryTransactionID'' GoNullInt64 ''null;index'',
      column ''NextRetryAt'' GoNullTime ''null'',
      column ''SentAt'' GoNullTime ''null'',
      column ''ConfirmedAt'' GoNullTime ''null'',
      column ''FailedAt'' GoNullTime ''null'',
      column ''CancellationRequestedAt'' GoNullTime ''null'',
      column ''SignedRawTx'' GoNullString ''type:mediumtext;null'']\<rparr>"

definition TaskFeeCheckpoint_struct :: go_struct where
  "TaskFeeCheckpoint_struct = \<lparr>st_Table = ''task_fee_checkpoints'', st_Fields =
     [column ''ID'' GoUint ''primarykey'',
      column ''LatestTaskFeeLogID'' GoUint '''',
      column ''LatestTaskFeeLogTimestamp'' GoUint64 '''']\<rparr>"

definition WithdrawalRequestCheckpoint_struct :: go_struct where
  "WithdrawalRequestCheckpoint_struct = \<lparr>st_Table = ''withdrawal_request_checkpoints'', st_Fields =
     [column ''ID'' GoUint ''primarykey'',
      column ''LatestWithdrawalRequestID'' GoUint '''',
      column ''LatestWithdrawalRequestTimestamp'' GoUint64 '''']\<rparr>"

definition WithdrawRecord_struct :: go_struct where
  "WithdrawRecord_struct = \<lparr>st_Table = ''withdraw_records'', st_Fields = gorm_Model @
     [column ''RemoteID'' GoUint ''not null;uniqueIndex'',
      column ''Address'' GoString ''not null;index'',
      column ''BenefitAddress'' GoString ''not null;index'',
      column ''Amount'' GoBigInt ''not null'',
      column ''WithdrawalFee'' GoBigInt ''not null'',
      column ''Network'' GoString ''not null;index'',
      column ''Status'' GoInt8 ''not null;default:0;index'',
      column ''BlockchainTransactionID'' GoNullInt64 ''index'',
      column ''Timestamp'' GoNullInt64 ''null'',
      column ''Signature'' GoNullString ''type:varchar(255);null'',
      column ''AuthorizationFingerprint'' GoNullString ''type:varchar(64);null;uniqueIndex'']\<rparr>"

definition DepositRecord_struct :: go_struct where
  "DepositRecord_struct = \<lparr>st_Table = ''deposit_records'', st_Fields = gorm_Model @
     [column ''Network'' GoString ''type:string;size:191;not null;uniqueIndex:idx_deposit_record_network_tx_hash'',
      column ''TxHash'' GoString ''type:string;size:191;not null;uniqueIndex:idx_deposit_record_network_tx_hash'',
      column ''DepositAddress'' GoString ''type:string;size:191;not null'',
      column ''FromAddress'' GoString ''type:string;size:191;not null;index'',
      column ''Amount'' GoBigInt ''type:string;size:255;not null'',
      column ''RelayAccountEventID'' GoUint ''not null;index'']\<rparr>"

definition VestingRecord_struct :: go_struct where
  "VestingRecord_struct = \<lparr>st_Table = ''vesting_records'', st_Fields = gorm_Model @
     [column ''RelayVestingID'' GoUint ''not null;uniqueIndex'',
      column ''Address'' GoString ''not null;index'',
      column ''TotalAmount'' GoBigInt ''not null'',
      column ''ReleasedAmount'' GoBigInt ''not null'',
      column ''StartTime'' GoTime ''not null;index'',
      column ''DurationDays'' GoUint ''not null'',
      column ''Type'' GoString ''not null;size:32;default:other;index'',
      column ''AdminSignature'' GoString ''not null;size:255'',
      column ''Status'' GoInt8 ''not null;default:0;index'']\<rparr>"

definition model_structs :: "go_struct list" where
  "model_structs =
     [RelayAccount_struct, BlockchainTransaction_struct, TaskFeeCheckpoint_struct,
      WithdrawalRequestCheckpoint_struct, WithdrawRecord_struct, DepositRecord_struct, VestingRecord_struct]"

end
