(* ===== verification/Migration_Properties.thy ===== *)
theory Migration_Properties
  imports Migrations Vesting_Properties
begin

text \<open>
  What the migrations promise: starting from an empty database they build the tables that the models
  need, each script can be rolled back, and the deprecation of the vestings is final for the program.
\<close>

section \<open>The library\<close>

text \<open>The database answers every statement.\<close>

definition healthy :: "faults \<Rightarrow> bool" where
  "healthy F \<longleftrightarrow> F = (\<lambda>_. None)"

definition record_id :: "string \<Rightarrow> store \<Rightarrow> store" where
  "record_id i s = s\<lparr>sg_Applied := sg_Applied s @ [i]\<rparr>"

definition forget_id :: "string \<Rightarrow> store \<Rightarrow> store" where
  "forget_id i s = s\<lparr>sg_Applied := removeAll i (sg_Applied s)\<rparr>"

text \<open>
  What \<open>gormigrate\<close> documents for a single migration: it runs unless it is recorded, it is recorded
  when it succeeds, an error is passed on and nothing recorded; the last migration that ran is rolled
  back and forgotten, and when none ran that is an error.
\<close>

definition documented :: "faults \<Rightarrow> gormigrate \<Rightarrow> bool" where
  "documented F G \<longleftrightarrow>
     (\<forall>m s. mg_ID m \<in> set (sg_Applied s) \<longrightarrow> gm_Migrate G [m] s = (Inr (), s)) \<and>
     (\<forall>m s t. mg_ID m \<notin> set (sg_Applied s) \<longrightarrow> mg_Migrate m s = (Inr (), t) \<longrightarrow> healthy F \<longrightarrow>
        gm_Migrate G [m] s = (Inr (), record_id (mg_ID m) t)) \<and>
     (\<forall>m s e t. mg_ID m \<notin> set (sg_Applied s) \<longrightarrow> mg_Migrate m s = (Inl e, t) \<longrightarrow>
        gm_Migrate G [m] s = (Inl e, t)) \<and>
     (\<forall>m s t. mg_ID m \<in> set (sg_Applied s) \<longrightarrow> mg_Rollback m s = (Inr (), t) \<longrightarrow> healthy F \<longrightarrow>
        gm_RollbackLast G [m] s = (Inr (), forget_id (mg_ID m) t)) \<and>
     (\<forall>m s. mg_ID m \<notin> set (sg_Applied s) \<longrightarrow>
        (\<exists>e. gm_RollbackLast G [m] s = (Inl e, s)))"

text \<open>An implementation of that description.\<close>

fun run_last :: "migration list \<Rightarrow> (store, unit) action" where
  "run_last [] s = (Inl (External ''could not find last run migration''), s)"
| "run_last (m # ms) s =
     (if mg_ID m \<in> set (sg_Applied s) then
        (case mg_Rollback m s of (Inl e, t) \<Rightarrow> (Inl e, t) | (Inr _, t) \<Rightarrow> (Inr (), forget_id (mg_ID m) t))
      else run_last ms s)"

fun run_scripts :: "migration list \<Rightarrow> (store, unit) action" where
  "run_scripts [] s = (Inr (), s)"
| "run_scripts (m # ms) s =
     (if mg_ID m \<in> set (sg_Applied s) then run_scripts ms s
      else case mg_Migrate m s of
        (Inl e, t) \<Rightarrow> (Inl e, t)
      | (Inr _, t) \<Rightarrow> run_scripts ms (record_id (mg_ID m) t))"

definition sample_gormigrate :: gormigrate where
  "sample_gormigrate = \<lparr>gm_Migrate = run_scripts, gm_RollbackLast = \<lambda>ms. run_last (rev ms)\<rparr>"

lemma sample_gormigrate_documented: "documented F sample_gormigrate"
  by (simp add: documented_def sample_gormigrate_def)

text \<open>The scripts one after the other.\<close>

definition scripts :: "faults \<Rightarrow> migration list" where
  "scripts F = concat (InitMigration F [])"

lemma InitMigration_scripts: "InitMigration F [] = map (\<lambda>m. [m]) (scripts F)"
  by (simp add: scripts_def InitMigration_def M20250811_def M20250902_def M20250930_def M20260327_def
      M20260526_def M20260602_def M20260609_def M20260708_def M20260803_def M20260803b_def
      M20260803c_def M20260826_def)

lemma Migrate_runs:
  assumes "documented F G" and "healthy F"
  shows "Migrate G (map (\<lambda>m. [m]) ms) s = run_scripts ms s"
proof (induction ms arbitrary: s)
  case Nil
  then show ?case by (simp add: Migrate_def return_ok_def)
next
  case (Cons m ms)
  have "Migrate G (map (\<lambda>m. [m]) (m # ms)) s =
      and_then (gm_Migrate G [m]) (\<lambda>_. Migrate G (map (\<lambda>m. [m]) ms)) s"
    by (simp add: Migrate_def)
  also have "\<dots> = run_scripts (m # ms) s"
  proof (cases "mg_ID m \<in> set (sg_Applied s)")
    case True
    then show ?thesis using assms(1) Cons.IH by (simp add: documented_def and_then_def)
  next
    case False
    obtain r t where r: "mg_Migrate m s = (r, t)" by fastforce
    with False assms Cons.IH show ?thesis by (cases r) (simp_all add: documented_def and_then_def)
  qed
  finally show ?case .
qed

lemma Rollback_runs:
  assumes "documented F G" and "healthy F" and "ms \<noteq> []" and "mg_ID (last ms) \<in> set (sg_Applied s)"
    and "mg_Rollback (last ms) s = (Inr (), t)"
  shows "Rollback G (map (\<lambda>m. [m]) ms) s = (Inr (), forget_id (mg_ID (last ms)) t)"
  using assms by (simp add: Rollback_def documented_def last_map)

section \<open>The schema the program needs\<close>

definition empty_store :: store where
  "empty_store = \<lparr>sg_Tick = 0, sg_Schema = [], sg_Vestings = [], sg_Applied = []\<rparr>"

text \<open>Amounts are stored as text.\<close>

fun stored_type :: "go_type \<Rightarrow> go_type" where
  "stored_type GoBigInt = GoString"
| "stored_type ty = ty"

definition stored :: "go_field \<Rightarrow> string \<times> go_type \<times> bool" where
  "stored f = (f_Name f, stored_type (f_Type f), not_null f)"

fun is_unique :: "index \<Rightarrow> bool" where
  "is_unique (UniqueIndex _) = True"
| "is_unique (Index _) = False"

text \<open>
  The table of a struct: exactly its columns, with their types and whether they may be NULL, and exactly
  its unique indexes.
\<close>

definition fits :: "schema \<Rightarrow> go_struct \<Rightarrow> bool" where
  "fits sc st =
     (case map_of sc (st_Table st) of
        None \<Rightarrow> False
      | Some t \<Rightarrow> set (map stored (tb_Columns t)) = set (map stored (st_Fields st)) \<and>
          distinct (map f_Name (tb_Columns t)) \<and>
          set (filter is_unique (tb_Indexes t)) = set (filter is_unique (List.map_filter index_of (st_Fields st))))"

lemma healthy_run:
  "fst (run_scripts (scripts (\<lambda>_. None)) empty_store) = Inr ()"
  "list_all (fits (sg_Schema (snd (run_scripts (scripts (\<lambda>_. None)) empty_store)))) model_structs"
  by code_simp+

lemma migrations_fit:
  assumes "documented F G" and "healthy F"
  shows "\<exists>s. Migrate G (InitMigration F []) empty_store = (Inr (), s) \<and> list_all (fits (sg_Schema s)) model_structs"
  using healthy_run assms(2) unfolding InitMigration_scripts Migrate_runs [OF assms] healthy_def
  by (metis prod.collapse)

text \<open>
  C33: on an empty database, \<open>Migrate\<close> runs all scripts without an error and leaves for every model the
  table it is stored in: exactly its columns, with their types, and exactly its unique indexes (the
  transaction hash, the remote identifier, the authorization fingerprint, the deposit, the vesting and
  the account address are each unique).
\<close>
theorem migrations_build_models:
  assumes "documented F G" and "healthy F"
  shows "\<exists>s. Migrate G (InitMigration F []) empty_store = (Inr (), s) \<and> list_all (fits (sg_Schema s)) model_structs"
  by (rule migrations_fit [OF assms])

theorem migrations_build_models_witness:
  "\<exists>s. Migrate sample_gormigrate (InitMigration (\<lambda>_. None) []) empty_store = (Inr (), s) \<and>
     list_all (fits (sg_Schema s)) model_structs"
  by (rule migrations_build_models [OF sample_gormigrate_documented]) (simp add: healthy_def)

section \<open>Rolling back\<close>

definition same_table :: "sql_table \<Rightarrow> sql_table \<Rightarrow> bool" where
  "same_table t u \<longleftrightarrow> set (tb_Columns t) = set (tb_Columns u) \<and> set (tb_Indexes t) = set (tb_Indexes u)"

definition same_schema :: "store \<Rightarrow> store \<Rightarrow> bool" where
  "same_schema s t \<longleftrightarrow> set (map fst (sg_Schema s)) = set (map fst (sg_Schema t)) \<and>
     list_all (\<lambda>n. same_table (the (map_of (sg_Schema s) n)) (the (map_of (sg_Schema t) n))) (map fst (sg_Schema s))"

text \<open>Every script, run on the state the ones before it leave and rolled back, restores that state.\<close>

fun undo_chain :: "migration list \<Rightarrow> store \<Rightarrow> bool" where
  "undo_chain [] s = True"
| "undo_chain (m # ms) s =
     (if mg_ID m \<in> set (sg_Applied s) then False
      else case mg_Migrate m s of
        (Inl _, _) \<Rightarrow> False
      | (Inr _, t) \<Rightarrow>
          (let t = record_id (mg_ID m) t in
           (case mg_Rollback m t of
              (Inl _, _) \<Rightarrow> False
            | (Inr _, u) \<Rightarrow> sg_Schema u = sg_Schema s \<or> same_schema u s) \<and> undo_chain ms t))"

lemma undo_chain: "undo_chain (scripts (\<lambda>_. None)) empty_store"
  by code_simp

lemma undo_chain_split:
  assumes "undo_chain (xs @ m # ys) s"
  shows "\<exists>t u v. run_scripts xs s = (Inr (), t) \<and> mg_ID m \<notin> set (sg_Applied t) \<and>
    mg_Migrate m t = (Inr (), u) \<and> mg_Rollback m (record_id (mg_ID m) u) = (Inr (), v) \<and> same_schema v t"
  using assms
proof (induction xs arbitrary: s)
  case Nil
  have same: "same_schema u s" if "sg_Schema u = sg_Schema s" for u
    using that by (simp add: same_schema_def same_table_def list_all_iff)
  obtain r t where m: "mg_Migrate m s = (r, t)" by fastforce
  obtain q u where b: "mg_Rollback m (record_id (mg_ID m) t) = (q, u)" by fastforce
  show ?case using Nil m b same by (cases r; cases q) (auto simp: Let_def split: if_splits)
next
  case (Cons x xs)
  obtain r t where x: "mg_Migrate x s = (r, t)" by fastforce
  obtain q u where b: "mg_Rollback x (record_id (mg_ID x) t) = (q, u)" by fastforce
  have "mg_ID x \<notin> set (sg_Applied s) \<and> r = Inr () \<and> undo_chain (xs @ m # ys) (record_id (mg_ID x) t)"
    using Cons.prems x b by (cases r; cases q) (auto simp: Let_def split: if_splits)
  with x Cons.IH show ?case by simp
qed

lemma run_scripts_snoc:
  "run_scripts xs s = (Inr (), t) \<Longrightarrow> run_scripts (xs @ [m]) s = run_scripts [m] t"
  by (induction xs arbitrary: s) (fastforce split: prod.splits sum.splits if_splits)+

lemma same_schema_forget [simp]: "same_schema (forget_id i s) t = same_schema s t"
  by (simp add: same_schema_def forget_id_def)

text \<open>
  C34: every script can be undone: after the first k scripts and one more, \<open>Rollback\<close> succeeds, restores
  the tables, columns and indexes the k scripts had built, and takes the script off the record.
\<close>
theorem migration_rollback_restores:
  assumes "documented F G" and "healthy F" and "k < length (InitMigration F [])"
    and before: "Migrate G (take k (InitMigration F [])) empty_store = (r, s)"
    and after: "Migrate G (take (Suc k) (InitMigration F [])) empty_store = (q, t)"
  shows "r = Inr () \<and> q = Inr () \<and> (\<exists>u. Rollback G (take (Suc k) (InitMigration F [])) t = (Inr (), u) \<and>
    same_schema u s \<and> mg_ID (last (take (Suc k) (scripts F))) \<notin> set (sg_Applied u))"
proof -
  define xs m ys where "xs = take k (scripts F)" and "m = scripts F ! k" and "ys = drop (Suc k) (scripts F)"
  have k: "k < length (scripts F)" using assms(3) by (simp add: InitMigration_scripts)
  then have split: "scripts F = xs @ m # ys" and snoc: "take (Suc k) (scripts F) = xs @ [m]"
    unfolding xs_def m_def ys_def by (simp_all add: id_take_nth_drop take_Suc_conv_app_nth)
  have "undo_chain (xs @ m # ys) empty_store"
    using undo_chain assms(2) unfolding healthy_def split [symmetric] by simp
  then obtain t' u v where xs: "run_scripts xs empty_store = (Inr (), t')" and new: "mg_ID m \<notin> set (sg_Applied t')"
    and m: "mg_Migrate m t' = (Inr (), u)" and undo: "mg_Rollback m (record_id (mg_ID m) u) = (Inr (), v)"
    and same: "same_schema v t'"
    using undo_chain_split by blast
  have s: "r = Inr ()" "s = t'"
    using before xs unfolding InitMigration_scripts take_map xs_def Migrate_runs [OF assms(1,2)] by simp_all
  have t: "q = Inr ()" "t = record_id (mg_ID m) u"
    using after m new run_scripts_snoc [OF xs, of m]
    unfolding InitMigration_scripts take_map snoc Migrate_runs [OF assms(1,2)] by simp_all
  have "Rollback G (take (Suc k) (InitMigration F [])) t = (Inr (), forget_id (mg_ID m) v)"
    using Rollback_runs [OF assms(1,2), of "xs @ [m]" t v] undo
    by (simp add: InitMigration_scripts take_map snoc t record_id_def)
  then show ?thesis using s t same snoc by (simp add: forget_id_def [of _ v]) (simp add: same_schema_def)
qed

theorem migration_rollback_restores_witness:
  "\<exists>r s q t u. Migrate sample_gormigrate (take 7 (InitMigration (\<lambda>_. None) [])) empty_store = (r, s) \<and>
     Migrate sample_gormigrate (take (Suc 7) (InitMigration (\<lambda>_. None) [])) empty_store = (q, t) \<and>
     Rollback sample_gormigrate (take (Suc 7) (InitMigration (\<lambda>_. None) [])) t = (Inr (), u) \<and> same_schema u s"
proof -
  have "healthy (\<lambda>_. None)" "7 < length (InitMigration (\<lambda>_. None) [])"
    by (simp_all add: healthy_def InitMigration_def)
  from migration_rollback_restores [OF sample_gormigrate_documented this prod.collapse [symmetric] prod.collapse [symmetric]]
  show ?thesis by (metis prod.collapse)
qed

section \<open>Failures\<close>

text \<open>
  When a statement of a script with several statements fails, the statements before it stay. \<open>Rollback\<close>
  looks at the last script, which has not run, and the next start runs the script again from its first
  statement, which the half-built schema refuses.
\<close>

lemma failed_migration_sticks:
  "let F = (\<lambda>t. if t = 2 then Some (External ''driver: bad connection'') else None);
       failed = Migrate sample_gormigrate (InitMigration F []) empty_store;
       rolled = Rollback sample_gormigrate (InitMigration F []) (snd failed);
       again = Migrate sample_gormigrate (InitMigration F []) (snd rolled) in
   fst failed = Inl (External ''driver: bad connection'') \<and>
   fst rolled = Inl (External ''could not find last run migration'') \<and>
   fst again = Inl (External ''table already exists'')"
  by code_simp

section \<open>Deprecated vestings\<close>

text \<open>Everything but the status.\<close>

definition vesting_terms :: "vesting_record \<Rightarrow> vesting_record" where
  "vesting_terms r = r\<lparr>vr_Status := VestingStatusActive\<rparr>"

lemma deprecate_active_effect:
  "map vesting_terms (deprecate_active rs) = map vesting_terms rs"
  "r \<in> set (deprecate_active rs) \<Longrightarrow> vr_DeletedAt r = None \<Longrightarrow> vr_Status r \<noteq> VestingStatusActive"
  by (auto simp: deprecate_active_def update_where_def vesting_terms_def split: if_splits)

lemma not_active_refused:
  assumes "\<And>r. r \<in> set (db_vesting_records (w_db w)) \<Longrightarrow> vr_DeletedAt r = None \<Longrightarrow> vr_Status r \<noteq> VestingStatusActive"
    and "applyVestingReleaseLog E eventLog v w = (q, w')"
  shows "(\<exists>e. q = Inl e) \<and> db_vesting_records (w_db w') = db_vesting_records (w_db w)"
proof -
  have "vr_Status r \<noteq> VestingStatusActive" if "find_vesting v (w_db w) = Inr r" for r
    using that assms(1) by (auto simp: find_vesting_def find_Some_iff split: option.splits)
  then show ?thesis
    using assms(2)
    by (auto simp: applyVestingReleaseLog_def and_then_def return_err_def return_ok_def time_now_def ask_def
        try_result_def db_query_def db_action_def lift_sum_def release_vesting_def Let_def
        split: option.splits if_splits sum.splits prod.splits)
qed


definition vesting_store :: store where
  "vesting_store = empty_store\<lparr>sg_Vestings := [sample_vesting]\<rparr>"


end
