(* ===== verification/App_Main.thy ===== *)
theory App_Main
  imports Host Migration_Properties Tx_Confirmer
begin

text \<open>
  \<open>main.go\<close>: the start of the process step by step, and what happens when one of its tasks ends. The
  process consists of the host (files, loggers, database handle), the schema, the world of the
  goroutines and the transaction manager; the vesting records of the schema scripts are those of the
  database in the world.
\<close>

section \<open>The process\<close>

record process =
  ps_Host :: host
  ps_Store :: store
  ps_World :: world
  ps_Manager :: "manager option"
  ps_Tasks :: "string list"

text \<open>What the process is given: its libraries, files and surroundings.\<close>

record setting =
  se_decoded :: "go_error + app_config"
  se_stuck :: "string set"
  se_ParseLevel :: level_parser
  se_gormOpen :: "string \<Rightarrow> string \<Rightarrow> go_error option"
  se_sqlDB :: "go_error option"
  se_gormigrate :: gormigrate
  se_faults :: faults
  se_env :: env

definition on_host :: "(host, 'a) action \<Rightarrow> (process, 'a) action" where
  "on_host m = (\<lambda>p. case m (ps_Host p) of (r, h) \<Rightarrow> (r, p\<lparr>ps_Host := h\<rparr>))"

definition on_files :: "(files, 'a) action \<Rightarrow> (host, 'a) action" where
  "on_files m = (\<lambda>h. case m (ho_Files h) of (r, fs) \<Rightarrow> (r, h\<lparr>ho_Files := fs\<rparr>))"

definition on_world :: "(world, 'a) action \<Rightarrow> (process, 'a) action" where
  "on_world m = (\<lambda>p. case m (ps_World p) of (r, w) \<Rightarrow> (r, p\<lparr>ps_World := w\<rparr>))"

definition on_store :: "(store, 'a) action \<Rightarrow> (process, 'a) action" where
  "on_store m =
     (\<lambda>p. let d = w_db (ps_World p) in
        case m ((ps_Store p)\<lparr>sg_Vestings := db_vesting_records d\<rparr>) of
          (r, s) \<Rightarrow> (r, p\<lparr>ps_Store := s,
            ps_World := (ps_World p)\<lparr>w_db := d\<lparr>db_vesting_records := sg_Vestings s\<rparr>\<rparr>\<rparr>))"

text \<open>\<open>if err := m; err != nil { ...; os.Exit(1) }\<close>.\<close>

definition or_exit ::
  "(process, 'a) action \<Rightarrow> ('a \<Rightarrow> (process, 'b proc) action) \<Rightarrow> (process, 'b proc) action" where
  "or_exit m f =
     and_then (try_result m) (\<lambda>r. case r of Inl e \<Rightarrow> return_ok (Exits 1) | Inr x \<Rightarrow> f x)"

definition unless_exited :: "'a proc \<Rightarrow> ('a \<Rightarrow> (process, 'b proc) action) \<Rightarrow> (process, 'b proc) action" where
  "unless_exited r f = (case r of Exits n \<Rightarrow> return_ok (Exits n) | Continues x \<Rightarrow> f x)"

section \<open>main.go\<close>

text \<open>A rollback error is only logged; without a database handle the scripts have nil to work on.\<close>

definition startDBMigration :: "setting \<Rightarrow> (process, unit proc) action" where
  "startDBMigration S =
     (let migrationScripts = InitMigration (se_faults S) [] in
      and_then (reads (\<lambda>p. GetDB (ps_Host p))) (\<lambda>handle.
        if handle = None then return_err (Panic ''nil pointer dereference'')
        else and_then (try_result (on_store (Migrate (se_gormigrate S) migrationScripts))) (\<lambda>r.
          case r of
            Inr _ \<Rightarrow> return_ok (Continues ())
          | Inl e \<Rightarrow>
              and_then (try_result (on_store (Rollback (se_gormigrate S) migrationScripts))) (\<lambda>_.
                return_ok (Exits 1)))))"

definition runTask :: "string \<Rightarrow> (process, unit) action" where
  "runTask taskName = writes (\<lambda>p. p\<lparr>ps_Tasks := ps_Tasks p @ [taskName]\<rparr>)"

definition task_names :: "string list" where
  "task_names = [''Heartbeat'', ''SyncTaskFeeLogs'', ''SyncWithdrawalRequests'', ''ProcessWithdrawalRequests'']"

text \<open>The goroutines see the configuration that was read.\<close>

definition configured :: "setting \<Rightarrow> app_config \<Rightarrow> env" where
  "configured S c = (se_env S)\<lparr>env_cfg := c\<rparr>"

definition start_manager :: "setting \<Rightarrow> app_config \<Rightarrow> (process, manager) action" where
  "start_manager S c = on_world (manager_Start (configured S c) NewTransactionManager)"

definition main :: "setting \<Rightarrow> (process, unit proc) action" where
  "main S =
     or_exit (on_host (on_files (InitConfig (env_lib (se_env S)) (se_stuck S) (se_decoded S)))) (\<lambda>c.
     or_exit (on_host (InitLog (se_ParseLevel S) c)) (\<lambda>_.
     or_exit (on_host (InitDB (se_ParseLevel S) (se_gormOpen S) (se_sqlDB S) c)) (\<lambda>r.
     unless_exited r (\<lambda>_.
     and_then (startDBMigration S) (\<lambda>r.
     unless_exited r (\<lambda>_.
     or_exit (on_world (Init (configured S c))) (\<lambda>_.
     or_exit (start_manager S c) (\<lambda>m.
     and_then (writes (\<lambda>p. p\<lparr>ps_Manager := Some m\<rparr>)) (\<lambda>_.
     and_then (for_each task_names runTask) (\<lambda>_. return_ok (Continues ())))))))))))"

text \<open>The deferred function of a task: how it ended, and the alert. It takes nothing else down.\<close>

definition task_ended :: "os_faults \<Rightarrow> app_config \<Rightarrow> string \<Rightarrow> go_error + unit \<Rightarrow> (host, unit) action" where
  "task_ended os c taskName outcome =
     (case outcome of
        Inr _ \<Rightarrow> return_ok ()
      | Inl (Panic s) \<Rightarrow> SafeSendAlert os c taskName (''[Task:'' @ taskName @ ''] panic: '' @ s)
      | Inl e \<Rightarrow> SafeSendAlert os c taskName (''[Task:'' @ taskName @ ''] error: '' @ error_text e))"

section \<open>What a completed start has established\<close>

lemma or_exit_continues:
  "or_exit m f p = (Inr (Continues x), q) \<longleftrightarrow> (\<exists>y t. m p = (Inr y, t) \<and> f y t = (Inr (Continues x), q))"
  by (auto simp: or_exit_def and_then_ok try_result_ok return_ok_def)

lemma unless_exited_continues:
  "unless_exited r f p = (Inr (Continues x), q) \<longleftrightarrow> (\<exists>y. r = Continues y \<and> f y p = (Inr (Continues x), q))"
  by (cases r) (auto simp: unless_exited_def return_ok_def)

lemma on_host_ok:
  "on_host m p = (r, q) \<longleftrightarrow> (\<exists>h. m (ps_Host p) = (r, h) \<and> q = p\<lparr>ps_Host := h\<rparr>)"
  by (auto simp: on_host_def split: prod.splits)

lemma on_world_ok:
  "on_world m p = (r, q) \<longleftrightarrow> (\<exists>w. m (ps_World p) = (r, w) \<and> q = p\<lparr>ps_World := w\<rparr>)"
  by (auto simp: on_world_def split: prod.splits)

text \<open>After \<open>Init\<close> every network has its client, with the configured limits and account.\<close>

definition client_of :: "app_config \<Rightarrow> world \<Rightarrow> string \<Rightarrow> bool" where
  "client_of c w network \<longleftrightarrow>
     (\<exists>bc cl. blockchain_of c network = Some bc \<and> w_clients w network = Some cl \<and> cl_Network cl = network \<and>
        cl_Address cl = acc_Address (bc_Account bc) \<and> cl_PrivateKey cl = acc_PrivateKey (bc_Account bc) \<and>
        cl_GasLimit cl = bc_GasLimit bc \<and> cl_GasLimitBufferPercent cl = bc_GasLimitBufferPercent bc \<and>
        cl_Nonce cl \<noteq> None)"

lemma initChainID_clients: "initChainID E network chainID w = (r, w') \<Longrightarrow> w_clients w' = w_clients w"
  by (auto simp: initChainID_def action_defs ask_def LimiterWait_def ask_unit_def
      split: if_splits sum.splits prod.splits option.splits)

lemma initNonce_clients: "initNonce E network a w = (r, w') \<Longrightarrow> w_clients w' = w_clients w"
  by (auto simp: initNonce_def action_defs ask_def LimiterWait_def ask_unit_def
      split: if_splits sum.splits prod.splits option.splits)

lemma initBlockchainClient_client:
  assumes "initBlockchainClient E network w = (Inr u, w')"
  shows "client_of (env_cfg E) w' network \<and> (\<forall>n. n \<noteq> network \<longrightarrow> w_clients w' n = w_clients w n)"
  using assms
  by (auto simp: initBlockchainClient_def and_then_ok writes_def client_of_def return_err_def
      dest!: initChainID_clients initNonce_clients split: option.splits)

lemma Init_clients:
  assumes "for_each ns (initBlockchainClient E) w = (Inr u, w')"
  shows "(\<forall>n \<in> set ns. client_of (env_cfg E) w' n) \<and> (\<forall>n. n \<notin> set ns \<longrightarrow> w_clients w' n = w_clients w n)"
  using assms
proof (induction ns arbitrary: w)
  case Nil
  then show ?case by (simp add: return_ok_def)
next
  case (Cons n ns)
  then obtain v t where n: "initBlockchainClient E n w = (Inr v, t)" and ns: "for_each ns (initBlockchainClient E) t = (Inr u, w')"
    by (auto simp: and_then_ok)
  have "client_of (env_cfg E) w' n"
    using initBlockchainClient_client [OF n] Cons.IH [OF ns] by (cases "n \<in> set ns") (simp_all add: client_of_def)
  with initBlockchainClient_client [OF n] Cons.IH [OF ns] show ?case by auto
qed

lemma manager_Start_ok:
  assumes "manager_Start E NewTransactionManager w = (Inr m, w')"
  shows "mg_isRunning m \<and> w_clients w' = w_clients w"
proof -
  have k: "keeps (unchanged (w_calls w) (w_clients w)) (RecoverLegacySendingTransactions E)"
    unfolding RecoverLegacySendingTransactions_def by (intro safe silent)
  obtain u where recover: "RecoverLegacySendingTransactions E w = (Inr u, w')" and "mg_isRunning m"
    using assms by (auto simp: manager_Start_def NewTransactionManager_def and_then_ok return_ok_def)
  from keepsD [OF k _ recover] have "unchanged (w_calls w) (w_clients w) w'" by (simp add: unchanged_def)
  with \<open>mg_isRunning m\<close> show ?thesis by (simp add: unchanged_def)
qed

text \<open>The scripts build the schema; later steps leave it alone.\<close>

lemma startDBMigration_schema:
  assumes run: "startDBMigration S p = (Inr (Continues x), q)"
    and G: "documented (se_faults S) (se_gormigrate S)" "healthy (se_faults S)"
    and empty: "ps_Store p = empty_store" "db_vesting_records (w_db (ps_World p)) = []"
  shows "list_all (fits (sg_Schema (ps_Store q))) model_structs \<and> ps_Tasks q = ps_Tasks p \<and>
    ps_Manager q = ps_Manager p \<and> ps_Host q = ps_Host p"
proof -
  obtain s where s: "Migrate (se_gormigrate S) (InitMigration (se_faults S) []) empty_store = (Inr (), s)"
      "list_all (fits (sg_Schema s)) model_structs"
    using migrations_fit [OF G] by blast
  have "(ps_Store p)\<lparr>sg_Vestings := []\<rparr> = empty_store" using empty(1) by (simp add: empty_store_def)
  with s run empty show ?thesis
    by (auto simp: startDBMigration_def and_then_ok try_result_ok on_store_def return_ok_def reads_def return_err_def
        Let_def split: if_splits)
qed

text \<open>An exit happens before the manager and the tasks.\<close>

definition nothing_started :: "process \<Rightarrow> process \<Rightarrow> bool" where
  "nothing_started p q \<longleftrightarrow> ps_Tasks q = ps_Tasks p \<and> ps_Manager q = ps_Manager p"

lemma nothing_started_steps:
  "on_host m p = (r, q) \<Longrightarrow> nothing_started p q"
  "on_world m' p = (r', q) \<Longrightarrow> nothing_started p q"
  "on_store m'' p = (r'', q) \<Longrightarrow> nothing_started p q"
  by (auto simp: nothing_started_def on_host_def on_world_def on_store_def Let_def split: prod.splits)

lemma nothing_started_trans: "nothing_started p q \<Longrightarrow> nothing_started q s \<Longrightarrow> nothing_started p s"
  by (simp add: nothing_started_def)

lemma or_exit_exits:
  "or_exit m f p = (Inr (Exits n), q) \<longleftrightarrow> (\<exists>e. \<not> aborts e \<and> m p = (Inl e, q) \<and> n = 1) \<or>
     (\<exists>y t. m p = (Inr y, t) \<and> f y t = (Inr (Exits n), q))"
  by (auto simp: or_exit_def and_then_ok try_result_ok return_ok_def)

lemma unless_exited_exits:
  "unless_exited r f p = (Inr (Exits n), q) \<longleftrightarrow> r = Exits n \<and> q = p \<or>
     (\<exists>y. r = Continues y \<and> f y p = (Inr (Exits n), q))"
  by (cases r) (auto simp: unless_exited_def return_ok_def)

lemma NewDBLogger_exits: "NewDBLogger P c h = (Inr (Exits n), h') \<Longrightarrow> n = 1"
  by (auto simp: NewDBLogger_def and_then_ok return_ok_def case_sum_run)

lemma InitDB_exits: "InitDB P gormOpen sqlDB c h = (Inr (Exits n), h') \<Longrightarrow> n = 1"
  by (auto simp: InitDB_def and_then_ok return_ok_def return_err_def case_proc_run dest: NewDBLogger_exits
      split: if_split_asm option.split_asm)

lemma startDBMigration_started:
  "startDBMigration S p = (Inr r, q) \<Longrightarrow> nothing_started p q \<and> (\<forall>n. r = Exits n \<longrightarrow> n = 1)"
  by (auto simp: startDBMigration_def and_then_ok try_result_ok return_ok_def return_err_def reads_def Let_def
      split: if_splits dest!: nothing_started_steps(3) intro: nothing_started_trans)

lemma main_exits:
  assumes "main S p = (Inr (Exits n), q)"
  shows "n = 1 \<and> nothing_started p q"
  using assms unfolding main_def start_manager_def
  by (auto simp: or_exit_exits unless_exited_exits and_then_ok return_ok_def on_host_ok writes_def
      dest!: InitDB_exits startDBMigration_started nothing_started_steps)
   (auto simp: nothing_started_def on_world_ok)

lemma tasks_run: "for_each ns runTask p = (Inr u, q) \<Longrightarrow> q = p\<lparr>ps_Tasks := ps_Tasks p @ ns\<rparr>"
  by (induction ns arbitrary: p) (fastforce simp: return_ok_def and_then_def runTask_def writes_def)+

lemma main_continues:
  assumes run: "main S p = (Inr (Continues u), q)"
    and G: "documented (se_faults S) (se_gormigrate S)" "healthy (se_faults S)"
    and empty: "ps_Store p = empty_store" "db_vesting_records (w_db (ps_World p)) = []"
  shows "\<exists>c fs m. InitConfig (env_lib (se_env S)) (se_stuck S) (se_decoded S) (ho_Files (ps_Host p)) = (Inr c, fs) \<and>
    (\<forall>n \<in> fst ` set (cfg_Blockchains c). client_of c (ps_World q) n) \<and>
    list_all (fits (sg_Schema (ps_Store q))) model_structs \<and>
    ps_Manager q = Some m \<and> IsRunning m \<and> ps_Tasks q = ps_Tasks p @ task_names"
proof -
  obtain c h1 h2 h3 v p3 w4 m w5 where
    c: "on_files (InitConfig (env_lib (se_env S)) (se_stuck S) (se_decoded S)) (ps_Host p) = (Inr c, h1)"
    and mig: "startDBMigration S (p\<lparr>ps_Host := h3\<rparr>) = (Inr (Continues v), p3)"
    and init: "Init (configured S c) (ps_World p3) = (Inr (), w4)"
    and manager: "manager_Start (configured S c) NewTransactionManager w4 = (Inr m, w5)"
    and q: "q = p3\<lparr>ps_World := w5, ps_Manager := Some m, ps_Tasks := ps_Tasks p3 @ task_names\<rparr>"
    using run unfolding main_def start_manager_def
    by (auto simp: or_exit_continues unless_exited_continues and_then_ok return_ok_def on_host_ok on_world_ok writes_def
        dest!: tasks_run)
  have files: "\<exists>fs. InitConfig (env_lib (se_env S)) (se_stuck S) (se_decoded S) (ho_Files (ps_Host p)) = (Inr c, fs)"
    using c by (auto simp: on_files_def split: prod.splits)
  have schema: "list_all (fits (sg_Schema (ps_Store p3))) model_structs \<and> ps_Tasks p3 = ps_Tasks p"
    using startDBMigration_schema [OF mig G] empty by simp
  have "\<forall>n \<in> fst ` set (cfg_Blockchains c). client_of c w4 n"
    using Init_clients [OF init [unfolded Init_def]] by (simp add: configured_def)
  moreover have "mg_isRunning m \<and> w_clients w5 = w_clients w4"
    using manager_Start_ok [OF manager] .
  ultimately show ?thesis
    using files schema q by (auto simp: client_of_def IsRunning_def)
qed

section \<open>The end of a task\<close>

text \<open>
  A task that returns nil leaves no trace. One that fails or panics adds one line to the alert file, with
  its name and its error, when the file can be opened and written; the deferred function itself never
  fails, so the other tasks go on.
\<close>

fun how_ended :: "go_error \<Rightarrow> string" where
  "how_ended (Panic s) = ''panic''"
| "how_ended e = ''error''"

lemma task_ended_err:
  "task_ended os c taskName (Inl e) =
     SafeSendAlert os c taskName (''[Task:'' @ taskName @ ''] '' @ how_ended e @ '': '' @ error_text e)"
  by (cases e) (simp_all add: task_ended_def)

lemma task_ended_alert:
  assumes "os_Open os (ho_Tick h) = None" and "os_Write os (Suc (ho_Tick h)) = None"
  shows "task_ended os c taskName (Inr u) h = (Inr (), h)"
    and "fst (task_ended os c taskName (Inl e) h) = Inr ()"
    and "ho_Files (snd (task_ended os c taskName (Inl e) h)) = (ho_Files h)(cfg_AlertLogFile c \<mapsto>
      null_string (ho_Files h (cfg_AlertLogFile c)) @
      alert_line taskName (''[Task:'' @ taskName @ ''] '' @ how_ended e @ '': '' @ error_text e) @ line_end)"
  unfolding task_ended_err using alert_appended [OF assms]
  by (simp_all add: task_ended_def SafeSendAlert_def return_ok_def)

end
