(* ===== verification/Spec2Isabelle.thy ===== *)
theory Spec2Isabelle
  imports Payout_Properties Fee_Properties Withdraw_Checks Withdraw_Progress Withdraw_Records Tx_Workers App_Main
begin

text \<open>
  Verification development for the Crynux relay wallet, a Go service that keeps the books of the node
  accounts of the Crynux network and pays withdrawals from a hot wallet.

  The program. \<^verbatim>\<open>main.go\<close> reads the configuration, opens logs and database, runs the migrations, builds
  one client per network, starts the transaction manager (a sender and a confirmer of on-chain
  transactions) and four tasks: the heartbeat, the sync of the Relay's account events
  (\<^verbatim>\<open>tasks/sync_task_fee_logs.go\<close>), the sync of withdrawal requests and the processor of withdrawals
  (both \<^verbatim>\<open>tasks/process_withdrawal_requests.go\<close>). The parts talk to each other only through the tables
  of \<^verbatim>\<open>models/\<close>: the processor inserts a pending row into \<^verbatim>\<open>blockchain_transactions\<close> and waits until
  sender and confirmer have settled it; the event sync and the processor both write
  \<^verbatim>\<open>relay_accounts\<close>; the request sync inserts the \<^verbatim>\<open>withdraw_records\<close> that the processor finishes.

  How it is modelled. A table is a list of records, a database is a record of tables
  (\<^verbatim>\<open>Wallet_Tables\<close>). A Go function that can fail is an action: a function from a state to an error or a
  value, and the state it leaves, also on an error (\<^verbatim>\<open>Wallet_Prelude\<close>). One goroutine is translated
  statement by statement into actions on a \<open>world\<close> (\<^verbatim>\<open>Wallet_World\<close>): its database, its memory that
  matters, and the calls it has made to the outside. The n-th external step of a run consults the n-th
  entry of the environment \<open>env\<close>: what the other goroutines have committed meanwhile (\<open>other_step\<close>), the
  faults of database, commit and context, the clock, the answers of the nodes and of the Relay. A
  theorem for all environments therefore holds for all interleavings, failures and clocks. \<open>db_transaction\<close>
  undoes the statements, not the memory, of a body or commit that fails.

  Which theory models which part.

    \<^item> \<^verbatim>\<open>Wallet_Prelude\<close>, \<^verbatim>\<open>Go_Text\<close> (strings, decimal numbers, \<^verbatim>\<open>models/big_int.go\<close>, \<^verbatim>\<open>utils/ether.go\<close>),
      \<^verbatim>\<open>Ethereum\<close> (the library functions and chain data that are parameters), \<^verbatim>\<open>Wallet_Config\<close>
      (\<^verbatim>\<open>config/config.go\<close>, \<^verbatim>\<open>config/app_config.go\<close>), \<^verbatim>\<open>Relay_Types\<close> and \<^verbatim>\<open>Relay_Api\<close> (\<^verbatim>\<open>relay_api/\<close>).

    \<^item> The transaction table, \<^verbatim>\<open>models/blockchain_transaction.go\<close>: its conditional updates (\<^verbatim>\<open>Tx_Rows\<close>), the
      invariant each of them keeps (\<^verbatim>\<open>Tx_Invariant\<close>, locales \<open>row_update\<close> and \<open>quiet_update\<close>), retry chains
      (\<^verbatim>\<open>Tx_Chain\<close>), the operations as actions (\<^verbatim>\<open>Tx_Store\<close>) and \<open>ClaimForSending\<close> (\<^verbatim>\<open>Tx_Claim\<close>).

    \<^item> The payer, \<^verbatim>\<open>blockchain/\<close>: client (\<^verbatim>\<open>Eth_Client\<close>), sender (\<^verbatim>\<open>Tx_Sender\<close>), confirmer and manager
      (\<^verbatim>\<open>Tx_Confirmer\<close>), and the goroutines and channels around their handlers (\<^verbatim>\<open>Tx_Workers\<close>, with the step
      relation \<open>pool_step\<close>; the confirmer's \<open>Start\<close>, \<open>Stop\<close> and \<open>run\<close> are those of the sender).
      \<^verbatim>\<open>Tx_Properties\<close> and \<^verbatim>\<open>Payout_Properties\<close> hold the theorems.

    \<^item> The books, \<^verbatim>\<open>tasks/sync_task_fee_logs.go\<close>: events and deposits (\<^verbatim>\<open>Fee_Logs\<close>), batches (\<^verbatim>\<open>Fee_Sync\<close>), what a
      batch means for the balances (\<^verbatim>\<open>Fee_Ledger\<close>), vestings with \<^verbatim>\<open>models/vesting.go\<close> (\<^verbatim>\<open>Vesting\<close>).
      Theorems: \<^verbatim>\<open>Fee_Properties\<close>, \<^verbatim>\<open>Vesting_Properties\<close>.

    \<^item> Withdrawals: authorization (\<^verbatim>\<open>Withdraw_Auth\<close>), request sync (\<^verbatim>\<open>Withdraw_Sync\<close>, theorem in
      \<^verbatim>\<open>Withdraw_Checks\<close>), processor (\<^verbatim>\<open>Withdraw_Process\<close>); what its steps keep (\<^verbatim>\<open>Withdraw_Frame\<close>), the safety
      of its answers (\<^verbatim>\<open>Withdraw_Safety\<close>), its debits (\<^verbatim>\<open>Withdraw_Ledger\<close>), the theorems
      (\<^verbatim>\<open>Withdraw_Properties\<close>), the unique keys of the records (\<^verbatim>\<open>Withdraw_Records\<close>) and progress
      (\<^verbatim>\<open>Withdraw_Progress\<close>).

    \<^item> The process: files, logs, alerts, heartbeat and database handle (\<^verbatim>\<open>Host\<close>: \<^verbatim>\<open>config/log.go\<close>,
      \<^verbatim>\<open>config/db.go\<close>, \<^verbatim>\<open>config/db_logger.go\<close>, \<^verbatim>\<open>alert/\<close>, \<^verbatim>\<open>tasks/heartbeat.go\<close>), the schema and its scripts
      (\<^verbatim>\<open>Migrations\<close>: \<^verbatim>\<open>migrate/\<close>; theorems in \<^verbatim>\<open>Migration_Properties\<close>), \<^verbatim>\<open>main.go\<close> (\<^verbatim>\<open>App_Main\<close> and this theory).

  What the lemmas show. The invariant \<open>table_ok\<close> of the transaction table and the order \<open>txs_le\<close> in which
  it grows hold under every interleaving (locale \<open>db_invariant\<close>); \<open>lasting\<close> properties survive everything
  the others do. From them: at most one payout of a chain is open, outcomes are final, a retry is only
  broadcast after proof of failure, only recorded payloads leave the wallet, confirmation refines an
  abstract settlement. The views that only one goroutine writes (locale \<open>stable_view\<close>) give exact books: a
  batch of events moves the balances by its sums together with the checkpoint or not at all, a
  withdrawal is debited once, exactly when it is fulfilled. Rejections and fulfilments told to the Relay are
  final truths about the chain. One authorization pays at most once. Liveness: a withdrawal whose payout
  has been sent is finished when the confirmer keeps getting its turn. Some theorems state defects that
  the code has: a failed commit of the debit (\<open>fulfilled_without_debit\<close>), a lost update
  (\<open>concurrent_debit_lost\<close>), negative payments (\<open>negative_payment_credits\<close>).

  Bounds. Integers that can overflow are words of their width; Go durations and instants are integers of
  nanoseconds with the saturation of \<open>time.Sub\<close> written out. Loops over tables and pages are structural
  or bounded by fuel; running out of fuel is the error \<open>OutOfFuel\<close>, which no test of the program can
  see. Safety theorems hold for every fuel; \<open>collect_complete\<close> shows that one more page than rows is
  enough, and \<open>withdrawal_completes\<close> that \<open>t0 + 3\<close> rounds are, where \<open>t0\<close> is the tick from which on the
  confirmer acts. The endless loops of the tasks are runs of any length.

  Assumptions of the model. go-ethereum, gormigrate, viper, the JSON parser, the float formatting of
  encoding/json and the HTTP transport are parameters; gormigrate has its documented behaviour as a
  named hypothesis (\<open>documented\<close>). Case folding and trimming are those of ASCII, and the database compares
  addresses byte by byte. \<open>RowsAffected\<close> counts matched rows. Time-outs of contexts appear as errors of the
  call they end. The order of an association list stands for the order in which Go ranges over a map.
  Whether transactions are isolated is the parameter \<open>env_serializable\<close>. A rolled back transaction leaves
  what the others wrote, and its identifiers are handed out again. The SQL \<open>CASE\<close> of the balance update is
  modelled for addresses without a quotation mark. Receipts carry an effective gas price. DDL statements
  have the meaning of their SQL; adding a column creates no index.

  Not modelled. The generated contract binding \<^verbatim>\<open>blockchain/bindings\<close>; the functions that only build
  log fields (\<^verbatim>\<open>logWithdrawal...\<close>, \<^verbatim>\<open>logDeposit...\<close> and their field helpers) and the log methods that pass their
  arguments on; \<^verbatim>\<open>WeiToEther\<close>, which computes in \<open>big.Float\<close> for display; the build helper
  \<^verbatim>\<open>scripts/run_migrations.go\<close>; the mutex of the cached nonce, which one goroutine uses; the time at the end
  of the message of a blocked withdrawal; the wait for the interrupt at the end of \<^verbatim>\<open>main\<close>. Of \<open>gorm\<close>,
  the columns that an update copies into the struct it was called on, before the statement runs, are left
  out: the model changes the memory where the program does.
\<close>

section \<open>A sample start\<close>

definition production_cfg :: app_config where
  "production_cfg = sample_cfg\<lparr>cfg_Environment := EnvProduction,
     cfg_Blockchains := [(''base'', sample_blockchain\<lparr>bc_Contracts_BenefitAddress := ''0xB''\<rparr>)],
     cfg_Relay := (cfg_Relay sample_cfg)\<lparr>rel_Api := (rel_Api (cfg_Relay sample_cfg))\<lparr>api_PrivateKeyFile := ''api''\<rparr>\<rparr>\<rparr>"

definition sample_setting :: setting where
  "sample_setting = \<lparr>se_decoded = Inr production_cfg, se_stuck = {}, se_ParseLevel = Inr,
     se_gormOpen = (\<lambda>driver connection. None), se_sqlDB = None, se_gormigrate = sample_gormigrate,
     se_faults = (\<lambda>_. None), se_env = sample_env\<rparr>"

definition sample_process :: process where
  "sample_process = \<lparr>ps_Host = \<lparr>ho_Tick = 0, ho_Files = [''key'' \<mapsto> ''k'', ''api'' \<mapsto> ''k''],
       ho_Logger = new_logger, ho_DbLogger = new_logger, ho_Db = None\<rparr>,
     ps_Store = empty_store, ps_World = world_of empty_db, ps_Manager = None, ps_Tasks = []\<rparr>"

definition loaded_cfg :: app_config where
  "loaded_cfg = set_private_keys (\<lambda>_. ''k'') ''k'' production_cfg"

lemma sample_config: "fst (InitConfig sample_lib {} (Inr production_cfg) [''key'' \<mapsto> ''k'', ''api'' \<mapsto> ''k'']) = Inr loaded_cfg"
  by code_simp

lemma sample_start: "\<exists>q. main sample_setting sample_process = (Inr (Continues ()), q)"
proof -
  obtain fs where c: "InitConfig sample_lib {} (Inr production_cfg) [''key'' \<mapsto> ''k'', ''api'' \<mapsto> ''k''] = (Inr loaded_cfg, fs)"
    using sample_config by (metis prod.collapse)
  obtain s where s: "Migrate sample_gormigrate (InitMigration (\<lambda>_. None) []) empty_store = (Inr (), s)"
    using migrations_fit [OF sample_gormigrate_documented] by (metis healthy_def)
  have e: "empty_store\<lparr>sg_Vestings := []\<rparr> = empty_store" by (simp add: empty_store_def)
  have cfg: "cfg_DbDriver loaded_cfg = ''mysql''" "cfg_Environment loaded_cfg = EnvProduction"
      "\<exists>bc. cfg_Blockchains loaded_cfg = [(''base'', bc)] \<and> bc_ChainID bc = 8453"
      "lc_Output (cfg_Log loaded_cfg) = []" "lc_Output (cfg_DbLog loaded_cfg) = []"
    by (simp_all add: loaded_cfg_def set_private_keys_def production_cfg_def sample_cfg_def sample_blockchain_def)
  show ?thesis
    using cfg
    by (auto simp: main_def or_exit_def unless_exited_def and_then_def try_result_def on_host_def on_files_def on_world_def on_store_def
        startDBMigration_def start_manager_def manager_Start_def NewTransactionManager_def
        InitLog_def InitDB_def NewDBLogger_def configLogrusInstance_def GetDB_def reads_def writes_def lift_sum_def return_ok_def
        sample_setting_def sample_process_def world_of_def empty_db_def c s e Let_def
        Init_def initBlockchainClient_def initChainID_def initNonce_def ask_def blockchain_of_def configured_def sample_env_def
        RecoverLegacySendingTransactions_def db_transaction_def db_query_def db_action_def db_update_def time_now_def commit_or_rollback_def
        runTask_def task_names_def split: prod.splits sum.splits)
qed

section \<open>The start of the process\<close>

text \<open>
  C36: on an empty database \<open>main\<close> either exits with code 1 before the transaction manager or any task
  runs, or starts exactly its four tasks, and then the configuration has passed its checks for every
  network, every network has its client with the configured account and limits, every model has its
  table, and the transaction manager is running.
\<close>
theorem main_starts_complete:
  assumes run: "main S p = (Inr outcome, q)"
    and "documented (se_faults S) (se_gormigrate S)" and "healthy (se_faults S)"
    and "ps_Store p = empty_store" and "db_vesting_records (w_db (ps_World p)) = []"
  shows "case outcome of
      Exits n \<Rightarrow> n = 1 \<and> ps_Tasks q = ps_Tasks p \<and> ps_Manager q = ps_Manager p
    | Continues _ \<Rightarrow> ps_Tasks q = ps_Tasks p @ task_names \<and> (\<exists>m. ps_Manager q = Some m \<and> IsRunning m) \<and>
        list_all (fits (sg_Schema (ps_Store q))) model_structs \<and>
        (\<exists>c fs. InitConfig (env_lib (se_env S)) (se_stuck S) (se_decoded S) (ho_Files (ps_Host p)) = (Inr c, fs) \<and>
           (\<forall>(network, bc) \<in> set (cfg_Blockchains c).
              blockchain_config_ok (env_lib (se_env S)) bc \<and> client_of c (ps_World q) network))"
proof (cases outcome)
  case (Exits n)
  with main_exits [of S p n q] run show ?thesis by (simp add: nothing_started_def)
next
  case (Continues u)
  with run have "main S p = (Inr (Continues u), q)" by simp
  from main_continues [OF this assms(2-5)] Continues show ?thesis
    by (fastforce dest: InitConfig_ok(2))
qed

theorem main_starts_complete_witness:
  "let q = snd (main sample_setting sample_process) in
     list_all (fits (sg_Schema (ps_Store q))) model_structs \<and> ps_Tasks q = task_names"
proof -
  obtain q where run: "main sample_setting sample_process = (Inr (Continues ()), q)" using sample_start by blast
  have d: "documented (se_faults sample_setting) (se_gormigrate sample_setting)" "healthy (se_faults sample_setting)"
      "ps_Store sample_process = empty_store" "db_vesting_records (w_db (ps_World sample_process)) = []"
    by (simp_all add: sample_setting_def sample_gormigrate_documented healthy_def sample_process_def world_of_def empty_db_def)
  have "ps_Tasks sample_process = []" by (simp add: sample_process_def)
  with main_starts_complete [OF run d] show ?thesis by (simp add: run)
qed

end
